(* ===== verification/Json_Value.thy ===== *)
theory Json_Value
  imports Tide_Prelude
begin

text \<open>
  \<open>serde_json::Value\<close>, the configuration and payload type of the whole program, with the
  accessors the code calls: \<open>get\<close>, \<open>as_str\<close>, \<open>as_bool\<close>, \<open>as_i64\<close>, \<open>as_u64\<close>, \<open>as_array\<close>,
  \<open>is_boolean\<close>.  An object is serde's default \<open>BTreeMap\<close>: keys in byte order.  A float is
  kept as its printed form, since the code never computes with one.
\<close>

datatype json =
    JNull
  | JBool bool
  | JInt int
  | JFloat string
  | JStr string
  | JArr "json list"
  | JObj "(string \<times> json) list"

fun json_get :: "json \<Rightarrow> string \<Rightarrow> json option" where
  "json_get (JObj kvs) k = map_of kvs k"
| "json_get _ k = None"

text \<open>The index operator \<open>value[key]\<close> reads \<open>Null\<close> where the key is missing.\<close>

definition json_index :: "json \<Rightarrow> string \<Rightarrow> json" where
  "json_index v k = unwrap_or (json_get v k) JNull"

fun as_str :: "json \<Rightarrow> string option" where
  "as_str (JStr s) = Some s"
| "as_str _ = None"

fun as_bool :: "json \<Rightarrow> bool option" where
  "as_bool (JBool b) = Some b"
| "as_bool _ = None"

fun as_i64 :: "json \<Rightarrow> int option" where
  "as_i64 (JInt i) = (if i64_min \<le> i \<and> i \<le> i64_max then Some i else None)"
| "as_i64 _ = None"

fun as_u64 :: "json \<Rightarrow> int option" where
  "as_u64 (JInt i) = (if 0 \<le> i \<and> i \<le> u64_max then Some i else None)"
| "as_u64 _ = None"

fun as_array :: "json \<Rightarrow> json list option" where
  "as_array (JArr vs) = Some vs"
| "as_array _ = None"

fun as_object :: "json \<Rightarrow> (string \<times> json) list option" where
  "as_object (JObj kvs) = Some kvs"
| "as_object _ = None"

fun is_boolean :: "json \<Rightarrow> bool" where
  "is_boolean (JBool b) = True"
| "is_boolean _ = False"

text \<open>The idioms \<open>cfg.get(key).and_then(as_x).unwrap_or(d)\<close> of the configuration parsers.\<close>

definition get_bool_or :: "json \<Rightarrow> string \<Rightarrow> bool \<Rightarrow> bool" where
  "get_bool_or v k d = unwrap_or (Option.bind (json_get v k) as_bool) d"

definition get_u64_or :: "json \<Rightarrow> string \<Rightarrow> int \<Rightarrow> int" where
  "get_u64_or v k d = unwrap_or (Option.bind (json_get v k) as_u64) d"

definition get_i64_or :: "json \<Rightarrow> string \<Rightarrow> int \<Rightarrow> int" where
  "get_i64_or v k d = unwrap_or (Option.bind (json_get v k) as_i64) d"

text \<open>Reading along a path of keys, as \<open>PipelineConfig\<close> does.\<close>

fun json_path :: "json \<Rightarrow> string list \<Rightarrow> json option" where
  "json_path v [] = Some v"
| "json_path v (k # ks) = (case json_get v k of None \<Rightarrow> None | Some v' \<Rightarrow> json_path v' ks)"

lemma as_i64_range: "as_i64 v = Some i \<Longrightarrow> i64_min \<le> i \<and> i \<le> i64_max"
  by (cases v) (auto split: if_splits)

lemma as_u64_range: "as_u64 v = Some i \<Longrightarrow> 0 \<le> i \<and> i \<le> u64_max"
  by (cases v) (auto split: if_splits)

lemma get_u64_or_range: "0 \<le> d \<Longrightarrow> d \<le> u64_max \<Longrightarrow> 0 \<le> get_u64_or v k d \<and> get_u64_or v k d \<le> u64_max"
  by (cases "Option.bind (json_get v k) as_u64")
    (auto simp: get_u64_or_def bind_eq_Some_conv dest: as_u64_range)

lemma as_bool_Some_iff [simp]: "as_bool v = Some b \<longleftrightarrow> v = JBool b"
  by (cases v) auto

lemma as_str_Some_iff [simp]: "as_str v = Some s \<longleftrightarrow> v = JStr s"
  by (cases v) auto

lemma json_get_not_obj: "as_object v = None \<Longrightarrow> json_get v k = None"
  by (cases v) auto

end
