(* ===== verification/Relay_Error.thy ===== *)
theory Relay_Error
  imports Json_Value
begin

text \<open>
  \<open>pg-tide-relay/src/error.rs\<close>: the relay's error type, the retry classification every
  retry, dead-letter and shutdown decision rests on, the bounded failure codes and the
  operator codes.  A \<open>tokio_postgres::Error\<close> is its SQLSTATE (where it has one) and its text;
  boxed errors of other crates are their texts.
\<close>

datatype retry_class = Transient | Permanent

datatype failure_code =
    Unavailable | Timeout | Throttled | Authentication | Authorization | TlsVerification
  | InvalidDestination | MessageTooLarge | ProtocolRejection | InvalidConfigCode | ShutdownCode
  | Unknown

record pg_error =
  sqlstate :: "string option"
  pg_text :: string

record incompatible_version =
  iv_installed_version :: string
  iv_relay_version :: string
  iv_policy_version :: string
  iv_compatibility_class :: string
  iv_supported_range :: string
  iv_next_action :: string
  iv_reason :: string

datatype relay_error =
    Postgres pg_error
  | ConnectionFailed string pg_error
  | Config string
  | IncompatibleExtensionVersion incompatible_version
  | InvalidConfig string string
  | UnsupportedSurface string string
  | PipelineNotFound string
  | MissingConfigKey string string
  | UnsupportedPayloadVersion int
  | PayloadDecode string int string
  | SinkPublish string string
  | ConnectorFailure string failure_code retry_class string
  | SinkUnhealthy string string
  | SourcePoll string string
  | SourceDecode string string
  | Io string
  | Json string
  | Toml string
  | ChannelClosed
  | SecretNotFound string
  | SecretReadError string string
  | InvalidSecretToken string
  | Other string
  | TlsRequired string
  | InsecureTransport string string
  | TlsSetup string
  | NotImplemented string string

fun show_retry_class :: "retry_class \<Rightarrow> string" where
  "show_retry_class Transient = ''transient''"
| "show_retry_class Permanent = ''permanent''"

fun show_failure_code :: "failure_code \<Rightarrow> string" where
  "show_failure_code Unavailable = ''unavailable''"
| "show_failure_code Timeout = ''timeout''"
| "show_failure_code Throttled = ''throttled''"
| "show_failure_code Authentication = ''authentication''"
| "show_failure_code Authorization = ''authorization''"
| "show_failure_code TlsVerification = ''tls_verification''"
| "show_failure_code InvalidDestination = ''invalid_destination''"
| "show_failure_code MessageTooLarge = ''message_too_large''"
| "show_failure_code ProtocolRejection = ''protocol_rejection''"
| "show_failure_code InvalidConfigCode = ''invalid_config''"
| "show_failure_code ShutdownCode = ''shutdown''"
| "show_failure_code Unknown = ''unknown''"

text \<open>The \<open>Display\<close> of an error.\<close>

definition show_incompatible :: "incompatible_version \<Rightarrow> string" where
  "show_incompatible v =
     ''PGTIDE_EXTENSION_VERSION_INCOMPATIBLE: installed_version='' @ iv_installed_version v
     @ ''; relay_version='' @ iv_relay_version v
     @ ''; policy_version='' @ iv_policy_version v
     @ ''; compatibility_class='' @ iv_compatibility_class v
     @ ''; supported_range='' @ iv_supported_range v
     @ ''; next_action='' @ iv_next_action v @ ''; reason='' @ iv_reason v"

fun show_relay_error :: "relay_error \<Rightarrow> string" where
  "show_relay_error (Postgres e) = ''postgres error: '' @ pg_text e"
| "show_relay_error (ConnectionFailed url e) = ''postgres connection failed: '' @ url @ '': '' @ pg_text e"
| "show_relay_error (Config m) = ''config error: '' @ m"
| "show_relay_error (IncompatibleExtensionVersion v) = show_incompatible v"
| "show_relay_error (InvalidConfig n r) = ''invalid config for pipeline '' @ quoted n @ '': '' @ r"
| "show_relay_error (UnsupportedSurface s a) =
     ''PGTIDE_CONFIG_UNSUPPORTED_SURFACE: '' @ s @ ''; last_version=0.48.0; alternative='' @ a"
| "show_relay_error (PipelineNotFound n) = ''pipeline '' @ quoted n @ '' not found''"
| "show_relay_error (MissingConfigKey p k) =
     ''missing required config key '' @ quoted k @ '' in pipeline '' @ quoted p"
| "show_relay_error (UnsupportedPayloadVersion v) = ''unsupported outbox payload version: '' @ show_int v"
| "show_relay_error (PayloadDecode ob i r) =
     ''payload decode error in outbox '' @ quoted ob @ '' id='' @ show_int i @ '': '' @ r"
| "show_relay_error (SinkPublish s src) = ''sink '' @ quoted s @ '' publish error: '' @ src"
| "show_relay_error (ConnectorFailure c code rc s) =
     ''connector '' @ quoted c @ '' failed ('' @ show_failure_code code @ '', '' @ show_retry_class rc
     @ ''): '' @ s"
| "show_relay_error (SinkUnhealthy s r) = ''sink '' @ quoted s @ '' unhealthy: '' @ r"
| "show_relay_error (SourcePoll s i) = ''source '' @ quoted s @ '' poll error: '' @ i"
| "show_relay_error (SourceDecode s r) = ''source '' @ quoted s @ '' decode error: '' @ r"
| "show_relay_error (Io e) = ''io error: '' @ e"
| "show_relay_error (Json e) = ''json error: '' @ e"
| "show_relay_error (Toml e) = ''toml error: '' @ e"
| "show_relay_error ChannelClosed = ''channel closed''"
| "show_relay_error (SecretNotFound t) = ''secret token not found: '' @ t"
| "show_relay_error (SecretReadError p r) = ''cannot read secret from file '' @ quoted p @ '': '' @ r"
| "show_relay_error (InvalidSecretToken t) = ''invalid secret reference: '' @ t"
| "show_relay_error (Other m) = m"
| "show_relay_error (TlsRequired url) =
     ''TLS required by sslmode=require but TLS backend not compiled in: '' @ url"
| "show_relay_error (InsecureTransport mode url) =
     ''PostgreSQL sslmode='' @ mode @ '' is rejected because it permits plaintext transport: '' @ url"
| "show_relay_error (TlsSetup e) = ''TLS setup failed: '' @ e"
| "show_relay_error (NotImplemented p m) =
     ''provider '' @ quoted p @ '' is not yet implemented: '' @ m"

section \<open>Retry classification\<close>

text \<open>\<open>RelayError::is_transient\<close>; the last equation is the source's catch-all arm.\<close>

fun is_transient :: "relay_error \<Rightarrow> bool" where
  "is_transient (Config _) = False"
| "is_transient (IncompatibleExtensionVersion _) = False"
| "is_transient (InvalidConfig _ _) = False"
| "is_transient (PipelineNotFound _) = False"
| "is_transient (MissingConfigKey _ _) = False"
| "is_transient (UnsupportedPayloadVersion _) = False"
| "is_transient (InvalidSecretToken _) = False"
| "is_transient (SecretNotFound _) = False"
| "is_transient (SecretReadError _ _) = False"
| "is_transient (TlsRequired _) = False"
| "is_transient (TlsSetup _) = False"
| "is_transient (SourceDecode _ _) = False"
| "is_transient (NotImplemented _ _) = False"
| "is_transient (ConnectorFailure _ _ rc _) = (rc = Transient)"
| "is_transient _ = True"

fun retry_class_of :: "relay_error \<Rightarrow> retry_class" where
  "retry_class_of (ConnectorFailure _ _ rc _) = rc"
| "retry_class_of e = (if is_transient e then Transient else Permanent)"

fun connector_code :: "relay_error \<Rightarrow> failure_code option" where
  "connector_code (ConnectorFailure _ c _ _) = Some c"
| "connector_code _ = None"

definition public_code :: "relay_error \<Rightarrow> failure_code" where
  "public_code e = unwrap_or (connector_code e) Unknown"

fun public_summary :: "relay_error \<Rightarrow> string" where
  "public_summary (ConnectorFailure _ _ _ summary) = summary"
| "public_summary _ = ''relay operation failed''"

fun owned_connector_failure :: "relay_error \<Rightarrow> relay_error option" where
  "owned_connector_failure (ConnectorFailure c code rc summary) =
     Some (ConnectorFailure c code rc summary)"
| "owned_connector_failure _ = None"

definition pg_unavailable_states :: "string list" where
  "pg_unavailable_states = [''08001'', ''08003'', ''08006'', ''08007'', ''57P01'']"

definition postgres_connector_failure :: "string \<Rightarrow> pg_error \<Rightarrow> relay_error" where
  "postgres_connector_failure connector err =
     (case sqlstate err of
        Some st \<Rightarrow>
          (if st \<in> set pg_unavailable_states
           then ConnectorFailure connector Unavailable Transient ''database unavailable''
           else if st = ''57014''
           then ConnectorFailure connector Timeout Transient ''database operation timed out''
           else if st = ''28P01''
           then ConnectorFailure connector Authentication Permanent ''database authentication rejected''
           else if st = ''42501''
           then ConnectorFailure connector Authorization Permanent ''database authorization rejected''
           else if st \<in> {''23505'', ''42P01'', ''42703'', ''42883''}
           then ConnectorFailure connector ProtocolRejection Permanent ''database rejected the inbox write''
           else ConnectorFailure connector Unknown Transient ''database operation failed'')
      | None \<Rightarrow> ConnectorFailure connector Unknown Transient ''database operation failed'')"

fun into_connector_failure :: "string \<Rightarrow> relay_error \<Rightarrow> relay_error" where
  "into_connector_failure c (ConnectionFailed _ err) = postgres_connector_failure c err"
| "into_connector_failure c (Postgres err) = postgres_connector_failure c err"
| "into_connector_failure c (TlsRequired _) =
     ConnectorFailure c TlsVerification Permanent ''connector TLS verification failed''"
| "into_connector_failure c (InsecureTransport _ _) =
     ConnectorFailure c TlsVerification Permanent ''connector TLS verification failed''"
| "into_connector_failure c (TlsSetup _) =
     ConnectorFailure c TlsVerification Permanent ''connector TLS verification failed''"
| "into_connector_failure c e = e"

section \<open>Operator codes\<close>

definition postgres_operator_code :: "pg_error \<Rightarrow> string" where
  "postgres_operator_code err =
     (case sqlstate err of
        Some st \<Rightarrow>
          (if st = ''28P01'' then ''PGTIDE_POSTGRES_AUTHENTICATION''
           else if st = ''42501'' then ''PGTIDE_POSTGRES_AUTHORIZATION''
           else if st \<in> {''42P01'', ''42703'', ''42883''} then ''PGTIDE_CATALOG_MISSING''
           else ''PGTIDE_POSTGRES_UNAVAILABLE'')
      | None \<Rightarrow> ''PGTIDE_POSTGRES_UNAVAILABLE'')"

fun code_operator_code :: "failure_code \<Rightarrow> string" where
  "code_operator_code Unavailable = ''PGTIDE_CONNECTOR_UNAVAILABLE''"
| "code_operator_code Timeout = ''PGTIDE_CONNECTOR_TIMEOUT''"
| "code_operator_code Throttled = ''PGTIDE_CONNECTOR_THROTTLED''"
| "code_operator_code Authentication = ''PGTIDE_CONNECTOR_AUTHENTICATION''"
| "code_operator_code Authorization = ''PGTIDE_CONNECTOR_AUTHORIZATION''"
| "code_operator_code TlsVerification = ''PGTIDE_TLS_VERIFICATION_FAILED''"
| "code_operator_code InvalidDestination = ''PGTIDE_CONNECTOR_INVALID_DESTINATION''"
| "code_operator_code MessageTooLarge = ''PGTIDE_CONNECTOR_MESSAGE_TOO_LARGE''"
| "code_operator_code ProtocolRejection = ''PGTIDE_CONNECTOR_PROTOCOL_REJECTION''"
| "code_operator_code InvalidConfigCode = ''PGTIDE_CONNECTOR_INVALID_CONFIG''"
| "code_operator_code ShutdownCode = ''PGTIDE_SHUTDOWN_FAILED''"
| "code_operator_code Unknown = ''PGTIDE_CONNECTOR_UNKNOWN''"

definition connector_operator_code :: "string \<Rightarrow> failure_code \<Rightarrow> string" where
  "connector_operator_code connector code =
     (if connector = ''webhook'' \<and> code = InvalidDestination then ''PGTIDE_WEBHOOK_SSRF_REJECTED''
      else code_operator_code code)"

fun error_operator_code :: "string \<Rightarrow> relay_error \<Rightarrow> string" where
  "error_operator_code cmp (IncompatibleExtensionVersion _) = ''PGTIDE_EXTENSION_VERSION_INCOMPATIBLE''"
| "error_operator_code cmp (ConnectionFailed _ err) = postgres_operator_code err"
| "error_operator_code cmp (Postgres err) = postgres_operator_code err"
| "error_operator_code cmp (Config m) =
     (if str_contains ''ssrf'' (to_ascii_lowercase m) then ''PGTIDE_WEBHOOK_SSRF_REJECTED''
      else ''PGTIDE_PIPELINE_INVALID'')"
| "error_operator_code cmp (InvalidConfig _ _) = ''PGTIDE_PIPELINE_INVALID''"
| "error_operator_code cmp (MissingConfigKey _ _) = ''PGTIDE_PIPELINE_INVALID''"
| "error_operator_code cmp (UnsupportedSurface _ _) = ''PGTIDE_CONFIG_UNSUPPORTED_SURFACE''"
| "error_operator_code cmp (PipelineNotFound _) = ''PGTIDE_PIPELINE_NOT_FOUND''"
| "error_operator_code cmp (SinkPublish _ _) = ''PGTIDE_CONNECTOR_UNAVAILABLE''"
| "error_operator_code cmp (SinkUnhealthy _ _) = ''PGTIDE_CONNECTOR_UNAVAILABLE''"
| "error_operator_code cmp (ConnectorFailure c code _ _) = connector_operator_code c code"
| "error_operator_code cmp (SecretNotFound _) = ''PGTIDE_CONNECTOR_AUTHENTICATION''"
| "error_operator_code cmp (SecretReadError _ _) = ''PGTIDE_CONNECTOR_AUTHENTICATION''"
| "error_operator_code cmp (InvalidSecretToken _) = ''PGTIDE_CONNECTOR_AUTHENTICATION''"
| "error_operator_code cmp (TlsRequired _) = ''PGTIDE_TLS_VERIFICATION_FAILED''"
| "error_operator_code cmp (InsecureTransport _ _) = ''PGTIDE_TLS_VERIFICATION_FAILED''"
| "error_operator_code cmp (TlsSetup _) = ''PGTIDE_TLS_VERIFICATION_FAILED''"
| "error_operator_code cmp ChannelClosed = ''PGTIDE_SHUTDOWN_FAILED''"
| "error_operator_code cmp (Other m) =
     (if str_contains ''replay'' (to_ascii_lowercase m) then ''PGTIDE_REPLAY_INPUT_INVALID''
      else if str_contains ''sweep'' (to_ascii_lowercase m) then ''PGTIDE_MAINTENANCE_SWEEP_FAILED''
      else ''operator.failure'')"
| "error_operator_code cmp (SourcePoll _ _) = ''PGTIDE_CONNECTOR_UNAVAILABLE''"
| "error_operator_code cmp (SourceDecode _ _) = ''PGTIDE_PIPELINE_INVALID''"
| "error_operator_code cmp (UnsupportedPayloadVersion _) = ''PGTIDE_PIPELINE_INVALID''"
| "error_operator_code cmp (PayloadDecode _ _ _) = ''PGTIDE_PIPELINE_INVALID''"
| "error_operator_code cmp (Json _) = ''PGTIDE_PIPELINE_INVALID''"
| "error_operator_code cmp (Toml _) = ''PGTIDE_PIPELINE_INVALID''"
| "error_operator_code cmp (Io _) =
     (if str_contains ''support'' cmp then ''PGTIDE_SUPPORT_BUNDLE_WRITE_FAILED''
      else ''PGTIDE_INTERNAL_FAILURE'')"
| "error_operator_code cmp (NotImplemented _ _) = ''PGTIDE_INTERNAL_FAILURE''"

definition operator_code_for :: "string \<Rightarrow> relay_error \<Rightarrow> string" where
  "operator_code_for cmp e =
     (if str_contains ''support.bundle'' cmp then ''PGTIDE_SUPPORT_BUNDLE_WRITE_FAILED''
      else if str_contains ''maintenance'' cmp then ''PGTIDE_MAINTENANCE_SWEEP_FAILED''
      else if str_contains ''replay'' cmp then ''PGTIDE_REPLAY_INPUT_INVALID''
      else if str_contains ''shutdown'' cmp then ''PGTIDE_SHUTDOWN_FAILED''
      else error_operator_code cmp e)"

definition operator_code :: "relay_error \<Rightarrow> string" where
  "operator_code e = operator_code_for [] e"

section \<open>Lemmas\<close>

lemma retry_class_transient: "retry_class_of e = Transient \<longleftrightarrow> is_transient e"
  by (cases e) auto

lemma retry_class_permanent: "retry_class_of e = Permanent \<longleftrightarrow> \<not> is_transient e"
  by (cases e) (auto, metis retry_class.exhaust)

lemma owned_connector_failure_Some:
  "owned_connector_failure e = Some e' \<Longrightarrow> e' = e \<and> (\<exists>c code rc s. e = ConnectorFailure c code rc s)"
  by (cases e) auto

lemma public_code_owned: "owned_connector_failure e = Some e' \<Longrightarrow> public_code e' = public_code e"
  by (drule owned_connector_failure_Some) simp

lemma show_failure_code_inject: "show_failure_code a = show_failure_code b \<longleftrightarrow> a = b"
  by (cases a; cases b; simp)

lemma postgres_connector_failure_shape:
  "\<exists>code rc s. postgres_connector_failure c err = ConnectorFailure c code rc s"
  by (auto simp: postgres_connector_failure_def split: option.splits)

end
