(* ===== verification/Envelope.thy ===== *)
theory Envelope
  imports Relay_Error
begin

text \<open>
  \<open>pg-tide-relay/src/envelope.rs\<close>: the message record that travels from the outbox poller
  to a sink, its stable deduplication key, the expansion of a polled row into messages and
  the subject template.  The lemmas show that keys identify rows: distinct (table, row id,
  row index) triples never share a key, whatever bytes the table name holds.
\<close>

datatype ack_token = NoAck | OutboxOffset int

record relay_message =
  dedup_key :: string
  subject :: string
  payload :: json
  msg_op :: string
  is_full_refresh :: bool
  outbox_id :: "int option"
  refresh_id :: "string option"
  outbox_name :: "string option"
  headers :: "json option"
  created_at :: "int option"
  ack_token :: ack_token

definition forward_key :: "string \<Rightarrow> int \<Rightarrow> nat \<Rightarrow> string" where
  "forward_key table oid i = table @ '':'' @ show_int oid @ '':'' @ show_nat i"

definition new_forward ::
    "string \<Rightarrow> int \<Rightarrow> nat \<Rightarrow> string \<Rightarrow> json \<Rightarrow> bool \<Rightarrow> string option \<Rightarrow> string \<Rightarrow> relay_message" where
  "new_forward table oid row_index opn pl full rid subj =
     \<lparr> dedup_key = forward_key table oid row_index, subject = subj, payload = pl, msg_op = opn,
       is_full_refresh = full, outbox_id = Some oid, refresh_id = rid, outbox_name = None,
       headers = None, created_at = None, ack_token = NoAck \<rparr>"

definition new_reverse :: "string \<Rightarrow> string \<Rightarrow> json \<Rightarrow> relay_message" where
  "new_reverse key event_type pl =
     \<lparr> dedup_key = key, subject = event_type, payload = pl, msg_op = ''event'',
       is_full_refresh = False, outbox_id = None, refresh_id = None, outbox_name = None,
       headers = None, created_at = None, ack_token = NoAck \<rparr>"

definition render_subject :: "string \<Rightarrow> string \<Rightarrow> string \<Rightarrow> int \<Rightarrow> string option \<Rightarrow> string" where
  "render_subject template stream_table opn oid rid =
     str_replace ''{refresh_id}'' (unwrap_or rid [])
      (str_replace ''{outbox_id}'' (show_int oid)
        (str_replace ''{op}'' opn
          (str_replace ''{stream_table}'' stream_table template)))"

record outbox_batch =
  b_outbox_id :: int
  b_refresh_id :: "string option"
  b_full_refresh :: bool
  b_inserted :: "json list"
  b_deleted :: "json list"

definition into_messages :: "outbox_batch \<Rightarrow> string \<Rightarrow> string \<Rightarrow> relay_message list" where
  "into_messages b table template =
     map (\<lambda>(i, row).
            new_forward table (b_outbox_id b) i ''insert'' row (b_full_refresh b) (b_refresh_id b)
              (render_subject template table ''insert'' (b_outbox_id b) (b_refresh_id b)))
         (enumerate 0 (b_inserted b))
     @ map (\<lambda>(i, row).
            new_forward table (b_outbox_id b) (length (b_inserted b) + i) ''delete'' row False
              (b_refresh_id b)
              (render_subject template table ''delete'' (b_outbox_id b) (b_refresh_id b)))
         (enumerate 0 (b_deleted b))"

section \<open>Keys identify rows\<close>

lemma forward_key_inject [simp, key_inject]:
  "forward_key t i r = forward_key t' i' r' \<longleftrightarrow> t = t' \<and> i = i' \<and> r = r'"
proof -
  have "forward_key t i r = forward_key t' i' r' \<longleftrightarrow>
      (t @ CHR '':'' # show_int i) @ CHR '':'' # show_nat r =
      (t' @ CHR '':'' # show_int i') @ CHR '':'' # show_nat r'"
    by (simp add: forward_key_def)
  also have "\<dots> \<longleftrightarrow> t @ CHR '':'' # show_int i = t' @ CHR '':'' # show_int i' \<and> r = r'"
    by (subst last_sep_inject) simp_all
  also have "\<dots> \<longleftrightarrow> t = t' \<and> i = i' \<and> r = r'"
    by (subst last_sep_inject) auto
  finally show ?thesis .
qed

lemma length_into_messages [simp]:
  "length (into_messages b t s) = length (b_inserted b) + length (b_deleted b)"
  by (simp add: into_messages_def)

lemma dedup_key_new_forward [simp]: "dedup_key (new_forward t i r opn p f u s) = forward_key t i r"
  by (simp add: new_forward_def)

lemma map_fst_enumerate_keys:
  "map dedup_key (map (\<lambda>(i, row). new_forward t oid (k + i) (opn) row f u s) (enumerate n xs))
     = map (forward_key t oid) [k + n..<k + n + length xs]"
  by (induction xs arbitrary: n) (auto simp: upt_rec)

lemma keys_into_messages:
  "map dedup_key (into_messages b t s) =
     map (forward_key t (b_outbox_id b)) [0..<length (b_inserted b) + length (b_deleted b)]"
proof -
  have "map dedup_key (into_messages b t s) =
      map (forward_key t (b_outbox_id b)) [0..<length (b_inserted b)] @
      map (forward_key t (b_outbox_id b))
        [length (b_inserted b)..<length (b_inserted b) + length (b_deleted b)]"
    unfolding into_messages_def map_append
    using map_fst_enumerate_keys [of t "b_outbox_id b" 0 "''insert''" "b_full_refresh b"
        "b_refresh_id b" "render_subject s t ''insert'' (b_outbox_id b) (b_refresh_id b)" 0 "b_inserted b"]
      map_fst_enumerate_keys [of t "b_outbox_id b" "length (b_inserted b)" "''delete''" False
        "b_refresh_id b" "render_subject s t ''delete'' (b_outbox_id b) (b_refresh_id b)" 0 "b_deleted b"]
    by simp
  then show ?thesis by (metis le_add1 map_append upt_add_eq_append zero_le)
qed

lemma distinct_keys_into_messages: "distinct (map dedup_key (into_messages b t s))"
  by (simp add: keys_into_messages distinct_map inj_on_def)

lemma into_messages_outbox_id:
  "m \<in> set (into_messages b t s) \<Longrightarrow> outbox_id m = Some (b_outbox_id b)"
  by (auto simp: into_messages_def new_forward_def)

lemma into_messages_ack_token: "m \<in> set (into_messages b t s) \<Longrightarrow> ack_token m = NoAck"
  by (auto simp: into_messages_def new_forward_def)

section \<open>Properties\<close>

lemma dedup_key_into_messages:
  assumes "m \<in> set (into_messages b t s)"
  obtains i where "dedup_key m = forward_key t (b_outbox_id b) i"
proof -
  have "dedup_key m \<in> set (map dedup_key (into_messages b t s))" using assms by simp
  then show thesis using that by (simp only: keys_into_messages) auto
qed

text \<open>
  The messages made from one polled row have pairwise distinct deduplication keys, and two
  rows whose messages share a key are the same row of the same table, whatever the names are.
\<close>

lemma batch_keys_identify_rows:
  "distinct (map dedup_key (into_messages b t s)) \<and>
   (m \<in> set (into_messages b t s) \<longrightarrow> m' \<in> set (into_messages b' t' s') \<longrightarrow> dedup_key m = dedup_key m' \<longrightarrow>
      t = t' \<and> b_outbox_id b = b_outbox_id b')"
proof (intro conjI impI)
  show "distinct (map dedup_key (into_messages b t s))" by (rule distinct_keys_into_messages)
next
  assume m: "m \<in> set (into_messages b t s)" and m': "m' \<in> set (into_messages b' t' s')"
    and "dedup_key m = dedup_key m'"
  with dedup_key_into_messages [OF m] dedup_key_into_messages [OF m']
  obtain i i' where "forward_key t (b_outbox_id b) i = forward_key t' (b_outbox_id b') i'" by metis
  then show "t = t'" and "b_outbox_id b = b_outbox_id b'" by simp_all
qed

lemma batch_keys_identify_rows_example:
  "\<exists>b t s. distinct (map dedup_key (into_messages b t s)) \<and> into_messages b t s \<noteq> [] \<and>
     (let m = hd (into_messages b t s) in dedup_key m = ''outbox_orders:7:0'' \<and> t = ''outbox_orders'' \<and> b_outbox_id b = 7)"
proof -
  let ?b = "\<lparr> b_outbox_id = 7, b_refresh_id = None, b_full_refresh = False, b_inserted = [JNull], b_deleted = [] \<rparr>"
  let ?ms = "into_messages ?b ''outbox_orders'' ''{op}''"
  have key: "forward_key ''outbox_orders'' 7 0 = ''outbox_orders:7:0''" by code_simp
  have "hd ?ms \<in> set ?ms" "dedup_key (hd ?ms) = ''outbox_orders:7:0''" "?ms \<noteq> []"
    by (simp_all add: into_messages_def new_forward_def key)
  with batch_keys_identify_rows [of ?b "''outbox_orders''" "''{op}''" "hd ?ms" "hd ?ms" ?b "''outbox_orders''" "''{op}''"]
  show ?thesis by (intro exI [of _ ?b] exI [of _ "''outbox_orders''"] exI [of _ "''{op}''"]) simp
qed

end
