(* ===== verification/Ext_Base.thy ===== *)
theory Ext_Base
  imports Envelope
begin

text \<open>
  Foundations of the PostgreSQL extension and of the relay's view of its catalog:
  \<open>pg-tide-ext/src/error.rs\<close> (errors and their stable codes),
  \<open>pg-tide-ext/src/validation.rs\<close> and its twin in \<open>pg-tide-relay/src/config/mod.rs\<close>
  (identifiers that are safe inside double quotes), and the failure of a statement sent
  through SPI.  An extension function that fails raises a PostgreSQL error, which aborts the
  transaction: an error result therefore carries no state.
\<close>

datatype pg_tide_error =
    ExtUnsupportedSurface string string string
  | OutboxAlreadyExists string
  | OutboxNotFound string
  | InboxAlreadyExists string
  | InboxNotFound string
  | RelayNotFound string
  | InvalidArgument string
  | SweepFailed string string
  | PublishDenied string string
  | AuthorizationError string string
  | SpiError string

fun error_code :: "pg_tide_error \<Rightarrow> string" where
  "error_code (ExtUnsupportedSurface _ _ _) = ''PGTIDE_CONFIG_UNSUPPORTED_SURFACE''"
| "error_code (OutboxAlreadyExists _) = ''PGTIDE_OUTBOX_ALREADY_EXISTS''"
| "error_code (OutboxNotFound _) = ''PGTIDE_OUTBOX_NOT_FOUND''"
| "error_code (InboxAlreadyExists _) = ''PGTIDE_INBOX_ALREADY_EXISTS''"
| "error_code (InboxNotFound _) = ''PGTIDE_INBOX_NOT_FOUND''"
| "error_code (RelayNotFound _) = ''PGTIDE_RELAY_NOT_FOUND''"
| "error_code (InvalidArgument _) = ''PGTIDE_INVALID_ARGUMENT''"
| "error_code (SweepFailed _ _) = ''PGTIDE_SWEEP_FAILED''"
| "error_code (PublishDenied _ _) = ''PGTIDE_PUBLISH_DENIED''"
| "error_code (AuthorizationError _ _) = ''PGTIDE_AUTHORIZATION_FAILED''"
| "error_code (SpiError _) = ''PGTIDE_SPI_ERROR''"

text \<open>The \<open>Display\<close> of an error: what \<open>pgrx::error!\<close> raises.\<close>

fun show_pg_tide_error :: "pg_tide_error \<Rightarrow> string" where
  "show_pg_tide_error (ExtUnsupportedSurface surface ctxt alternative) =
     ''PGTIDE_CONFIG_UNSUPPORTED_SURFACE: '' @ surface @ ''; context='' @ ctxt
     @ ''; last_version=0.48.0; alternative='' @ alternative"
| "show_pg_tide_error (OutboxAlreadyExists n) =
     ''PGTIDE_OUTBOX_ALREADY_EXISTS: outbox already exists: '' @ n"
| "show_pg_tide_error (OutboxNotFound n) = ''PGTIDE_OUTBOX_NOT_FOUND: outbox not found: '' @ n"
| "show_pg_tide_error (InboxAlreadyExists n) =
     ''PGTIDE_INBOX_ALREADY_EXISTS: inbox already exists: '' @ n"
| "show_pg_tide_error (InboxNotFound n) = ''PGTIDE_INBOX_NOT_FOUND: inbox not found: '' @ n"
| "show_pg_tide_error (RelayNotFound n) =
     ''PGTIDE_RELAY_NOT_FOUND: relay pipeline not found: '' @ n"
| "show_pg_tide_error (InvalidArgument d) = ''PGTIDE_INVALID_ARGUMENT: invalid argument: '' @ d"
| "show_pg_tide_error (SweepFailed outbox detail) =
     ''PGTIDE_SWEEP_FAILED: outbox sweep failed for '' @ quoted outbox @ '': '' @ detail"
| "show_pg_tide_error (PublishDenied role outbox) =
     ''PGTIDE_PUBLISH_DENIED: role '' @ quoted role @ '' is not authorized to publish to outbox ''
     @ quoted outbox"
| "show_pg_tide_error (AuthorizationError outbox detail) =
     ''PGTIDE_AUTHORIZATION_FAILED: authorization check failed for outbox '' @ quoted outbox
     @ '': '' @ detail"
| "show_pg_tide_error (SpiError d) = ''PGTIDE_SPI_ERROR: SPI error: '' @ d"

text \<open>How a raised extension error reaches the relay: \<open>ERRCODE_INTERNAL_ERROR\<close> and the text.\<close>

definition raised :: "pg_tide_error \<Rightarrow> pg_error" where
  "raised e = \<lparr> sqlstate = Some ''XX000'', pg_text = show_pg_tide_error e \<rparr>"

lemma show_error_prefix: "starts_with (error_code e @ '': '') (show_pg_tide_error e)"
  by (cases e) (simp_all add: starts_with_def)

text \<open>
  The fate of the statements one call sends through SPI: the text of the error of the k-th
  statement, or \<open>None\<close> where it succeeds.
\<close>

type_synonym spi_fate = "nat \<Rightarrow> string option"

definition spi :: "spi_fate \<Rightarrow> nat \<Rightarrow> string \<Rightarrow> pg_tide_error + unit" where
  "spi f k context = (case f k of None \<Rightarrow> Inr () | Some e \<Rightarrow> Inl (SpiError (context @ e)))"

lemma spi_ok [simp]: "f k = None \<Longrightarrow> spi f k c = Inr ()"
  by (simp add: spi_def)

lemma spi_Inr_iff [result_simps]: "spi f k c = Inr u \<longleftrightarrow> f k = None"
  by (simp add: spi_def split: option.splits)

section \<open>Identifiers\<close>

definition bad_ident_char :: "char \<Rightarrow> bool" where
  "bad_ident_char c \<longleftrightarrow> c = CHR 0x22 \<or> c = CHR 0x00"

definition validate_identifier :: "string \<Rightarrow> pg_tide_error + unit" where
  "validate_identifier name =
     (if name = [] then Inl (InvalidArgument ''identifier must not be empty'')
      else if 63 < length name
      then Inl (InvalidArgument (''identifier '' @ quoted name @ '' exceeds 63 bytes''))
      else case List.find bad_ident_char name of
        Some c \<Rightarrow> Inl (InvalidArgument (''identifier '' @ quoted name @
                   '' contains invalid character '' @ quoted [c]))
      | None \<Rightarrow> Inr ())"

definition validate_relay_identifier :: "string \<Rightarrow> relay_error + unit" where
  "validate_relay_identifier name =
     (if name = [] then Inl (Config ''identifier must not be empty'')
      else if 63 < length name
      then Inl (Config (''identifier '' @ quoted name @
             '' exceeds 63 bytes (PostgreSQL NAMEDATALEN limit)''))
      else case List.find bad_ident_char name of
        Some c \<Rightarrow> Inl (Config (''identifier '' @ quoted name @
                   '' contains invalid character '' @ quoted [c]))
      | None \<Rightarrow> Inr ())"

definition ident_ok :: "string \<Rightarrow> bool" where
  "ident_ok name \<longleftrightarrow> name \<noteq> [] \<and> length name \<le> 63 \<and> (\<forall>c \<in> set name. \<not> bad_ident_char c)"

lemma validate_identifier_iff [result_simps]: "validate_identifier name = Inr u \<longleftrightarrow> ident_ok name"
  by (auto simp: validate_identifier_def ident_ok_def find_None_iff
      split: option.splits dest: find_Some_D)

lemma validate_relay_identifier_iff [result_simps]:
  "validate_relay_identifier name = Inr u \<longleftrightarrow> ident_ok name"
  by (auto simp: validate_relay_identifier_def ident_ok_def find_None_iff
      split: option.splits dest: find_Some_D)

lemma ident_ok_no_quote: "ident_ok name \<Longrightarrow> CHR 0x22 \<notin> set name"
  by (auto simp: ident_ok_def bad_ident_char_def)

section \<open>Properties\<close>

text \<open>
  The extension and the relay accept the same identifiers, and an accepted one cannot end the
  double quotes it is put into.
\<close>

lemma identifier_checks_agree:
  "(validate_identifier name = Inr ()) = (validate_relay_identifier name = Inr ()) \<and>
   (validate_identifier name = Inr () \<longrightarrow> CHR 0x22 \<notin> set name \<and> length name \<le> 63)"
  using ident_ok_no_quote [of name]
  by (auto simp: validate_identifier_iff validate_relay_identifier_iff ident_ok_def)

lemma identifier_checks_agree_example:
  "validate_relay_identifier ''orders'' = Inr () \<and> CHR 0x22 \<notin> set ''orders'' \<and>
   validate_relay_identifier [CHR 0x22] \<noteq> Inr ()"
  using identifier_checks_agree [of "''orders''"] identifier_checks_agree [of "[CHR 0x22]"]
  by (simp add: validate_identifier_iff validate_relay_identifier_iff ident_ok_def bad_ident_char_def)

text \<open>The text of every error the extension raises begins with its stable code and a colon.\<close>

lemma error_text_begins_with_code: "starts_with (error_code e @ '': '') (pg_text (raised e))"
  by (simp add: raised_def show_error_prefix)

end
