(* ===== verification/Dlq.thy ===== *)
theory Dlq
  imports Envelope
begin

text \<open>
  \<open>pg-tide-relay/src/dlq.rs\<close>: the dead-letter queue.  The table \<open>tide.relay_dlq\<close> is the list
  of its rows; its partial unique index on (pipeline, dedup key) over unresolved rows gives
  \<open>ON CONFLICT DO NOTHING\<close> its meaning.  A batch insert is one transaction: the model takes
  the faults of the individual statements as arguments and returns the table that is
  committed.
\<close>

datatype error_kind = Decode | SinkPermanent | InboxPermanent | MaxRetriesExceeded

fun show_error_kind :: "error_kind \<Rightarrow> string" where
  "show_error_kind Decode = ''decode''"
| "show_error_kind SinkPermanent = ''sink_permanent''"
| "show_error_kind InboxPermanent = ''inbox_permanent''"
| "show_error_kind MaxRetriesExceeded = ''max_retries_exceeded''"

record dlq_entry =
  relay_mode :: string
  d_pipeline :: string
  d_source :: string
  d_sink :: string
  d_dedup_key :: string
  d_subject :: "string option"
  d_payload :: json
  d_error_message :: string
  d_error_kind :: error_kind

definition from_message ::
    "string \<Rightarrow> string \<Rightarrow> string \<Rightarrow> string \<Rightarrow> relay_message \<Rightarrow> string \<Rightarrow> error_kind \<Rightarrow> dlq_entry" where
  "from_message mode pipeline src snk msg err kind =
     \<lparr> relay_mode = mode, d_pipeline = pipeline, d_source = src, d_sink = snk,
       d_dedup_key = dedup_key msg, d_subject = Some (subject msg), d_payload = payload msg,
       d_error_message = err, d_error_kind = kind \<rparr>"

record dlq_row =
  entry :: dlq_entry
  resolved :: bool

definition active_key :: "dlq_row list \<Rightarrow> string \<Rightarrow> string \<Rightarrow> bool" where
  "active_key t p k \<longleftrightarrow> list_ex (\<lambda>r. \<not> resolved r \<and> d_pipeline (entry r) = p \<and> d_dedup_key (entry r) = k) t"

definition insert_one :: "relay_error option \<Rightarrow> dlq_entry \<Rightarrow> dlq_row list \<Rightarrow> relay_error + dlq_row list" where
  "insert_one fault e t =
     (case fault of
        Some err \<Rightarrow> Inl err
      | None \<Rightarrow> Inr (if active_key t (d_pipeline e) (d_dedup_key e) then t
                    else t @ [\<lparr> entry = e, resolved = False \<rparr>]))"

record dlq_faults =
  f_begin :: "relay_error option"
  f_insert :: "nat \<Rightarrow> relay_error option"
  f_rollback :: "relay_error option"
  f_commit :: "relay_error option"

fun insert_rows ::
    "(nat \<Rightarrow> relay_error option) \<Rightarrow> nat \<Rightarrow> dlq_entry list \<Rightarrow> dlq_row list \<Rightarrow> relay_error + dlq_row list" where
  "insert_rows f i [] t = Inr t"
| "insert_rows f i (e # es) t =
     (case insert_one (f i) e t of Inl err \<Rightarrow> Inl err | Inr t' \<Rightarrow> insert_rows f (Suc i) es t')"

text \<open>
  The result and the committed table.  The text of the error that reports a failed rollback
  is built from the two error texts by the printing function \<open>show_err\<close>.
\<close>

definition insert_batch ::
    "(relay_error \<Rightarrow> string) \<Rightarrow> dlq_faults \<Rightarrow> dlq_entry list \<Rightarrow> dlq_row list
       \<Rightarrow> (relay_error + unit) \<times> dlq_row list" where
  "insert_batch show_err f es t =
     (if es = [] then (Inr (), t)
      else case f_begin f of
        Some err \<Rightarrow> (Inl err, t)
      | None \<Rightarrow>
          (case insert_rows (f_insert f) 0 es t of
             Inl err \<Rightarrow>
               (case f_rollback f of
                  Some rb \<Rightarrow> (Inl (Other (''DLQ insert failed: '' @ show_err err @
                                ''; rollback failed: '' @ show_err rb)), t)
                | None \<Rightarrow> (Inl err, t))
           | Inr t' \<Rightarrow>
               (case f_commit f of Some err \<Rightarrow> (Inl err, t) | None \<Rightarrow> (Inr (), t'))))"

record dlq_config =
  dlq_enabled :: bool
  max_retries :: u32
  retry_delay_seconds :: int
  retention_days :: int

definition dlq_config_default :: dlq_config where
  "dlq_config_default =
     \<lparr> dlq_enabled = False, max_retries = 5, retry_delay_seconds = 60, retention_days = 30 \<rparr>"

text \<open>\<open>as i32\<close> of an \<open>i64\<close> keeps the low 32 bits, read as two's complement.\<close>

definition dlq_config_parse :: "json \<Rightarrow> dlq_config" where
  "dlq_config_parse config =
     (case json_get config ''dlq'' of
        None \<Rightarrow> dlq_config_default
      | Some d \<Rightarrow>
          \<lparr> dlq_enabled = get_bool_or d ''enabled'' False,
            max_retries = word_of_int (get_u64_or d ''max_retries'' 5),
            retry_delay_seconds = get_u64_or d ''retry_delay_seconds'' 60,
            retention_days = sint (word_of_int (get_i64_or d ''retention_days'' 30) :: u32) \<rparr>)"

section \<open>A batch is one durable disposition\<close>

lemma active_key_snoc:
  "active_key (t @ [r]) p k \<longleftrightarrow>
     active_key t p k \<or> (\<not> resolved r \<and> d_pipeline (entry r) = p \<and> d_dedup_key (entry r) = k)"
  by (auto simp: active_key_def)

lemma insert_one_active:
  "insert_one f e t = Inr t' \<Longrightarrow> active_key t' (d_pipeline e) (d_dedup_key e)"
  by (auto simp: insert_one_def active_key_snoc split: option.splits if_splits)

lemma insert_one_mono: "insert_one f e t = Inr t' \<Longrightarrow> active_key t p k \<Longrightarrow> active_key t' p k"
  by (auto simp: insert_one_def active_key_snoc split: option.splits if_splits)

lemma insert_rows_mono:
  "insert_rows f i es t = Inr t' \<Longrightarrow> active_key t p k \<Longrightarrow> active_key t' p k"
  by (induction es arbitrary: i t) (auto split: sum.splits dest: insert_one_mono)

lemma insert_rows_active:
  "insert_rows f i es t = Inr t' \<Longrightarrow> e \<in> set es \<Longrightarrow> active_key t' (d_pipeline e) (d_dedup_key e)"
  by (induction es arbitrary: i t)
    (auto split: sum.splits dest: insert_one_active insert_rows_mono)

text \<open>The rows of the unresolved index stay distinct.\<close>

definition dlq_unique :: "dlq_row list \<Rightarrow> bool" where
  "dlq_unique t \<longleftrightarrow>
     distinct (map (\<lambda>r. (d_pipeline (entry r), d_dedup_key (entry r))) (filter (\<lambda>r. \<not> resolved r) t))"

lemma dlq_unique_insert_one: "insert_one f e t = Inr t' \<Longrightarrow> dlq_unique t \<Longrightarrow> dlq_unique t'"
  by (fastforce simp: insert_one_def dlq_unique_def active_key_def list_ex_iff
      split: option.splits if_splits)

lemma dlq_unique_insert_rows:
  "insert_rows f i es t = Inr t' \<Longrightarrow> dlq_unique t \<Longrightarrow> dlq_unique t'"
  by (induction es arbitrary: i t) (auto split: sum.splits dest: dlq_unique_insert_one)

lemma dlq_unique_insert_batch: "dlq_unique t \<Longrightarrow> dlq_unique (snd (insert_batch se f es t))"
  by (auto simp: insert_batch_def split: option.splits sum.splits dest: dlq_unique_insert_rows)

lemma insert_batch_ok:
  "insert_batch se f es t = (Inr (), t') \<Longrightarrow> e \<in> set es \<Longrightarrow> active_key t' (d_pipeline e) (d_dedup_key e)"
  by (auto simp: insert_batch_def split: if_splits option.splits sum.splits dest: insert_rows_active)

lemma insert_batch_err: "insert_batch se f es t = (Inl err, t') \<Longrightarrow> t' = t"
  by (auto simp: insert_batch_def split: if_splits option.splits sum.splits)

lemma insert_batch_mono: "active_key t p k \<Longrightarrow> active_key (snd (insert_batch se f es t)) p k"
  by (auto simp: insert_batch_def split: option.splits sum.splits dest: insert_rows_mono)

lemma insert_rows_keeps: "insert_rows f i es t = Inr t' \<Longrightarrow> set t \<subseteq> set t'"
proof (induction es arbitrary: i t)
  case (Cons e es)
  then obtain t1 where t1: "insert_one (f i) e t = Inr t1" "insert_rows f (Suc i) es t1 = Inr t'"
    by (auto split: sum.splits)
  then have "set t \<subseteq> set t1" by (auto simp: insert_one_def split: option.splits if_splits)
  with Cons.IH [OF t1(2)] show ?case by blast
qed simp

lemma insert_batch_keeps: "set t \<subseteq> set (snd (insert_batch se f es t))"
  using insert_rows_keeps [of "f_insert f" 0 es t]
  by (auto simp: insert_batch_def split: option.splits sum.splits)

text \<open>Writing the same batch again changes nothing.\<close>

lemma insert_rows_idem:
  "\<forall>e \<in> set es. active_key t (d_pipeline e) (d_dedup_key e) \<Longrightarrow> insert_rows (\<lambda>_. None) i es t = Inr t"
  by (induction es arbitrary: i) (auto simp: insert_one_def)

section \<open>Properties\<close>



text \<open>No pipeline ever has two unresolved dead letters with one deduplication key.\<close>

lemma dlq_rows_unique:
  assumes "dlq_unique t"
  shows "dlq_unique (snd (insert_batch show_err f es t))"
  using assms by (rule dlq_unique_insert_batch)

lemma dlq_rows_unique_example:
  "\<exists>t. insert_batch show_relay_error \<lparr> f_begin = None, f_insert = \<lambda>_. None, f_rollback = None, f_commit = None \<rparr>
      (replicate 2 (from_message ''forward'' ''p'' ''outbox'' ''nats'' (new_reverse ''k'' ''s'' JNull) ''boom'' SinkPermanent)) [] =
      (Inr (), t) \<and> dlq_unique t \<and> length t = 1"
proof -
  let ?e = "from_message ''forward'' ''p'' ''outbox'' ''nats'' (new_reverse ''k'' ''s'' JNull) ''boom'' SinkPermanent"
  let ?f = "\<lparr> f_begin = None, f_insert = \<lambda>_. None, f_rollback = None, f_commit = None \<rparr>"
  have "dlq_unique (snd (insert_batch show_relay_error ?f (replicate 2 ?e) []))"
    by (rule dlq_rows_unique) (simp add: dlq_unique_def)
  moreover have "fst (insert_batch show_relay_error ?f (replicate 2 ?e) []) = Inr ()"
    "length (snd (insert_batch show_relay_error ?f (replicate 2 ?e) [])) = 1"
    by (simp_all add: numeral_2_eq_2 insert_batch_def insert_one_def active_key_def)
  ultimately show ?thesis by (intro exI [of _ "snd (insert_batch show_relay_error ?f (replicate 2 ?e) [])"]) (simp add: prod_eq_iff)
qed

end
