(* ===== verification/Tide_Db.thy ===== *)
theory Tide_Db
  imports Ext_Base Dlq
begin

text \<open>
  The catalog and message tables both programs work on, as the statements in the sources
  read and write them.  Tables keyed by one name are association lists in name order (the
  sources list them with \<open>ORDER BY name\<close>); tables with compound keys are lists of rows with
  an upsert.  Times are microseconds.  The row of \<open>tide_outbox_messages\<close> keeps the columns
  the programs read.
\<close>

record outbox_config_row =
  oc_enabled :: bool
  oc_retention_hours :: int
  oc_inline_threshold :: int
  oc_partition_strategy :: string

record outbox_row =
  row_id :: int
  row_outbox :: string
  row_payload :: json
  row_headers :: json
  row_created_at :: int

record consumer_offset_row =
  co_group :: string
  co_consumer :: string
  committed_offset :: int
  last_heartbeat :: int

record lease_row =
  l_group :: string
  l_consumer :: string
  l_expires_at :: int

record group_row =
  g_outbox :: string
  g_auto_offset_reset :: string

record cleanup_row =
  cl_last_success_at :: "int option"
  cl_last_safe_offset :: "int option"
  cl_highest_deleted_id :: int
  cl_last_batch_rows :: int
  cl_total_rows_deleted :: int

record relay_config_row =
  rc_enabled :: bool
  rc_config :: json
  rc_tenant :: string

record relay_offset_row =
  ro_group :: string
  ro_pipeline :: string
  ro_outbox :: string
  last_change_id :: int
  ro_worker :: string
  ro_tenant :: string

record tide_db =
  outbox_configs :: "(string \<times> outbox_config_row) list"
  outbox_messages :: "outbox_row list"
  next_id :: int
  consumer_groups :: "(string \<times> group_row) list"
  consumer_offsets :: "consumer_offset_row list"
  consumer_leases :: "lease_row list"
  publishers :: "(string \<times> string) list"
  cleanup_state :: "(string \<times> cleanup_row) list"
  relay_configs :: "(string \<times> relay_config_row) list"
  relay_inbox_configs :: "(string \<times> relay_config_row) list"
  relay_offsets :: "relay_offset_row list"
  dlq_table :: "dlq_row list"
  notifications :: "(string \<times> string) list"

definition empty_db :: tide_db where
  "empty_db = \<lparr> outbox_configs = [], outbox_messages = [], next_id = 1, consumer_groups = [],
     consumer_offsets = [], consumer_leases = [], publishers = [], cleanup_state = [],
     relay_configs = [], relay_inbox_configs = [], relay_offsets = [], dlq_table = [],
     notifications = [] \<rparr>"

section \<open>The relay offset table\<close>

definition offset_key :: "relay_offset_row \<Rightarrow> string \<times> string \<times> string" where
  "offset_key r = (ro_group r, ro_pipeline r, ro_outbox r)"

fun find_offset :: "string \<times> string \<times> string \<Rightarrow> relay_offset_row list \<Rightarrow> int option" where
  "find_offset k [] = None"
| "find_offset k (r # rs) = (if offset_key r = k then Some (last_change_id r) else find_offset k rs)"

text \<open>\<open>INSERT .. ON CONFLICT DO UPDATE SET last_change_id = GREATEST(..)\<close>.\<close>

fun upsert_offset :: "relay_offset_row \<Rightarrow> relay_offset_row list \<Rightarrow> relay_offset_row list" where
  "upsert_offset n [] = [n]"
| "upsert_offset n (r # rs) =
     (if offset_key r = offset_key n
      then r\<lparr>last_change_id := max (last_change_id r) (last_change_id n), ro_worker := ro_worker n\<rparr> # rs
      else r # upsert_offset n rs)"

lemma find_offset_upsert_same:
  "find_offset (offset_key n) (upsert_offset n rs) =
     Some (case find_offset (offset_key n) rs of None \<Rightarrow> last_change_id n | Some v \<Rightarrow> max v (last_change_id n))"
  by (induction rs) (auto simp: offset_key_def)

lemma find_offset_upsert_other:
  "k \<noteq> offset_key n \<Longrightarrow> find_offset k (upsert_offset n rs) = find_offset k rs"
  by (induction rs) (auto simp: offset_key_def)

lemma upsert_offset_row:
  "r \<in> set (upsert_offset n rs) \<Longrightarrow>
     r \<in> set rs \<or> (offset_key r = offset_key n \<and>
       (last_change_id r = last_change_id n
        \<or> (\<exists>r' \<in> set rs. offset_key r' = offset_key n \<and> last_change_id r = max (last_change_id r') (last_change_id n))))"
  by (induction rs) (auto simp: offset_key_def split: if_splits)

lemma find_offset_in: "find_offset k rs = Some v \<Longrightarrow> \<exists>r \<in> set rs. offset_key r = k \<and> last_change_id r = v"
  by (induction rs) (auto split: if_splits)

lemma find_offset_None_iff: "find_offset k rs = None \<longleftrightarrow> k \<notin> offset_key ` set rs"
  by (induction rs) auto

lemma offset_keys_upsert:
  "offset_key ` set (upsert_offset n rs) = insert (offset_key n) (offset_key ` set rs)"
  by (induction rs) (auto simp: offset_key_def)

lemma upsert_distinct:
  "distinct (map offset_key rs) \<Longrightarrow> distinct (map offset_key (upsert_offset n rs))"
proof (induction rs)
  case (Cons r rs)
  then show ?case
    using offset_keys_upsert [of n rs] by (auto simp: offset_key_def)
qed simp

lemma find_offset_distinct:
  "distinct (map offset_key rs) \<Longrightarrow> r \<in> set rs \<Longrightarrow> find_offset (offset_key r) rs = Some (last_change_id r)"
  by (induction rs) (auto simp: image_iff)

section \<open>Names and minima\<close>

definition outbox_names :: "tide_db \<Rightarrow> string list" where
  "outbox_names db = map fst (outbox_configs db)"

text \<open>SQL \<open>MIN\<close>: \<open>NULL\<close> on no rows.\<close>

fun min_opt :: "int list \<Rightarrow> int option" where
  "min_opt [] = None"
| "min_opt (x # xs) = (case min_opt xs of None \<Rightarrow> Some x | Some m \<Rightarrow> Some (min x m))"

fun max_opt :: "int list \<Rightarrow> int option" where
  "max_opt [] = None"
| "max_opt (x # xs) = (case max_opt xs of None \<Rightarrow> Some x | Some m \<Rightarrow> Some (max x m))"

lemma min_opt_None [simp]: "min_opt xs = None \<longleftrightarrow> xs = []"
  by (cases xs) (auto split: option.splits)

lemma max_opt_None [simp]: "max_opt xs = None \<longleftrightarrow> xs = []"
  by (cases xs) (auto split: option.splits)

lemma min_opt_le: "min_opt xs = Some m \<Longrightarrow> x \<in> set xs \<Longrightarrow> m \<le> x"
  by (induction xs arbitrary: m) (force split: option.splits)+

lemma min_opt_in: "min_opt xs = Some m \<Longrightarrow> m \<in> set xs"
  by (induction xs arbitrary: m) (auto split: option.splits if_splits simp: min_def)

lemma max_opt_ge: "max_opt xs = Some m \<Longrightarrow> x \<in> set xs \<Longrightarrow> x \<le> m"
  by (induction xs arbitrary: m) (force split: option.splits)+

lemma max_opt_in: "max_opt xs = Some m \<Longrightarrow> m \<in> set xs"
  by (induction xs arbitrary: m) (auto split: option.splits if_splits simp: max_def)

end
