(* ===== verification/Outbox.thy ===== *)
theory Outbox
  imports Tide_Db
begin

text \<open>
  \<open>pg-tide-ext/src/outbox.rs\<close>: the transactional outbox and its consumer groups.  Every SQL
  function is one definition over \<open>tide_db\<close>: its checks in the order of the code, the failure
  of each statement (\<open>spi_fate\<close>), and the rows it writes.  Foreign keys cascade as the schema
  under \<open>src/sql\<close> declares.  The lemmas give the retention guarantee of the sweep, the
  monotonicity of consumer offsets and the authorization rule of publishing.
\<close>

definition max_sweep_batch :: int where "max_sweep_batch = 10000"

definition outbox_exists :: "spi_fate \<Rightarrow> nat \<Rightarrow> string \<Rightarrow> tide_db \<Rightarrow> pg_tide_error + bool" where
  "outbox_exists f k name db =
     and_then (spi f k ''outbox_exists SPI error: '')
       (\<lambda>_. Inr (map_of (outbox_configs db) name \<noteq> None))"

section \<open>Creation\<close>

definition trim_quotes :: "string \<Rightarrow> string" where
  "trim_quotes s =
     rev (dropWhile (\<lambda>c. c = CHR 0x27) (rev (dropWhile (\<lambda>c. c = CHR 0x27) s)))"

definition backup_prefix :: string where
  "backup_prefix = ''tide_outbox_messages_backup_''"

definition create_guard :: "string \<Rightarrow> string \<Rightarrow> pg_tide_error + string" where
  "create_guard name partition_strategy =
     and_then (validate_identifier name) (\<lambda>_.
       let strategy = trim_quotes partition_strategy in
       if strategy \<notin> {''none'', ''daily'', ''weekly'', ''monthly''}
       then Inl (InvalidArgument (''partition_strategy must be '' @ quoted ''none'' @ '', '' @ quoted ''daily'' @ '', '' @
              quoted ''weekly'' @ '', or '' @ quoted ''monthly'' @ ''; got '' @ quoted strategy))
       else if strategy \<noteq> ''none'' \<and> 63 < length backup_prefix + length (str_replace ''-'' ''_'' name)
       then Inl (InvalidArgument (''outbox name '' @ quoted name @
              '' is too long for partitioned outbox table naming (backup prefix is 29 bytes, '' @
              ''max name fragment is 34 bytes, got '' @ show_nat (length (str_replace ''-'' ''_'' name)) @
              '' bytes). Shorten the outbox name to at most 34 characters.''))
       else Inr strategy)"

definition insert_outbox :: "string \<Rightarrow> int \<Rightarrow> int \<Rightarrow> string \<Rightarrow> tide_db \<Rightarrow> tide_db" where
  "insert_outbox name retention threshold strategy db =
     db\<lparr>outbox_configs := map_insert name
           \<lparr> oc_enabled = True, oc_retention_hours = retention, oc_inline_threshold = threshold,
             oc_partition_strategy = strategy \<rparr> (outbox_configs db),
        cleanup_state :=
          (if map_of (cleanup_state db) name \<noteq> None then cleanup_state db
           else map_insert name
                  \<lparr> cl_last_success_at = None, cl_last_safe_offset = None, cl_highest_deleted_id = 0,
                    cl_last_batch_rows = 0, cl_total_rows_deleted = 0 \<rparr> (cleanup_state db))\<rparr>"

definition outbox_create :: "spi_fate \<Rightarrow> string \<Rightarrow> int \<Rightarrow> int \<Rightarrow> string \<Rightarrow> tide_db \<Rightarrow> pg_tide_error + tide_db" where
  "outbox_create f name retention threshold partition_strategy db =
     and_then (create_guard name partition_strategy) (\<lambda>strategy.
     and_then (outbox_exists f 0 name db) (\<lambda>ex.
       if ex then Inl (OutboxAlreadyExists name)
       else and_then (spi f 1 ''INSERT tide_outbox_config: '') (\<lambda>_.
            and_then (spi f 2 ''INSERT outbox_cleanup_state: '') (\<lambda>_.
              Inr (insert_outbox name retention threshold strategy db)))))"

definition outbox_create_if_not_exists ::
    "spi_fate \<Rightarrow> string \<Rightarrow> int \<Rightarrow> int \<Rightarrow> string \<Rightarrow> tide_db \<Rightarrow> pg_tide_error + (bool \<times> tide_db)" where
  "outbox_create_if_not_exists f name retention threshold partition_strategy db =
     and_then (create_guard name partition_strategy) (\<lambda>strategy.
     and_then (outbox_exists f 0 name db) (\<lambda>ex.
       if ex then Inr (False, db)
       else and_then (spi f 1 ''INSERT tide_outbox_config: '') (\<lambda>_.
            and_then (spi f 2 ''INSERT outbox_cleanup_state: '') (\<lambda>_.
              Inr (True, insert_outbox name retention threshold strategy db)))))"

section \<open>Publishing\<close>

text \<open>
  What PostgreSQL answers about roles: the session user, \<open>pg_roles.rolsuper\<close>, the owner of the
  extension, the existence of a role, and \<open>pg_has_role(user, role, 'member')\<close>, which fails for
  a role that does not exist.
\<close>

record auth_env =
  session_user :: "string option"
  rolsuper :: "string \<Rightarrow> bool option"
  extension_owner :: "string \<Rightarrow> bool"
  role_exists :: "string \<Rightarrow> bool"
  has_role :: "string \<Rightarrow> string \<Rightarrow> bool option"

fun any_member :: "(string \<Rightarrow> bool option) \<Rightarrow> string list \<Rightarrow> bool option" where
  "any_member m [] = Some False"
| "any_member m (r # rs) =
     (case m r of None \<Rightarrow> None | Some True \<Rightarrow> Some True | Some False \<Rightarrow> any_member m rs)"

definition acl_roles :: "string \<Rightarrow> tide_db \<Rightarrow> string list" where
  "acl_roles name db = map snd (filter (\<lambda>(o_name, _). o_name = name) (publishers db))"

definition acl_verdict :: "auth_env \<Rightarrow> string \<Rightarrow> string \<Rightarrow> bool \<Rightarrow> bool \<Rightarrow> tide_db \<Rightarrow> pg_tide_error + string" where
  "acl_verdict env name user is_super is_owner db =
     (if is_super then Inr ''superuser''
      else if is_owner then Inr ''extension_owner''
      else if \<not> (role_exists env ''tide_publisher'' \<and> has_role env user ''tide_publisher'' = Some True)
      then Inr ''denied''
      else if acl_roles name db = [] then Inr ''denied''
      else case any_member (has_role env user) (acl_roles name db) of
        None \<Rightarrow> Inl (AuthorizationError name ''ACL verdict query failed: role does not exist'')
      | Some True \<Rightarrow> Inr ''allowed''
      | Some False \<Rightarrow> Inr ''denied'')"

definition auth_spi :: "spi_fate \<Rightarrow> nat \<Rightarrow> string \<Rightarrow> string \<Rightarrow> pg_tide_error + unit" where
  "auth_spi f k name context =
     (case f k of None \<Rightarrow> Inr () | Some e \<Rightarrow> Inl (AuthorizationError name (context @ e)))"

definition authorize :: "spi_fate \<Rightarrow> auth_env \<Rightarrow> string \<Rightarrow> tide_db \<Rightarrow> pg_tide_error + unit" where
  "authorize f env name db =
     and_then (auth_spi f 1 name ''session_user lookup failed: '') (\<lambda>_.
     and_then (ok_or (session_user env) (AuthorizationError name ''session_user lookup returned no row'')) (\<lambda>user.
     and_then (auth_spi f 2 name ''superuser lookup failed: '') (\<lambda>_.
     and_then (ok_or (rolsuper env user) (AuthorizationError name (''role '' @ quoted user @ '' was not found''))) (\<lambda>is_super.
     and_then (auth_spi f 3 name ''extension-owner lookup failed: '') (\<lambda>_.
     and_then (auth_spi f 4 name ''ACL verdict query failed: '') (\<lambda>_.
     and_then (acl_verdict env name user is_super (extension_owner env user) db) (\<lambda>verdict.
       if verdict \<in> {''superuser'', ''extension_owner'', ''allowed''} then Inr ()
       else if verdict = ''denied'' then Inl (PublishDenied user name)
       else Inl (AuthorizationError name (''unexpected ACL verdict: '' @ verdict)))))))))"

definition outbox_publish ::
    "spi_fate \<Rightarrow> auth_env \<Rightarrow> int \<Rightarrow> string \<Rightarrow> json \<Rightarrow> json \<Rightarrow> tide_db \<Rightarrow> pg_tide_error + tide_db" where
  "outbox_publish f env now name pl hs db =
     and_then (spi f 0 (''outbox_publish existence check for '' @ quoted name @ '': '')) (\<lambda>_.
       case map_of (outbox_configs db) name of
         None \<Rightarrow> Inl (OutboxNotFound name)
       | Some cfg \<Rightarrow>
           if \<not> oc_enabled cfg then Inl (InvalidArgument (''outbox '' @ quoted name @ '' is disabled''))
           else
             and_then (authorize f env name db) (\<lambda>_.
             and_then (spi f 5 (''outbox fence for '' @ quoted name @ '': '')) (\<lambda>_.
             and_then (spi f 6 ''INSERT outbox_messages: '') (\<lambda>_.
             and_then (spi f 7 (''notify outbox '' @ quoted name @ '': '')) (\<lambda>_.
               Inr (db\<lparr>outbox_messages := outbox_messages db @
                        [\<lparr> row_id = next_id db, row_outbox = name, row_payload = pl,
                           row_headers = hs, row_created_at = now \<rparr>],
                      next_id := next_id db + 1,
                      notifications := notifications db @ [(''tide_outbox_new'', name)]\<rparr>))))))"

section \<open>Drop, enable, disable\<close>

definition cascade_groups :: "(string \<Rightarrow> bool) \<Rightarrow> tide_db \<Rightarrow> tide_db" where
  "cascade_groups gone db =
     db\<lparr>consumer_groups := filter (\<lambda>(g, _). \<not> gone g) (consumer_groups db),
        consumer_offsets := filter (\<lambda>r. \<not> gone (co_group r)) (consumer_offsets db),
        consumer_leases := filter (\<lambda>l. \<not> gone (l_group l)) (consumer_leases db)\<rparr>"

definition group_of_outbox :: "string \<Rightarrow> tide_db \<Rightarrow> string \<Rightarrow> bool" where
  "group_of_outbox name db g \<longleftrightarrow> map_option g_outbox (map_of (consumer_groups db) g) = Some name"

definition outbox_drop :: "spi_fate \<Rightarrow> string \<Rightarrow> bool \<Rightarrow> tide_db \<Rightarrow> pg_tide_error + tide_db" where
  "outbox_drop f name if_exists db =
     and_then (outbox_exists f 0 name db) (\<lambda>ex.
       if \<not> ex then (if if_exists then Inr db else Inl (OutboxNotFound name))
       else
         and_then (spi f 1 (''outbox fence for '' @ quoted name @ '': '')) (\<lambda>_.
         and_then (spi f 2 ''DELETE outbox_messages: '') (\<lambda>_.
         and_then (spi f 3 ''DELETE consumer_groups: '') (\<lambda>_.
         and_then (spi f 4 ''DELETE tide_outbox_config: '') (\<lambda>_.
           Inr ((cascade_groups (group_of_outbox name db) db)
                  \<lparr>outbox_messages := filter (\<lambda>r. row_outbox r \<noteq> name) (outbox_messages db),
                   outbox_configs := map_remove name (outbox_configs db),
                   publishers := filter (\<lambda>(n, _). n \<noteq> name) (publishers db),
                   cleanup_state := map_remove name (cleanup_state db)\<rparr>))))))"

definition set_enabled :: "bool \<Rightarrow> string \<Rightarrow> tide_db \<Rightarrow> tide_db" where
  "set_enabled b name db =
     db\<lparr>outbox_configs :=
          map (\<lambda>(n, c). (n, if n = name then c\<lparr>oc_enabled := b\<rparr> else c)) (outbox_configs db)\<rparr>"

definition outbox_disable :: "spi_fate \<Rightarrow> string \<Rightarrow> tide_db \<Rightarrow> pg_tide_error + tide_db" where
  "outbox_disable f name db =
     and_then (spi f 0 (''disable outbox '' @ quoted name @ '': '')) (\<lambda>_.
       if map_of (outbox_configs db) name = None then Inl (OutboxNotFound name)
       else Inr (set_enabled False name db))"

definition outbox_enable :: "spi_fate \<Rightarrow> string \<Rightarrow> tide_db \<Rightarrow> pg_tide_error + tide_db" where
  "outbox_enable f name db =
     and_then (spi f 0 (''enable outbox '' @ quoted name @ '': '')) (\<lambda>_.
       if map_of (outbox_configs db) name = None then Inl (OutboxNotFound name)
       else Inr (set_enabled True name db))"

section \<open>Retention sweep\<close>

text \<open>\<open>config ->> key\<close>: the text of a scalar, \<open>NULL\<close> for a missing key or JSON null.\<close>

fun json_text :: "json \<Rightarrow> string option" where
  "json_text (JStr s) = Some s"
| "json_text (JInt i) = Some (show_int i)"
| "json_text (JFloat s) = Some s"
| "json_text (JBool b) = Some (if b then ''true'' else ''false'')"
| "json_text _ = None"

definition names_outbox :: "string \<Rightarrow> relay_config_row \<Rightarrow> bool" where
  "names_outbox name c \<longleftrightarrow>
     Option.bind (json_path (rc_config c) [''source'', ''outbox'']) json_text = Some name
   \<and> Option.bind (json_get (rc_config c) ''source_type'') json_text = Some ''outbox''"

record participant =
  p_name :: string
  p_enabled :: bool
  p_safe_offset :: int

definition relay_participants :: "string \<Rightarrow> tide_db \<Rightarrow> participant list" where
  "relay_participants name db =
     map (\<lambda>(n, c).
            \<lparr> p_name = n, p_enabled = rc_enabled c,
              p_safe_offset = unwrap_or
                (min_opt (map last_change_id
                  (filter (\<lambda>o_row. ro_pipeline o_row = n \<and> ro_outbox o_row = name) (relay_offsets db)))) 0 \<rparr>)
         (filter (\<lambda>(n, c). names_outbox name c) (relay_configs db))"

definition group_participants :: "string \<Rightarrow> tide_db \<Rightarrow> participant list" where
  "group_participants name db =
     map (\<lambda>(g, _).
            \<lparr> p_name = g, p_enabled = True,
              p_safe_offset = unwrap_or
                (min_opt (map committed_offset (filter (\<lambda>r. co_group r = g) (consumer_offsets db)))) 0 \<rparr>)
         (filter (\<lambda>(g, row). g_outbox row = name) (consumer_groups db))"

definition participants :: "string \<Rightarrow> tide_db \<Rightarrow> participant list" where
  "participants name db = relay_participants name db @ group_participants name db"

definition safe_offset :: "string \<Rightarrow> tide_db \<Rightarrow> int option" where
  "safe_offset name db = min_opt (map p_safe_offset (participants name db))"

definition lease_blocked :: "int \<Rightarrow> string \<Rightarrow> tide_db \<Rightarrow> bool" where
  "lease_blocked now name db \<longleftrightarrow>
     list_ex (\<lambda>l. group_of_outbox name db (l_group l) \<and> now < l_expires_at l) (consumer_leases db)"

definition hour_us :: int where "hour_us = 3600000000"

definition eligible :: "string \<Rightarrow> int \<Rightarrow> int option \<Rightarrow> outbox_row \<Rightarrow> bool" where
  "eligible name cutoff safe r \<longleftrightarrow>
     row_outbox r = name \<and> row_created_at r < cutoff
   \<and> (case safe of None \<Rightarrow> True | Some s \<Rightarrow> row_id r \<le> s)"

text \<open>\<open>ORDER BY id LIMIT n FOR UPDATE SKIP LOCKED\<close>.\<close>

definition sweep_candidates ::
    "(int \<Rightarrow> bool) \<Rightarrow> string \<Rightarrow> int \<Rightarrow> int option \<Rightarrow> nat \<Rightarrow> tide_db \<Rightarrow> outbox_row list" where
  "sweep_candidates locked name cutoff safe n db =
     take n (filter (\<lambda>r. \<not> locked (row_id r))
       (sort_key row_id (filter (eligible name cutoff safe) (outbox_messages db))))"

record sweep_result =
  sr_outbox :: string
  sr_safe_offset :: "int option"
  sr_participants :: "participant list"
  sr_lease_blocked :: bool
  sr_eligible_in_batch :: nat
  sr_affected_rows :: nat
  sr_has_more :: bool
  sr_highest_deleted_id :: "int option"

definition record_cleanup :: "int \<Rightarrow> string \<Rightarrow> int option \<Rightarrow> int option \<Rightarrow> nat \<Rightarrow> tide_db \<Rightarrow> tide_db" where
  "record_cleanup now name safe highest affected db =
     db\<lparr>cleanup_state := map_insert name
          (case map_of (cleanup_state db) name of
             None \<Rightarrow> \<lparr> cl_last_success_at = Some now, cl_last_safe_offset = safe,
                       cl_highest_deleted_id = unwrap_or highest 0,
                       cl_last_batch_rows = int affected, cl_total_rows_deleted = int affected \<rparr>
           | Some c \<Rightarrow> c\<lparr>cl_last_success_at := Some now, cl_last_safe_offset := safe,
                        cl_highest_deleted_id := max (cl_highest_deleted_id c) (unwrap_or highest 0),
                        cl_last_batch_rows := int affected,
                        cl_total_rows_deleted := cl_total_rows_deleted c + int affected\<rparr>)
          (cleanup_state db)\<rparr>"

definition sweep_spi :: "spi_fate \<Rightarrow> nat \<Rightarrow> string \<Rightarrow> string \<Rightarrow> pg_tide_error + unit" where
  "sweep_spi f k name context =
     (case f k of None \<Rightarrow> Inr () | Some e \<Rightarrow> Inl (SweepFailed name (context @ e)))"

definition sweep_one_locked ::
    "spi_fate \<Rightarrow> (int \<Rightarrow> bool) \<Rightarrow> int \<Rightarrow> string \<Rightarrow> nat \<Rightarrow> bool \<Rightarrow> tide_db
       \<Rightarrow> pg_tide_error + (sweep_result \<times> tide_db)" where
  "sweep_one_locked f locked now name batch_size dry_run db =
     and_then (sweep_spi f 1 name ''resolve retention participants: '') (\<lambda>_.
     let retention = (case map_of (outbox_configs db) name of
                        Some c \<Rightarrow> oc_retention_hours c | None \<Rightarrow> 24);
         safe = safe_offset name db;
         blocked = lease_blocked now name db;
         cutoff = now - hour_us * retention
     in and_then (if blocked then Inr [] else
          and_then (sweep_spi f 2 name ''select candidates: '') (\<lambda>_.
            Inr (sweep_candidates locked name cutoff safe (batch_size + 1) db))) (\<lambda>candidates.
     let has_more = batch_size < length candidates;
         in_batch = min (length candidates) batch_size
     in and_then (if \<not> dry_run \<and> 0 < in_batch then
          and_then (sweep_spi f 3 name ''delete candidates: '') (\<lambda>_.
            Inr (sweep_candidates locked name cutoff safe batch_size db)) else Inr []) (\<lambda>deleted.
     let ids = map row_id deleted;
         highest = max_opt ids;
         result = \<lparr> sr_outbox = name, sr_safe_offset = safe, sr_participants = participants name db,
                    sr_lease_blocked = blocked, sr_eligible_in_batch = in_batch,
                    sr_affected_rows = length deleted, sr_has_more = has_more,
                    sr_highest_deleted_id = highest \<rparr>
     in if dry_run then Inr (result, db)
        else and_then (sweep_spi f 4 name ''record cleanup state: '') (\<lambda>_.
          Inr (result, record_cleanup now name safe highest (length deleted)
            (db\<lparr>outbox_messages := filter (\<lambda>r. row_id r \<notin> set ids) (outbox_messages db)\<rparr>))))))"

definition sweep_one ::
    "spi_fate \<Rightarrow> (int \<Rightarrow> bool) \<Rightarrow> int \<Rightarrow> string \<Rightarrow> nat \<Rightarrow> bool \<Rightarrow> tide_db
       \<Rightarrow> pg_tide_error + (sweep_result \<times> tide_db)" where
  "sweep_one f locked now name batch_size dry_run db =
     and_then (spi f 0 (''outbox maintenance fence for '' @ quoted name @ '': '')) (\<lambda>_.
     and_then (sweep_one_locked f locked now name batch_size dry_run db) (\<lambda>value.
     and_then (spi f 5 (''release outbox fence for '' @ quoted name @ '': '')) (\<lambda>_. Inr value)))"

fun sweep_all ::
    "(nat \<Rightarrow> spi_fate) \<Rightarrow> (int \<Rightarrow> bool) \<Rightarrow> int \<Rightarrow> nat \<Rightarrow> string list \<Rightarrow> nat \<Rightarrow> bool \<Rightarrow> tide_db
       \<Rightarrow> pg_tide_error + (sweep_result list \<times> tide_db)" where
  "sweep_all ff locked now i [] batch_size dry_run db = Inr ([], db)"
| "sweep_all ff locked now i (n # ns) batch_size dry_run db =
     and_then (sweep_one (ff i) locked now n batch_size dry_run db) (\<lambda>(r, db').
     and_then (sweep_all ff locked now (Suc i) ns batch_size dry_run db') (\<lambda>(rs, db'').
       Inr (r # rs, db'')))"

text \<open>\<open>ff 0\<close> is the fate of the lookup of the names, \<open>ff (i + 1)\<close> that of the i-th sweep.\<close>

definition outbox_sweep ::
    "(nat \<Rightarrow> spi_fate) \<Rightarrow> (int \<Rightarrow> bool) \<Rightarrow> int \<Rightarrow> string option \<Rightarrow> int \<Rightarrow> bool \<Rightarrow> tide_db
       \<Rightarrow> pg_tide_error + (sweep_result list \<times> tide_db)" where
  "outbox_sweep ff locked now target batch_size dry_run db =
     (if \<not> (1 \<le> batch_size \<and> batch_size \<le> max_sweep_batch)
      then Inl (InvalidArgument (''p_batch_size must be between 1 and 10000; got '' @ show_int batch_size))
      else
        and_then (case target of
            Some name \<Rightarrow>
              and_then (outbox_exists (ff 0) 0 name db) (\<lambda>ex.
                if ex then Inr [name] else Inl (OutboxNotFound name))
          | None \<Rightarrow> and_then (spi (ff 0) 0 ''list sweep outboxes: '') (\<lambda>_. Inr (outbox_names db)))
          (\<lambda>names. sweep_all ff locked now 1 names (nat batch_size) dry_run db))"

definition outbox_truncate_delivered ::
    "(nat \<Rightarrow> spi_fate) \<Rightarrow> (int \<Rightarrow> bool) \<Rightarrow> int \<Rightarrow> string option \<Rightarrow> tide_db \<Rightarrow> pg_tide_error + (nat \<times> tide_db)" where
  "outbox_truncate_delivered ff locked now target db =
     and_then (outbox_sweep ff locked now target 1000 False db) (\<lambda>(rs, db').
       Inr (sum_list (map sr_affected_rows rs), db'))"

section \<open>Consumer groups\<close>

definition create_consumer_group ::
    "spi_fate \<Rightarrow> string \<Rightarrow> string \<Rightarrow> string \<Rightarrow> bool \<Rightarrow> tide_db \<Rightarrow> pg_tide_error + tide_db" where
  "create_consumer_group f name outbox reset if_not_exists db =
     and_then (outbox_exists f 0 outbox db) (\<lambda>ex.
       if \<not> ex then Inl (OutboxNotFound outbox)
       else
         let present = map_of (consumer_groups db) name \<noteq> None;
             seen = (f 1 = None \<and> present)
         in if seen then
              (if if_not_exists then Inr db
               else Inl (InvalidArgument (''consumer group '' @ quoted name @ '' already exists'')))
            else if reset \<notin> {''earliest'', ''latest'', ''none''}
            then Inl (InvalidArgument (''auto_offset_reset must be one of: earliest, latest, none; got '' @ quoted reset))
            else and_then (spi f 2 ''INSERT consumer_groups: '') (\<lambda>_.
              if present then Inl (SpiError ''INSERT consumer_groups: duplicate key'')
              else Inr (db\<lparr>consumer_groups :=
                     map_insert name \<lparr> g_outbox = outbox, g_auto_offset_reset = reset \<rparr> (consumer_groups db)\<rparr>)))"

definition drop_consumer_group :: "spi_fate \<Rightarrow> string \<Rightarrow> bool \<Rightarrow> tide_db \<Rightarrow> pg_tide_error + tide_db" where
  "drop_consumer_group f name if_exists db =
     and_then (spi f 0 (''drop consumer group '' @ quoted name @ '': '')) (\<lambda>_.
       if map_of (consumer_groups db) name = None \<and> \<not> if_exists
       then Inl (InvalidArgument (''consumer group '' @ quoted name @ '' not found''))
       else Inr (cascade_groups (\<lambda>g. g = name) db))"

definition find_committed :: "string \<Rightarrow> string \<Rightarrow> tide_db \<Rightarrow> int option" where
  "find_committed grp consumer db =
     map_option committed_offset
       (List.find (\<lambda>r. co_group r = grp \<and> co_consumer r = consumer) (consumer_offsets db))"

text \<open>
  The upsert advances an existing row only where its offset is not above the new one; the
  foreign key to the group rejects a row for an unknown group.
\<close>

definition commit_offset :: "spi_fate \<Rightarrow> int \<Rightarrow> string \<Rightarrow> string \<Rightarrow> int \<Rightarrow> tide_db \<Rightarrow> pg_tide_error + tide_db" where
  "commit_offset f now grp consumer last_offset db =
     (if last_offset < 0 then Inl (InvalidArgument ''consumer offset must be non-negative'')
      else and_then (spi f 0 ''commit_offset: '') (\<lambda>_.
        and_then (case find_committed grp consumer db of
            None \<Rightarrow>
              if map_of (consumer_groups db) grp = None
              then Inl (SpiError ''commit_offset: foreign key violation'')
              else Inr (consumer_offsets db @ [\<lparr> co_group = grp, co_consumer = consumer,
                          committed_offset = last_offset, last_heartbeat = now \<rparr>])
          | Some c \<Rightarrow>
              if c \<le> last_offset
              then Inr (map (\<lambda>r. if co_group r = grp \<and> co_consumer r = consumer
                              then r\<lparr>committed_offset := last_offset, last_heartbeat := now\<rparr> else r)
                          (consumer_offsets db))
              else Inl (InvalidArgument (''consumer offset '' @ show_int last_offset @
                     '' is lower than the committed offset''))) (\<lambda>offsets.
        and_then (spi f 1 ''clear consumer lease: '') (\<lambda>_.
          Inr (db\<lparr>consumer_offsets := offsets,
                  consumer_leases := filter (\<lambda>l. \<not> (l_group l = grp \<and> l_consumer l = consumer))
                    (consumer_leases db)\<rparr>)))))"

definition outbox_grant_publish :: "spi_fate \<Rightarrow> string \<Rightarrow> string \<Rightarrow> tide_db \<Rightarrow> pg_tide_error + tide_db" where
  "outbox_grant_publish f outbox role db =
     and_then (validate_identifier outbox) (\<lambda>_.
     and_then (validate_identifier role) (\<lambda>_.
     and_then (outbox_exists f 0 outbox db) (\<lambda>ex.
       if \<not> ex then Inl (OutboxNotFound outbox)
       else and_then (spi f 1 ''outbox_grant_publish: '') (\<lambda>_.
         Inr (if (outbox, role) \<in> set (publishers db) then db
              else db\<lparr>publishers := publishers db @ [(outbox, role)]\<rparr>)))))"

definition outbox_revoke_publish :: "spi_fate \<Rightarrow> string \<Rightarrow> string \<Rightarrow> tide_db \<Rightarrow> pg_tide_error + tide_db" where
  "outbox_revoke_publish f outbox role db =
     and_then (validate_identifier outbox) (\<lambda>_.
     and_then (validate_identifier role) (\<lambda>_.
     and_then (spi f 0 ''outbox_revoke_publish: '') (\<lambda>_.
       Inr (db\<lparr>publishers := filter (\<lambda>p. p \<noteq> (outbox, role)) (publishers db)\<rparr>))))"

definition consumer_heartbeat :: "spi_fate \<Rightarrow> int \<Rightarrow> string \<Rightarrow> string \<Rightarrow> tide_db \<Rightarrow> pg_tide_error + tide_db" where
  "consumer_heartbeat f now grp consumer db =
     and_then (spi f 0 ''consumer heartbeat: '') (\<lambda>_.
       Inr (db\<lparr>consumer_offsets :=
              map (\<lambda>r. if co_group r = grp \<and> co_consumer r = consumer
                    then r\<lparr>last_heartbeat := now\<rparr> else r) (consumer_offsets db)\<rparr>))"

section \<open>Lemmas: creation and publishing\<close>

lemma create_guard_ok:
  "create_guard name ps = Inr strategy \<Longrightarrow>
     ident_ok name \<and> strategy \<in> {''none'', ''daily'', ''weekly'', ''monthly''}
   \<and> (strategy \<noteq> ''none'' \<longrightarrow> length (str_replace ''-'' ''_'' name) \<le> 35)"
  by (auto simp: create_guard_def Let_def and_then_Inr_iff validate_identifier_iff backup_prefix_def
      split: if_splits)

lemma length_replace_char: "length (str_replace [a] [b] s) = length s"
  by (induction s) (auto simp: starts_with_def)

lemma outbox_create_exists:
  "outbox_create f name r t ps db = Inr db' \<Longrightarrow> map_of (outbox_configs db') name \<noteq> None"
  by (auto simp: outbox_create_def and_then_Inr_iff insert_outbox_def split: if_splits)

lemma any_member_True: "any_member m rs = Some True \<Longrightarrow> \<exists>r \<in> set rs. m r = Some True"
  by (induction rs) (auto split: option.splits bool.splits)

definition may_publish :: "auth_env \<Rightarrow> string \<Rightarrow> tide_db \<Rightarrow> bool" where
  "may_publish env name db \<longleftrightarrow>
     (\<exists>user is_super. session_user env = Some user \<and> rolsuper env user = Some is_super \<and>
        (is_super \<or> extension_owner env user \<or>
         (role_exists env ''tide_publisher'' \<and> has_role env user ''tide_publisher'' = Some True \<and>
          any_member (has_role env user) (acl_roles name db) = Some True)))"

lemma acl_verdict_accepts:
  "(\<exists>v. acl_verdict env name user su own db = Inr v \<and> v \<in> {''superuser'', ''extension_owner'', ''allowed''})
   \<longleftrightarrow> su \<or> own \<or> (role_exists env ''tide_publisher'' \<and> has_role env user ''tide_publisher'' = Some True
        \<and> any_member (has_role env user) (acl_roles name db) = Some True)"
  by (auto simp: acl_verdict_def split: option.splits bool.splits)

lemma auth_spi_Inr_iff [result_simps]: "auth_spi f k name c = Inr u \<longleftrightarrow> f k = None"
  by (simp add: auth_spi_def split: option.splits)

lemma authorize_ok:
  assumes "authorize f env name db = Inr ()"
  shows "may_publish env name db"
proof -
  obtain user su v where u: "session_user env = Some user" "rolsuper env user = Some su"
    and v: "acl_verdict env name user su (extension_owner env user) db = Inr v"
      "v \<in> {''superuser'', ''extension_owner'', ''allowed''}"
    using assms unfolding authorize_def and_then_Inr_iff ok_or_Inr_iff by (meson sum.distinct(1))
  with acl_verdict_accepts [of env name user su "extension_owner env user" db]
  show ?thesis unfolding may_publish_def by blast
qed

lemma authorize_complete:
  assumes "may_publish env name db" and "\<forall>k. f k = None"
  shows "authorize f env name db = Inr ()"
proof -
  obtain user su where u: "session_user env = Some user" "rolsuper env user = Some su"
    and "su \<or> extension_owner env user \<or> (role_exists env ''tide_publisher'' \<and>
      has_role env user ''tide_publisher'' = Some True \<and>
      any_member (has_role env user) (acl_roles name db) = Some True)"
    using assms(1) unfolding may_publish_def by blast
  then obtain v where "acl_verdict env name user su (extension_owner env user) db = Inr v"
    "v \<in> {''superuser'', ''extension_owner'', ''allowed''}"
    using acl_verdict_accepts [of env name user su "extension_owner env user" db] by blast
  with u assms(2) show ?thesis by (auto simp: authorize_def auth_spi_def)
qed

lemma outbox_publish_Inr:
  assumes "outbox_publish f env now name pl hs db = Inr db'"
  shows "\<exists>cfg. map_of (outbox_configs db) name = Some cfg \<and> oc_enabled cfg"
    and "authorize f env name db = Inr ()"
    and "db' = db\<lparr>outbox_messages := outbox_messages db @
                 [\<lparr> row_id = next_id db, row_outbox = name, row_payload = pl, row_headers = hs,
                    row_created_at = now \<rparr>],
               next_id := next_id db + 1,
               notifications := notifications db @ [(''tide_outbox_new'', name)]\<rparr>"
  using assms by (auto simp: outbox_publish_def and_then_Inr_iff split: option.splits if_splits)

section \<open>Lemmas: retention sweep\<close>

lemma sweep_candidates_eligible:
  "r \<in> set (sweep_candidates locked name cutoff safe n db) \<Longrightarrow>
     r \<in> set (outbox_messages db) \<and> eligible name cutoff safe r \<and> \<not> locked (row_id r)"
  by (auto simp: sweep_candidates_def dest!: in_set_takeD)

lemma length_sweep_candidates: "length (sweep_candidates locked name cutoff safe n db) \<le> n"
  by (simp add: sweep_candidates_def)

lemma safe_offset_bound:
  "safe_offset name db = Some s \<Longrightarrow> p \<in> set (participants name db) \<Longrightarrow> s \<le> p_safe_offset p"
  by (auto simp: safe_offset_def intro: min_opt_le)

lemma safe_offset_None: "safe_offset name db = None \<longleftrightarrow> participants name db = []"
  by (simp add: safe_offset_def)

lemma sweep_one_locked_dry_run:
  "sweep_one_locked f locked now name n True db = Inr (r, db') \<Longrightarrow> db' = db \<and> sr_affected_rows r = 0"
  by (auto simp: sweep_one_locked_def Let_def and_then_Inr_iff split: if_splits)

text \<open>What one sweep removes, as a set of ids.\<close>

definition swept_rows :: "(int \<Rightarrow> bool) \<Rightarrow> int \<Rightarrow> string \<Rightarrow> nat \<Rightarrow> bool \<Rightarrow> tide_db \<Rightarrow> outbox_row list" where
  "swept_rows locked now name n dry_run db =
     (if dry_run \<or> lease_blocked now name db then []
      else sweep_candidates locked name
             (now - hour_us * (case map_of (outbox_configs db) name of
                                 Some c \<Rightarrow> oc_retention_hours c | None \<Rightarrow> 24))
             (safe_offset name db) n db)"

lemma candidates_empty_mono:
  "sweep_candidates locked name c s (Suc n) db = [] \<Longrightarrow> sweep_candidates locked name c s n db = []"
  by (auto simp: sweep_candidates_def)

lemma candidates_min_zero:
  "min (length (sweep_candidates locked name c s (n + 1) db)) n = 0 \<Longrightarrow>
     sweep_candidates locked name c s n db = []"
  by (cases n) (auto simp: sweep_candidates_def min_def split: if_splits)

lemma sweep_one_locked_db:
  assumes "sweep_one_locked f locked now name n False db = Inr (r, db')"
  shows "sr_affected_rows r = length (swept_rows locked now name n False db)
    \<and> db' = record_cleanup now name (safe_offset name db)
        (max_opt (map row_id (swept_rows locked now name n False db)))
        (length (swept_rows locked now name n False db))
        (db\<lparr>outbox_messages := filter (\<lambda>m. row_id m \<notin>
           set (map row_id (swept_rows locked now name n False db))) (outbox_messages db)\<rparr>)"
proof (cases "lease_blocked now name db")
  case True
  with assms show ?thesis
    by (auto simp: sweep_one_locked_def Let_def and_then_Inr_iff swept_rows_def)
next
  case False
  define cutoff where "cutoff = now - hour_us * (case map_of (outbox_configs db) name of
      Some c \<Rightarrow> oc_retention_hours c | None \<Rightarrow> 24)"
  define C where "C = sweep_candidates locked name cutoff (safe_offset name db) (n + 1) db"
  define D where "D = sweep_candidates locked name cutoff (safe_offset name db) n db"
  have sw: "swept_rows locked now name n False db = D"
    using False by (simp add: swept_rows_def D_def cutoff_def)
  have z: "\<not> 0 < min (length C) n \<Longrightarrow> D = []"
    using candidates_min_zero [of locked name cutoff "safe_offset name db" n db]
    unfolding C_def D_def by (simp only: not_gr0)
  show ?thesis
    using assms False z
    unfolding sw sweep_one_locked_def Let_def cutoff_def [symmetric] C_def [symmetric] D_def [symmetric]
    by (cases "0 < min (length C) n") (auto simp add: and_then_Inr_iff)
qed

lemma sweep_one_locked_effect:
  assumes "sweep_one_locked f locked now name n False db = Inr (r, db')"
  shows "outbox_messages db' =
           filter (\<lambda>m. row_id m \<notin> row_id ` set (swept_rows locked now name n False db)) (outbox_messages db)"
    and "sr_affected_rows r = length (swept_rows locked now name n False db)"
    and "relay_configs db' = relay_configs db \<and> relay_offsets db' = relay_offsets db
       \<and> dlq_table db' = dlq_table db \<and> outbox_configs db' = outbox_configs db \<and> next_id db' = next_id db
       \<and> consumer_groups db' = consumer_groups db \<and> consumer_offsets db' = consumer_offsets db"
  using sweep_one_locked_db [OF assms] by (simp_all add: record_cleanup_def)

lemma sweep_one_effect:
  assumes "sweep_one f locked now name n dry_run db = Inr (r, db')"
  shows "outbox_messages db' =
           filter (\<lambda>m. row_id m \<notin> row_id ` set (swept_rows locked now name n dry_run db)) (outbox_messages db)"
    and "relay_configs db' = relay_configs db \<and> relay_offsets db' = relay_offsets db
       \<and> dlq_table db' = dlq_table db \<and> outbox_configs db' = outbox_configs db \<and> next_id db' = next_id db
       \<and> consumer_groups db' = consumer_groups db \<and> consumer_offsets db' = consumer_offsets db"
proof -
  from assms have l: "sweep_one_locked f locked now name n dry_run db = Inr (r, db')"
    by (auto simp: sweep_one_def and_then_Inr_iff)
  show "outbox_messages db' =
           filter (\<lambda>m. row_id m \<notin> row_id ` set (swept_rows locked now name n dry_run db)) (outbox_messages db)"
    using sweep_one_locked_effect(1) [of f locked now name n db r db']
      sweep_one_locked_dry_run [of f locked now name n db r db'] l
    by (cases dry_run) (auto simp: swept_rows_def)
  show "relay_configs db' = relay_configs db \<and> relay_offsets db' = relay_offsets db
       \<and> dlq_table db' = dlq_table db \<and> outbox_configs db' = outbox_configs db \<and> next_id db' = next_id db
       \<and> consumer_groups db' = consumer_groups db \<and> consumer_offsets db' = consumer_offsets db"
    using sweep_one_locked_effect(3) [of f locked now name n db r db']
      sweep_one_locked_dry_run [of f locked now name n db r db'] l
    by (cases dry_run) auto
qed

lemma swept_row_eligible:
  "m \<in> set (swept_rows locked now name n d db) \<Longrightarrow>
     m \<in> set (outbox_messages db) \<and> row_outbox m = name
   \<and> (\<forall>p \<in> set (participants name db). row_id m \<le> p_safe_offset p)
   \<and> \<not> lease_blocked now name db"
proof -
  assume m: "m \<in> set (swept_rows locked now name n d db)"
  then obtain cutoff where c: "m \<in> set (sweep_candidates locked name cutoff (safe_offset name db) n db)"
    and nb: "\<not> lease_blocked now name db"
    by (auto simp: swept_rows_def split: if_splits)
  from sweep_candidates_eligible [OF c]
  have e: "m \<in> set (outbox_messages db)" "eligible name cutoff (safe_offset name db) m" by auto
  have "row_id m \<le> p_safe_offset p" if p: "p \<in> set (participants name db)" for p
  proof -
    obtain s where s: "safe_offset name db = Some s"
      using p safe_offset_None [of name db] by (cases "safe_offset name db") auto
    with e(2) have "row_id m \<le> s" by (simp add: eligible_def)
    with safe_offset_bound [OF s p] show ?thesis by simp
  qed
  with e nb show ?thesis by (simp add: eligible_def)
qed

text \<open>A relay participant's safe offset is below every durable offset of its pipeline.\<close>

lemma relay_participant_offset:
  assumes "(p, c) \<in> set (relay_configs db)" and "names_outbox name c"
    and "row \<in> set (relay_offsets db)" and "ro_pipeline row = p" and "ro_outbox row = name"
  shows "\<exists>q \<in> set (participants name db). p_name q = p \<and> p_safe_offset q \<le> last_change_id row"
proof -
  let ?rows = "filter (\<lambda>r. ro_pipeline r = p \<and> ro_outbox r = name) (relay_offsets db)"
  obtain m where m: "min_opt (map last_change_id ?rows) = Some m"
    using assms(3-5) by (cases "min_opt (map last_change_id ?rows)") (auto simp: filter_empty_conv)
  then have "m \<le> last_change_id row" using assms(3-5) by (auto intro: min_opt_le)
  with m assms(1,2) show ?thesis
    by (force simp: participants_def relay_participants_def image_iff)
qed

lemma relay_participant_none:
  assumes "(p, c) \<in> set (relay_configs db)" and "names_outbox name c"
    and "\<forall>row \<in> set (relay_offsets db). \<not> (ro_pipeline row = p \<and> ro_outbox row = name)"
  shows "\<exists>q \<in> set (participants name db). p_name q = p \<and> p_safe_offset q = 0"
proof -
  have "filter (\<lambda>r. ro_pipeline r = p \<and> ro_outbox r = name) (relay_offsets db) = []"
    using assms(3) by (auto simp: filter_empty_conv)
  with assms(1,2) show ?thesis
    by (force simp: participants_def relay_participants_def image_iff)
qed

section \<open>Lemmas: consumer offsets\<close>

lemma find_map_committed:
  "map_option committed_offset (List.find P
     (map (\<lambda>r. if P r then r\<lparr>committed_offset := v, last_heartbeat := n\<rparr> else r) rs)) =
   map_option (\<lambda>_. v) (List.find P rs)"
  if "\<And>r. P (r\<lparr>committed_offset := v, last_heartbeat := n\<rparr>) = P r" for P
  using that by (induction rs) auto

lemma find_update_other:
  assumes "\<And>r. P r \<Longrightarrow> \<not> Q r" and "\<And>r. P (h r) = P r"
  shows "List.find P (map (\<lambda>r. if Q r then h r else r) rs) = List.find P rs"
  using assms by (induction rs) auto

lemma find_committed_map:
  "find_committed g c (db\<lparr>consumer_offsets :=
      map (\<lambda>r. if co_group r = g \<and> co_consumer r = c then r\<lparr>committed_offset := v, last_heartbeat := n\<rparr> else r)
        (consumer_offsets db)\<rparr>) = map_option (\<lambda>_. v) (find_committed g c db)"
  using find_map_committed [where P = "\<lambda>r. co_group r = g \<and> co_consumer r = c" and v = v and n = n
      and rs = "consumer_offsets db"]
  by (simp add: find_committed_def option.map_comp comp_def)

lemma find_append: "List.find P (xs @ ys) = (case List.find P xs of None \<Rightarrow> List.find P ys | Some x \<Rightarrow> Some x)"
  by (induction xs) auto

section \<open>Properties\<close>

text \<open>
  C22: When no statement fails, publishing succeeds exactly when the outbox exists and is enabled and
  the session user is a superuser, the owner of the extension, or a member of \<open>tide_publisher\<close>
  and of a role on the publish list of that outbox.
\<close>

theorem publish_exactly_when_authorized:
  "(\<exists>db'. outbox_publish (\<lambda>_. None) env now name pl hs db = Inr db') \<longleftrightarrow>
     (\<exists>cfg. map_of (outbox_configs db) name = Some cfg \<and> oc_enabled cfg) \<and> may_publish env name db"
proof
  assume "\<exists>db'. outbox_publish (\<lambda>_. None) env now name pl hs db = Inr db'"
  then show "(\<exists>cfg. map_of (outbox_configs db) name = Some cfg \<and> oc_enabled cfg) \<and> may_publish env name db"
    using outbox_publish_Inr(1,2) authorize_ok by blast
next
  assume "(\<exists>cfg. map_of (outbox_configs db) name = Some cfg \<and> oc_enabled cfg) \<and> may_publish env name db"
  then show "\<exists>db'. outbox_publish (\<lambda>_. None) env now name pl hs db = Inr db'"
    using authorize_complete [of env name db "\<lambda>_. None"] by (auto simp: outbox_publish_def spi_def)
qed

text \<open>
  C20: A sweep that succeeds removes only rows of its own outbox that are older than the retention
  period and that no participant still needs, none at all in a dry run or while a lease of a
  group of the outbox is live, and at most the batch size; every other row stays in its place.
\<close>

theorem sweep_removes_only_released_rows:
  assumes "sweep_one f locked now name n dry db = Inr (r, db')" and "inj_on row_id (set (outbox_messages db))"
  shows "\<exists>gone. outbox_messages db' = filter (\<lambda>m. m \<notin> set gone) (outbox_messages db)
    \<and> set gone \<subseteq> set (outbox_messages db) \<and> length gone \<le> n
    \<and> (dry \<or> lease_blocked now name db \<longrightarrow> gone = [])
    \<and> (\<forall>m \<in> set gone. row_outbox m = name \<and> \<not> locked (row_id m) \<and> row_created_at m < now - hour_us *
         (case map_of (outbox_configs db) name of Some c \<Rightarrow> oc_retention_hours c | None \<Rightarrow> 24)
       \<and> (\<forall>p \<in> set (participants name db). row_id m \<le> p_safe_offset p))"
proof (intro exI [of _ "swept_rows locked now name n dry db"] conjI ballI impI)
  let ?gone = "swept_rows locked now name n dry db"
  show sub: "set ?gone \<subseteq> set (outbox_messages db)" using swept_row_eligible by blast
  have "row_id m \<in> row_id ` set ?gone \<longleftrightarrow> m \<in> set ?gone" if "m \<in> set (outbox_messages db)" for m
    using inj_on_image_mem_iff [OF assms(2) that sub] .
  then show "outbox_messages db' = filter (\<lambda>m. m \<notin> set ?gone) (outbox_messages db)"
    unfolding sweep_one_effect(1) [OF assms(1)] by (intro filter_cong) simp_all
  show "length ?gone \<le> n" by (simp add: swept_rows_def length_sweep_candidates)
  show "?gone = []" if "dry \<or> lease_blocked now name db" using that by (auto simp: swept_rows_def)
  fix m assume m: "m \<in> set ?gone"
  then show "row_outbox m = name" using swept_row_eligible by blast
  show "\<not> locked (row_id m)"
    and "row_created_at m < now - hour_us *
         (case map_of (outbox_configs db) name of Some c \<Rightarrow> oc_retention_hours c | None \<Rightarrow> 24)"
    using m sweep_candidates_eligible by (fastforce simp: swept_rows_def eligible_def split: if_splits)+
  show "row_id m \<le> p_safe_offset p" if "p \<in> set (participants name db)" for p
    using swept_row_eligible [OF m] that by blast
qed

definition sweep_demo :: tide_db where
  "sweep_demo = empty_db\<lparr>outbox_messages :=
     [\<lparr> row_id = 1, row_outbox = ''o'', row_payload = JNull, row_headers = JNull, row_created_at = 0 \<rparr>,
      \<lparr> row_id = 2, row_outbox = ''other'', row_payload = JNull, row_headers = JNull, row_created_at = 0 \<rparr>]\<rparr>"

theorem sweep_removes_only_released_rows_witness:
  "\<exists>r db'. sweep_one (\<lambda>_. None) (\<lambda>_. False) (2 * 24 * hour_us) ''o'' 10 False sweep_demo = Inr (r, db')
     \<and> map row_id (outbox_messages db') = [2]
     \<and> (\<exists>gone. outbox_messages db' = filter (\<lambda>m. m \<notin> set gone) (outbox_messages sweep_demo) \<and> length gone \<le> 10)"
proof -
  let ?s = "sweep_one (\<lambda>_. None) (\<lambda>_. False) (2 * 24 * hour_us) ''o'' 10 False sweep_demo"
  have s: "case ?s of Inl _ \<Rightarrow> False | Inr (r, db') \<Rightarrow> map row_id (outbox_messages db') = [2]" by code_simp
  then obtain r db' where s': "?s = Inr (r, db')" "map row_id (outbox_messages db') = [2]"
    by (auto split: sum.splits)
  have "inj_on row_id (set (outbox_messages sweep_demo))" by (simp add: sweep_demo_def)
  from sweep_removes_only_released_rows [OF s'(1) this] s' show ?thesis
    by (elim exE conjE) (intro exI conjI, assumption+)
qed

text \<open>
  A commit of a consumer succeeds only with an offset that is not below the committed one, sets it
  to exactly that offset, leaves the offsets of every other consumer, and releases the
  consumer's leases.
\<close>

lemma commit_offset_advances:
  assumes "commit_offset f now grp consumer v db = Inr db'"
  shows "0 \<le> v \<and> find_committed grp consumer db' = Some v
    \<and> (case find_committed grp consumer db of None \<Rightarrow> map_of (consumer_groups db) grp \<noteq> None | Some c \<Rightarrow> c \<le> v)
    \<and> (\<forall>g c. (g, c) \<noteq> (grp, consumer) \<longrightarrow> find_committed g c db' = find_committed g c db)
    \<and> (\<forall>l \<in> set (consumer_leases db'). \<not> (l_group l = grp \<and> l_consumer l = consumer))"
proof (cases "find_committed grp consumer db")
  case None
  with assms have db': "consumer_offsets db' = consumer_offsets db @
      [\<lparr> co_group = grp, co_consumer = consumer, committed_offset = v, last_heartbeat = now \<rparr>]"
    and r: "0 \<le> v" "map_of (consumer_groups db) grp \<noteq> None"
      "consumer_leases db' = filter (\<lambda>l. \<not> (l_group l = grp \<and> l_consumer l = consumer)) (consumer_leases db)"
    by (auto simp: commit_offset_def and_then_Inr_iff split: if_splits)
  with None show ?thesis
    by (auto simp: find_committed_def find_append split: option.splits)
next
  case (Some c)
  with assms have db': "consumer_offsets db' = map (\<lambda>r. if co_group r = grp \<and> co_consumer r = consumer
       then r\<lparr>committed_offset := v, last_heartbeat := now\<rparr> else r) (consumer_offsets db)"
    and r: "0 \<le> v" "c \<le> v"
      "consumer_leases db' = filter (\<lambda>l. \<not> (l_group l = grp \<and> l_consumer l = consumer)) (consumer_leases db)"
    by (auto simp: commit_offset_def and_then_Inr_iff split: if_splits)
  have "find_committed grp consumer db' = map_option (\<lambda>_. v) (find_committed grp consumer db)"
    using find_committed_map [where g = grp and c = consumer and db = db and v = v and n = now]
    unfolding find_committed_def db' by simp
  then have "find_committed grp consumer db' = Some v" using Some by simp
  moreover have "find_committed g c' db' = find_committed g c' db" if "(g, c') \<noteq> (grp, consumer)" for g c'
    unfolding find_committed_def db' by (subst find_update_other) (use that in auto)
  ultimately show ?thesis using Some r by auto
qed

lemma commit_offset_advances_example:
  "\<exists>db'. commit_offset (\<lambda>_. None) 7 ''g'' ''c'' 5
      (empty_db\<lparr>consumer_groups := [(''g'', \<lparr> g_outbox = ''o'', g_auto_offset_reset = ''earliest'' \<rparr>)],
         consumer_offsets := [\<lparr> co_group = ''g'', co_consumer = ''c'', committed_offset = 3, last_heartbeat = 0 \<rparr>]\<rparr>) = Inr db'
     \<and> find_committed ''g'' ''c'' db' = Some 5"
proof -
  let ?c = "commit_offset (\<lambda>_. None) 7 ''g'' ''c'' 5
      (empty_db\<lparr>consumer_groups := [(''g'', \<lparr> g_outbox = ''o'', g_auto_offset_reset = ''earliest'' \<rparr>)],
         consumer_offsets := [\<lparr> co_group = ''g'', co_consumer = ''c'', committed_offset = 3, last_heartbeat = 0 \<rparr>]\<rparr>)"
  have "is_ok ?c" by code_simp
  then obtain db' where "?c = Inr db'" by (auto simp: is_ok_iff)
  with commit_offset_advances [OF this] show ?thesis by blast
qed

end
