(* ===== verification/Outbox_Source.thy ===== *)
theory Outbox_Source
  imports Outbox
begin

text \<open>
  \<open>pg-tide-relay/src/source/outbox.rs\<close> and \<open>source/mod.rs\<close>: the poller that reads an outbox
  under the publication fence, decodes each row into one message and keeps the durable
  offset of its pipeline.  What the poller needs from outside (the fate of each statement,
  the contents of large objects, serde's JSON reader, the extension function
  \<open>tide.poll_outbox\<close>, which no file of the repository defines) is a field of the
  environment record.  The lemmas give the contract the worker relies on: a poll returns a
  gap-free prefix of the rows above the offset, its last message carries the id of its last
  row, and an acknowledgement never moves the durable offset backwards.
\<close>

section \<open>Environment, state and constructors\<close>

record source_env =
  se_begin :: "pg_error option"
  se_lock :: "pg_error option"
  se_query :: "pg_error option"
  se_commit :: "pg_error option"
  se_offset :: "pg_error option"
  se_failpoint :: "string \<Rightarrow> relay_error option"
  lo_get :: "int \<Rightarrow> pg_error + string"
  parse_bytes :: "string \<Rightarrow> string + json"
  poll_outbox :: "string \<Rightarrow> string \<Rightarrow> int \<Rightarrow> int \<Rightarrow> tide_db \<Rightarrow> pg_error + ((int \<times> json) list \<times> tide_db)"
  se_now :: int

definition hit :: "(string \<Rightarrow> relay_error option) \<Rightarrow> string \<Rightarrow> relay_error + unit" where
  "hit fp name = (case fp name of None \<Rightarrow> Inr () | Some e \<Rightarrow> Inl e)"

definition stmt :: "pg_error option \<Rightarrow> relay_error + unit" where
  "stmt x = (case x of None \<Rightarrow> Inr () | Some e \<Rightarrow> Inl (Postgres e))"

record consumer_group_config =
  cg_group :: string
  cg_consumer :: string
  cg_visibility :: int

record outbox_source =
  s_outbox :: string
  s_template :: string
  s_group :: string
  s_pipeline :: string
  s_worker :: string
  s_consumer :: "consumer_group_config option"
  s_last_offset :: int
  s_pending :: "int list"
  s_replay :: bool

definition outbox_fence_lock_key :: "string \<Rightarrow> string" where
  "outbox_fence_lock_key name = ''pg_tide:outbox:'' @ name"

definition load_offset :: "pg_error option \<Rightarrow> string \<Rightarrow> string \<Rightarrow> string \<Rightarrow> tide_db \<Rightarrow> relay_error + int" where
  "load_offset e grp pid name db =
     and_then (stmt e) (\<lambda>_. Inr (unwrap_or (find_offset (grp, pid, name) (relay_offsets db)) 0))"

definition new_simple_native ::
    "pg_error option \<Rightarrow> string \<Rightarrow> string \<Rightarrow> string \<Rightarrow> string \<Rightarrow> string \<Rightarrow> tide_db \<Rightarrow> relay_error + outbox_source" where
  "new_simple_native e worker name template grp pid db =
     and_then (load_offset e grp pid name db) (\<lambda>off.
       Inr \<lparr> s_outbox = name, s_template = template, s_group = grp, s_pipeline = pid, s_worker = worker,
             s_consumer = None, s_last_offset = off, s_pending = [], s_replay = False \<rparr>)"

definition new_consumer_group ::
    "string \<Rightarrow> string \<Rightarrow> string \<Rightarrow> string \<Rightarrow> string \<Rightarrow> string \<Rightarrow> string \<Rightarrow> int \<Rightarrow> relay_error + outbox_source" where
  "new_consumer_group worker name template grp pid cgroup consumer visibility =
     and_then (validate_relay_identifier name) (\<lambda>_.
       Inr \<lparr> s_outbox = name, s_template = template, s_group = grp, s_pipeline = pid, s_worker = worker,
             s_consumer = Some \<lparr> cg_group = cgroup, cg_consumer = consumer, cg_visibility = visibility \<rparr>,
             s_last_offset = 0, s_pending = [], s_replay = False \<rparr>)"

text \<open>\<open>from_offset.saturating_sub(1)\<close> cannot saturate on a non-negative offset.\<close>

definition configure_replay :: "int \<Rightarrow> outbox_source \<Rightarrow> relay_error + outbox_source" where
  "configure_replay from_offset s =
     (if s_consumer s \<noteq> None
      then Inl (InvalidConfig (s_pipeline s) ''replay does not support consumer-group sources'')
      else if from_offset < 0
      then Inl (InvalidConfig (s_pipeline s) ''replay from_offset must be non-negative'')
      else Inr (s\<lparr>s_replay := True, s_last_offset := max i64_min (from_offset - 1)\<rparr>))"

section \<open>Decoding one row\<close>

definition is_claim_check :: "json \<Rightarrow> bool" where
  "is_claim_check pl \<longleftrightarrow> unwrap_or (Option.bind (json_get pl ''_cc'') as_bool) False"

definition decode_payload :: "source_env \<Rightarrow> json \<Rightarrow> int \<Rightarrow> relay_error + outbox_batch" where
  "decode_payload env pl oid =
     (if is_claim_check pl
      then
        and_then (ok_or (Option.bind (json_get pl ''oid'') as_str)
                    (Other (''native claim-check missing '' @ quoted ''oid''))) (\<lambda>s.
        and_then (ok_or (parse_i64 s) (Other (''native claim-check '' @ quoted ''oid'' @ '' is invalid''))) (\<lambda>lo.
        and_then (map_err (\<lambda>e. Other (''lo_get('' @ show_int lo @ '') failed: '' @ pg_text e)) (lo_get env lo)) (\<lambda>bytes.
        and_then (map_err (\<lambda>e. Other (''claim-check payload is invalid JSON: '' @ e)) (parse_bytes env bytes)) (\<lambda>full.
          Inr \<lparr> b_outbox_id = oid, b_refresh_id = None, b_full_refresh = False,
                b_inserted = [full], b_deleted = [] \<rparr>))))
      else Inr \<lparr> b_outbox_id = oid, b_refresh_id = None, b_full_refresh = False,
                 b_inserted = [pl], b_deleted = [] \<rparr>)"

text \<open>The large object a row's cleanup will unlink, when the row is a claim check.\<close>

definition pending_oid :: "json \<Rightarrow> int list" where
  "pending_oid pl =
     (case Option.bind (Option.bind (json_get pl ''oid'') as_str) parse_i64 of
        Some lo \<Rightarrow> if Option.bind (json_get pl ''_cc'') as_bool = Some True then [lo] else []
      | None \<Rightarrow> [])"

definition set_last_ack :: "int \<Rightarrow> relay_message list \<Rightarrow> relay_message list" where
  "set_last_ack oid ms =
     (if ms = [] then [] else butlast ms @ [(last ms)\<lparr>ack_token := OutboxOffset oid\<rparr>])"

definition stamp_native :: "string \<Rightarrow> outbox_row \<Rightarrow> relay_message list \<Rightarrow> relay_message list" where
  "stamp_native name row ms =
     set_last_ack (row_id row)
       (map (\<lambda>m. m\<lparr>outbox_name := Some name, headers := Some (row_headers row),
                     created_at := Some (row_created_at row)\<rparr>) ms)"

fun decode_native_rows ::
    "source_env \<Rightarrow> string \<Rightarrow> string \<Rightarrow> outbox_row list \<Rightarrow> int list \<Rightarrow>
       int list \<times> (relay_error + relay_message list)" where
  "decode_native_rows env name template [] pending = (pending, Inr [])"
| "decode_native_rows env name template (row # rows) pending =
     (let pending' = pending @ pending_oid (row_payload row) in
      case decode_payload env (row_payload row) (row_id row) of
        Inl e \<Rightarrow> (pending', Inl e)
      | Inr b \<Rightarrow>
          (let ms = stamp_native name row (into_messages b (''outbox_'' @ name) template);
               (p, r) = decode_native_rows env name template rows pending'
           in (p, and_then r (\<lambda>rest. Inr (ms @ rest)))))"

fun decode_group_rows ::
    "source_env \<Rightarrow> string \<Rightarrow> string \<Rightarrow> (int \<times> json) list \<Rightarrow> relay_error + relay_message list" where
  "decode_group_rows env name template [] = Inr []"
| "decode_group_rows env name template ((oid, pl) # rows) =
     and_then (decode_payload env pl oid) (\<lambda>b.
     and_then (decode_group_rows env name template rows) (\<lambda>rest.
       Inr (set_last_ack oid
              (map (\<lambda>m. m\<lparr>outbox_name := Some name\<rparr>) (into_messages b (''outbox_'' @ name) template))
            @ rest)))"

section \<open>Polling\<close>

text \<open>
  \<open>SELECT .. WHERE outbox_name = $1 AND id > $2 ORDER BY id LIMIT $3\<close>; PostgreSQL rejects a
  negative limit.
\<close>

definition rows_after :: "string \<Rightarrow> int \<Rightarrow> tide_db \<Rightarrow> outbox_row list" where
  "rows_after name off db =
     sort_key row_id (filter (\<lambda>r. row_outbox r = name \<and> off < row_id r) (outbox_messages db))"

definition negative_limit :: pg_error where
  "negative_limit = \<lparr> sqlstate = Some ''2201W'', pg_text = ''LIMIT must not be negative'' \<rparr>"

definition fence_error :: "pg_error \<Rightarrow> relay_error" where
  "fence_error e = Other (''acquire outbox fence failed: '' @ pg_text e)"

definition fenced_native_rows ::
    "source_env \<Rightarrow> string \<Rightarrow> int \<Rightarrow> int \<Rightarrow> tide_db \<Rightarrow> relay_error + outbox_row list" where
  "fenced_native_rows env name off n db =
     and_then (stmt (se_begin env)) (\<lambda>_.
     and_then (case se_lock env of None \<Rightarrow> Inr () | Some e \<Rightarrow> Inl (fence_error e)) (\<lambda>_.
     and_then (stmt (se_query env)) (\<lambda>_.
     and_then (if n < 0 then Inl (Postgres negative_limit) else Inr (take (nat n) (rows_after name off db))) (\<lambda>rows.
     and_then (stmt (se_commit env)) (\<lambda>_. Inr rows)))))"

definition poll_simple_native ::
    "source_env \<Rightarrow> string \<Rightarrow> string \<Rightarrow> int \<Rightarrow> int \<Rightarrow> tide_db \<Rightarrow>
       int list \<times> (relay_error + relay_message list)" where
  "poll_simple_native env name template off n db =
     (case fenced_native_rows env name off n db of
        Inl e \<Rightarrow> ([], Inl e)
      | Inr rows \<Rightarrow> decode_native_rows env name template rows [])"

text \<open>The heartbeat after an empty poll is best effort: its error is dropped.\<close>

definition try_heartbeat :: "source_env \<Rightarrow> consumer_group_config \<Rightarrow> tide_db \<Rightarrow> tide_db" where
  "try_heartbeat env g db =
     (case consumer_heartbeat (\<lambda>_. None) (se_now env) (cg_group g) (cg_consumer g) db of
        Inl _ \<Rightarrow> db | Inr db' \<Rightarrow> db')"

definition poll_consumer_group ::
    "source_env \<Rightarrow> consumer_group_config \<Rightarrow> string \<Rightarrow> string \<Rightarrow> int \<Rightarrow> tide_db \<Rightarrow>
       tide_db \<times> (relay_error + relay_message list)" where
  "poll_consumer_group env g name template n db =
     (case and_then (stmt (se_begin env)) (\<lambda>_.
           and_then (case se_lock env of None \<Rightarrow> Inr () | Some e \<Rightarrow> Inl (fence_error e)) (\<lambda>_.
           and_then (map_err Postgres (poll_outbox env (cg_group g) (cg_consumer g) n (cg_visibility g) db)) (\<lambda>r.
           and_then (stmt (se_commit env)) (\<lambda>_. Inr r)))) of
        Inl e \<Rightarrow> (db, Inl e)
      | Inr (rows, db') \<Rightarrow>
          (if rows = [] then (try_heartbeat env g db', Inr [])
           else (db', decode_group_rows env name template rows)))"

definition poll :: "source_env \<Rightarrow> int \<Rightarrow> outbox_source \<Rightarrow> tide_db \<Rightarrow>
    outbox_source \<times> tide_db \<times> (relay_error + relay_message list)" where
  "poll env n s db =
     (case s_consumer s of
        Some g \<Rightarrow>
          (let (db', r) = poll_consumer_group env g (s_outbox s) (s_template s) (as_i32 n) db
           in (s\<lparr>s_pending := []\<rparr>, db', r))
      | None \<Rightarrow>
          (let (p, r) = poll_simple_native env (s_outbox s) (s_template s) (s_last_offset s) n db
           in (s\<lparr>s_pending := p\<rparr>, db, r)))"

section \<open>Acknowledging\<close>

text \<open>
  \<open>update_simple_offset\<close>: the upsert keeps the greater offset and returns it.  The failpoint
  after it leaves the new offset in the database although the call fails.
\<close>

definition update_simple_offset ::
    "source_env \<Rightarrow> string \<Rightarrow> string \<Rightarrow> string \<Rightarrow> int \<Rightarrow> string \<Rightarrow> tide_db \<Rightarrow>
       tide_db \<times> (relay_error + unit)" where
  "update_simple_offset env grp pid name off worker db =
     (if off < 0
      then (db, Inl (Other (''relay offset for pipeline '' @ quoted pid @ '' must be non-negative'')))
      else case se_offset env of
        Some e \<Rightarrow> (db, Inl (Postgres e))
      | None \<Rightarrow>
          (let row = \<lparr> ro_group = grp, ro_pipeline = pid, ro_outbox = name, last_change_id = off,
                       ro_worker = worker, ro_tenant = ''default'' \<rparr>;
               db' = db\<lparr>relay_offsets := upsert_offset row (relay_offsets db)\<rparr>
           in (db', case find_offset (grp, pid, name) (relay_offsets db') of
                      None \<Rightarrow> Inl (Other ''offset commit wrote zero rows'')
                    | Some v \<Rightarrow>
                        if off \<le> v then hit (se_failpoint env) ''after_offset_db_commit_before_cleanup''
                        else Inl (Other ''offset commit moved backwards''))))"

definition commit_group_offset ::
    "source_env \<Rightarrow> consumer_group_config \<Rightarrow> int \<Rightarrow> tide_db \<Rightarrow> tide_db \<times> (relay_error + unit)" where
  "commit_group_offset env g off db =
     (case se_offset env of
        Some e \<Rightarrow> (db, Inl (Postgres e))
      | None \<Rightarrow>
          (case commit_offset (\<lambda>_. None) (se_now env) (cg_group g) (cg_consumer g) off db of
             Inl e \<Rightarrow> (db, Inl (Postgres (raised e)))
           | Inr db' \<Rightarrow> (db', Inr ())))"

text \<open>
  The result carries the large objects whose unlinking is attempted; a failed unlink is only
  logged.
\<close>

definition acknowledge ::
    "source_env \<Rightarrow> relay_message \<Rightarrow> outbox_source \<Rightarrow> tide_db \<Rightarrow>
       outbox_source \<times> tide_db \<times> (relay_error + int list)" where
  "acknowledge env m s db =
     (let (s1, db1, r) =
        (case ack_token m of
           NoAck \<Rightarrow> (s, db, Inr ())
         | OutboxOffset off \<Rightarrow>
             (case s_consumer s of
                Some g \<Rightarrow> (let (db', r) = commit_group_offset env g off db in (s, db', r))
              | None \<Rightarrow>
                  (let (db', r) =
                         (if s_replay s then (db, Inr ())
                          else update_simple_offset env (s_group s) (s_pipeline s) (s_outbox s) off
                                 (s_worker s) db)
                   in (if r = Inr () then s\<lparr>s_last_offset := max (s_last_offset s) off\<rparr> else s, db', r))))
      in case r of
           Inl e \<Rightarrow> (s1, db1, Inl e)
         | Inr _ \<Rightarrow> (s1\<lparr>s_pending := []\<rparr>, db1, Inr (if s_replay s then [] else s_pending s)))"

section \<open>What a poll returns\<close>

lemma hit_Inr_iff [result_simps]: "hit fp n = Inr u \<longleftrightarrow> fp n = None"
  by (auto simp: hit_def split: option.splits)

lemma stmt_Inr_iff [result_simps]: "stmt x = Inr u \<longleftrightarrow> x = None"
  by (auto simp: stmt_def split: option.splits)

lemma decode_payload_Inr:
  "decode_payload env pl oid = Inr b \<Longrightarrow> b_outbox_id b = oid \<and> b_refresh_id b = None
     \<and> b_deleted b = [] \<and> (\<exists>full. b_inserted b = [full] \<and> (\<not> is_claim_check pl \<longrightarrow> full = pl))"
  by (auto simp: decode_payload_def and_then_Inr_iff split: if_splits)

lemma decode_payload_plain:
  "\<not> is_claim_check pl \<Longrightarrow> \<exists>b. decode_payload env pl oid = Inr b \<and> b_inserted b = [pl]"
  by (simp add: decode_payload_def)

lemma into_messages_single:
  "b_inserted b = [full] \<Longrightarrow> b_deleted b = [] \<Longrightarrow>
     \<exists>m. into_messages b t s = [m] \<and> dedup_key m = forward_key t (b_outbox_id b) 0
       \<and> outbox_id m = Some (b_outbox_id b) \<and> payload m = full"
  by (simp add: into_messages_def new_forward_def)

definition message_of :: "string \<Rightarrow> outbox_row \<Rightarrow> relay_message \<Rightarrow> bool" where
  "message_of name row m \<longleftrightarrow>
     dedup_key m = forward_key (''outbox_'' @ name) (row_id row) 0
   \<and> outbox_id m = Some (row_id row) \<and> ack_token m = OutboxOffset (row_id row)
   \<and> outbox_name m = Some name \<and> headers m = Some (row_headers row)
   \<and> (\<not> is_claim_check (row_payload row) \<longrightarrow> payload m = row_payload row)"

lemma stamp_native_single:
  assumes "decode_payload env (row_payload row) (row_id row) = Inr b"
  shows "\<exists>m. stamp_native name row (into_messages b (''outbox_'' @ name) t) = [m] \<and> message_of name row m"
proof -
  from decode_payload_Inr [OF assms] obtain full where
    b: "b_outbox_id b = row_id row" "b_inserted b = [full]" "b_deleted b = []"
      "\<not> is_claim_check (row_payload row) \<longrightarrow> full = row_payload row" by blast
  from into_messages_single [OF b(2,3), of "''outbox_'' @ name" t] b(1,4) show ?thesis
    by (auto simp: stamp_native_def set_last_ack_def message_of_def)
qed

lemma decode_native_rows_Inr:
  "decode_native_rows env name t rows p = (p', Inr ms) \<Longrightarrow> list_all2 (message_of name) rows ms"
proof (induction rows arbitrary: p p' ms)
  case (Cons row rows)
  show ?case
  proof (cases "decode_payload env (row_payload row) (row_id row)")
    case (Inl e)
    with Cons.prems show ?thesis by (simp add: Let_def)
  next
    case (Inr b)
    obtain q r where qr: "decode_native_rows env name t rows (p @ pending_oid (row_payload row)) = (q, r)"
      by fastforce
    from stamp_native_single [OF Inr, of name t] obtain m where
      m: "stamp_native name row (into_messages b (''outbox_'' @ name) t) = [m]" "message_of name row m"
      by blast
    from Cons.prems Inr qr m(1) obtain rest where rest: "r = Inr rest" "ms = m # rest"
      by (auto simp: Let_def and_then_Inr_iff)
    from Cons.IH [of _ q rest] qr rest(1) have "list_all2 (message_of name) rows rest" by blast
    with rest(2) m(2) show ?thesis by simp
  qed
qed simp

lemma decode_native_rows_Inl:
  "decode_native_rows env name t rows p = (p', Inl e) \<Longrightarrow>
     \<exists>row \<in> set rows. is_claim_check (row_payload row) \<and> decode_payload env (row_payload row) (row_id row) = Inl e"
proof (induction rows arbitrary: p p')
  case (Cons row rows)
  show ?case
  proof (cases "decode_payload env (row_payload row) (row_id row)")
    case (Inl e')
    then have "is_claim_check (row_payload row)"
      using decode_payload_plain [of "row_payload row" env "row_id row"] by auto
    with Cons.prems Inl show ?thesis by (simp add: Let_def)
  next
    case (Inr b)
    obtain q r where qr: "decode_native_rows env name t rows (p @ pending_oid (row_payload row)) = (q, r)"
      by fastforce
    with Cons.prems Inr have "r = Inl e" by (cases r) (auto simp: Let_def)
    with Cons.IH qr show ?thesis by auto
  qed
qed simp

lemma set_rows_after [simp]:
  "set (rows_after name off db) = {r \<in> set (outbox_messages db). row_outbox r = name \<and> off < row_id r}"
  by (auto simp: rows_after_def)

lemma sorted_rows_after: "sorted (map row_id (rows_after name off db))"
  by (simp add: rows_after_def)

text \<open>A polled prefix skips nothing: every row up to a polled id is polled.\<close>

lemma rows_after_prefix:
  assumes "r \<in> set (take n (rows_after name off db))"
    and "r' \<in> set (rows_after name off db)" and "row_id r' \<le> row_id r"
  shows "\<exists>q \<in> set (take n (rows_after name off db)). row_id q = row_id r'"
proof (rule ccontr)
  assume "\<not> ?thesis"
  then have "row_id r' \<notin> set (take n (map row_id (rows_after name off db)))"
    by (auto simp: take_map)
  moreover have "row_id r' \<in> set (map row_id (rows_after name off db))" using assms(2) by auto
  moreover have "row_id r \<in> set (take n (map row_id (rows_after name off db)))"
    using assms(1) by (auto simp: take_map)
  ultimately have "row_id r \<le> row_id r'" using sorted_take_le [OF sorted_rows_after] by blast
  with assms(3) have "row_id r = row_id r'" by simp
  with \<open>\<not> ?thesis\<close> assms(1) show False by blast
qed

lemma fenced_native_rows_Inr:
  "fenced_native_rows env name off n db = Inr rows \<Longrightarrow> 0 \<le> n \<and> rows = take (nat n) (rows_after name off db)"
  by (auto simp: fenced_native_rows_def and_then_Inr_iff split: if_splits)

definition polled_rows :: "int \<Rightarrow> outbox_source \<Rightarrow> tide_db \<Rightarrow> outbox_row list" where
  "polled_rows n s db = take (nat n) (rows_after (s_outbox s) (s_last_offset s) db)"

lemma poll_simple:
  assumes "s_consumer s = None" and "poll env n s db = (s', db', Inr ms)"
  shows "db' = db" and "s' = s\<lparr>s_pending := s_pending s'\<rparr>"
    and "list_all2 (message_of (s_outbox s)) (polled_rows n s db) ms"
proof -
  obtain p r where pr: "poll_simple_native env (s_outbox s) (s_template s) (s_last_offset s) n db = (p, r)"
    by fastforce
  with assms show "db' = db" "s' = s\<lparr>s_pending := s_pending s'\<rparr>" by (auto simp: poll_def)
  from pr assms have r: "r = Inr ms" by (auto simp: poll_def)
  with pr obtain rows where
    rows: "fenced_native_rows env (s_outbox s) (s_last_offset s) n db = Inr rows"
      "decode_native_rows env (s_outbox s) (s_template s) rows [] = (p, Inr ms)"
    by (auto simp: poll_simple_native_def split: sum.splits)
  from decode_native_rows_Inr [OF rows(2)] fenced_native_rows_Inr [OF rows(1)]
  show "list_all2 (message_of (s_outbox s)) (polled_rows n s db) ms"
    by (simp add: polled_rows_def)
qed

lemma poll_state:
  "s_consumer s = None \<Longrightarrow> poll env n s db = (s', db', r) \<Longrightarrow>
     db' = db \<and> (\<exists>p. s' = s\<lparr>s_pending := p\<rparr>)"
  by (auto simp: poll_def split: prod.splits)

lemma poll_last_ack:
  assumes "s_consumer s = None" and "poll env n s db = (s', db', Inr ms)" and "ms \<noteq> []"
  shows "polled_rows n s db \<noteq> [] \<and> ack_token (last ms) = OutboxOffset (row_id (last (polled_rows n s db)))
    \<and> row_id (last (polled_rows n s db)) > s_last_offset s
    \<and> (\<forall>r \<in> set (polled_rows n s db). row_id r \<le> row_id (last (polled_rows n s db)))"
proof -
  let ?rs = "polled_rows n s db"
  have l: "list_all2 (message_of (s_outbox s)) ?rs ms" using poll_simple(3) [OF assms(1,2)] .
  with assms(3) have ne: "?rs \<noteq> []" by auto
  with l assms(3) have "message_of (s_outbox s) (last ?rs) (last ms)"
    by (simp add: last_conv_nth list_all2_conv_all_nth)
  moreover have "last ?rs \<in> set (rows_after (s_outbox s) (s_last_offset s) db)"
    using ne unfolding polled_rows_def by (meson in_set_takeD last_in_set)
  moreover have "sorted (map row_id ?rs)"
    using sorted_rows_after unfolding polled_rows_def by (metis sorted_wrt_take take_map)
  then have "\<forall>r \<in> set ?rs. row_id r \<le> row_id (last ?rs)"
    using ne sorted_last_ge [of "map row_id ?rs"] by (auto simp: last_map)
  ultimately show ?thesis using ne by (simp add: message_of_def)
qed

section \<open>What an acknowledgement does\<close>

definition source_key :: "outbox_source \<Rightarrow> string \<times> string \<times> string" where
  "source_key s = (s_group s, s_pipeline s, s_outbox s)"

lemma update_simple_offset_ok:
  assumes "update_simple_offset env grp pid name off worker db = (db', r)"
  shows "(db' = db \<and> (off < 0 \<or> se_offset env \<noteq> None) \<and> r \<noteq> Inr ())
    \<or> (0 \<le> off \<and> db' = db\<lparr>relay_offsets := relay_offsets db'\<rparr>
       \<and> find_offset (grp, pid, name) (relay_offsets db') =
           Some (case find_offset (grp, pid, name) (relay_offsets db) of None \<Rightarrow> off | Some v \<Rightarrow> max v off)
       \<and> (\<forall>k. k \<noteq> (grp, pid, name) \<longrightarrow> find_offset k (relay_offsets db') = find_offset k (relay_offsets db))
       \<and> offset_key ` set (relay_offsets db') = insert (grp, pid, name) (offset_key ` set (relay_offsets db))
       \<and> r = hit (se_failpoint env) ''after_offset_db_commit_before_cleanup'')"
proof (cases "off < 0 \<or> se_offset env \<noteq> None")
  case True
  with assms have "db' = db \<and> r \<noteq> Inr ()" by (auto simp: update_simple_offset_def split: if_splits)
  with True show ?thesis by blast
next
  case False
  define row where "row = \<lparr> ro_group = grp, ro_pipeline = pid, ro_outbox = name, last_change_id = off,
                       ro_worker = worker, ro_tenant = ''default'' \<rparr>"
  have k: "offset_key row = (grp, pid, name)" "last_change_id row = off"
    by (simp_all add: offset_key_def row_def)
  from False assms have db': "db' = db\<lparr>relay_offsets := upsert_offset row (relay_offsets db)\<rparr>"
    and r: "r = (case find_offset (grp, pid, name) (relay_offsets db') of
                      None \<Rightarrow> Inl (Other ''offset commit wrote zero rows'')
                    | Some v \<Rightarrow>
                        if off \<le> v then hit (se_failpoint env) ''after_offset_db_commit_before_cleanup''
                        else Inl (Other ''offset commit moved backwards''))"
    by (auto simp: update_simple_offset_def row_def Let_def)
  have f: "find_offset (grp, pid, name) (relay_offsets db') =
           Some (case find_offset (grp, pid, name) (relay_offsets db) of None \<Rightarrow> off | Some v \<Rightarrow> max v off)"
    using find_offset_upsert_same [of row "relay_offsets db"] k db' by (simp split: option.splits)
  moreover have "r = hit (se_failpoint env) ''after_offset_db_commit_before_cleanup''"
    using r f by (auto split: option.splits)
  moreover have "\<forall>k'. k' \<noteq> (grp, pid, name) \<longrightarrow> find_offset k' (relay_offsets db') = find_offset k' (relay_offsets db)"
    using find_offset_upsert_other k db' by simp
  moreover have "offset_key ` set (relay_offsets db') = insert (grp, pid, name) (offset_key ` set (relay_offsets db))"
    using offset_keys_upsert k db' by simp
  ultimately show ?thesis using False db' by simp
qed

lemma acknowledge_replay:
  "s_consumer s = None \<Longrightarrow> s_replay s \<Longrightarrow> acknowledge env m s db = (s', db', r) \<Longrightarrow>
     db' = db \<and> r = Inr [] \<and> s_replay s' \<and> s_consumer s' = None"
  by (auto simp: acknowledge_def split: ack_token.splits)

definition source_same :: "outbox_source \<Rightarrow> outbox_source \<Rightarrow> bool" where
  "source_same s s' \<longleftrightarrow> s' = s\<lparr>s_last_offset := s_last_offset s', s_pending := s_pending s'\<rparr>"

lemma source_same_refl [simp]: "source_same s s"
  by (simp add: source_same_def)

lemma source_same_trans: "source_same a b \<Longrightarrow> source_same b c \<Longrightarrow> source_same a c"
  by (metis (no_types, lifting) outbox_source.surjective outbox_source.update_convs(7,8) source_same_def)

lemma source_same_simps:
  "source_same s s' \<Longrightarrow> s_consumer s' = s_consumer s" "source_same s s' \<Longrightarrow> s_replay s' = s_replay s"
  "source_same s s' \<Longrightarrow> s_outbox s' = s_outbox s" "source_same s s' \<Longrightarrow> source_key s' = source_key s"
  "source_same s s' \<Longrightarrow> s_template s' = s_template s" "source_same s s' \<Longrightarrow> s_pipeline s' = s_pipeline s"
  unfolding source_same_def source_key_def
  by (metis outbox_source.select_convs outbox_source.surjective outbox_source.update_convs(7,8))+

text \<open>
  The effect of a checkpoint at \<open>off\<close>: none at all, or the durable offset of the pipeline is
  raised to \<open>off\<close> and the cursor in memory is raised or left.
\<close>

definition advanced :: "int \<Rightarrow> outbox_source \<Rightarrow> tide_db \<Rightarrow> outbox_source \<Rightarrow> tide_db \<Rightarrow> bool" where
  "advanced off s db s' db' \<longleftrightarrow>
     0 \<le> off
   \<and> find_offset (source_key s) (relay_offsets db') =
       Some (case find_offset (source_key s) (relay_offsets db) of None \<Rightarrow> off | Some v \<Rightarrow> max v off)
   \<and> (\<forall>k. k \<noteq> source_key s \<longrightarrow> find_offset k (relay_offsets db') = find_offset k (relay_offsets db))
   \<and> offset_key ` set (relay_offsets db') = insert (source_key s) (offset_key ` set (relay_offsets db))
   \<and> (s_last_offset s' = s_last_offset s \<or> s_last_offset s' = max (s_last_offset s) off)"

definition checkpoint_effect :: "int \<Rightarrow> outbox_source \<Rightarrow> tide_db \<Rightarrow> outbox_source \<Rightarrow> tide_db \<Rightarrow> bool" where
  "checkpoint_effect off s db s' db' \<longleftrightarrow>
     source_same s s' \<and> db' = db\<lparr>relay_offsets := relay_offsets db'\<rparr>
   \<and> ((relay_offsets db' = relay_offsets db \<and> s_last_offset s' = s_last_offset s) \<or> advanced off s db s' db')"

lemma acknowledge_live:
  assumes "s_consumer s = None" and "\<not> s_replay s" and "ack_token m = OutboxOffset off"
    and "acknowledge env m s db = (s', db', r)"
  shows "checkpoint_effect off s db s' db'" and "r = Inr u \<Longrightarrow> advanced off s db s' db'"
proof -
  obtain db1 r1 where u: "update_simple_offset env (s_group s) (s_pipeline s) (s_outbox s) off (s_worker s) db = (db1, r1)"
    by fastforce
  from u assms have a: "db' = db1"
    "s' = (if r1 = Inr () then s\<lparr>s_last_offset := max (s_last_offset s) off, s_pending := []\<rparr> else s)"
    "r1 \<noteq> Inr () \<Longrightarrow> r \<noteq> Inr u"
    by (auto simp: acknowledge_def Let_def split: sum.splits)
  have same: "source_same s s'" using a(2) by (simp add: source_same_def)
  from update_simple_offset_ok [OF u]
  have d: "(db1 = db \<and> r1 \<noteq> Inr ()) \<or>
    (0 \<le> off \<and> db1 = db\<lparr>relay_offsets := relay_offsets db1\<rparr>
       \<and> find_offset (source_key s) (relay_offsets db1) =
           Some (case find_offset (source_key s) (relay_offsets db) of None \<Rightarrow> off | Some v \<Rightarrow> max v off)
       \<and> (\<forall>k. k \<noteq> source_key s \<longrightarrow> find_offset k (relay_offsets db1) = find_offset k (relay_offsets db))
       \<and> offset_key ` set (relay_offsets db1) = insert (source_key s) (offset_key ` set (relay_offsets db)))"
    unfolding source_key_def by blast
  show "checkpoint_effect off s db s' db'"
    using d same a(1,2) unfolding checkpoint_effect_def advanced_def by auto
  show "r = Inr u \<Longrightarrow> advanced off s db s' db'"
    using d a unfolding advanced_def by auto
qed

section \<open>Properties\<close>

text \<open>
  C18: A successful poll of a native source returns one message per row, in the order of the ids,
  and skips nothing: every row of the outbox above the cursor and not above the last polled
  row is among them.  The last message carries the id of the last row as its acknowledgement,
  and polling writes nothing.
\<close>

theorem poll_returns_gap_free_prefix:
  assumes "s_consumer s = None" and "poll env n s db = (s', db', Inr ms)"
  shows "db' = db \<and> (\<exists>rows. list_all2 (message_of (s_outbox s)) rows ms \<and> sorted (map row_id rows)
    \<and> length rows \<le> nat n
    \<and> (\<forall>r \<in> set rows. r \<in> set (outbox_messages db) \<and> row_outbox r = s_outbox s \<and> s_last_offset s < row_id r)
    \<and> (\<forall>r \<in> set (outbox_messages db). row_outbox r = s_outbox s \<longrightarrow> s_last_offset s < row_id r \<longrightarrow>
         rows \<noteq> [] \<longrightarrow> row_id r \<le> row_id (last rows) \<longrightarrow> row_id r \<in> row_id ` set rows))"
proof (intro conjI exI [of _ "polled_rows n s db"] ballI impI)
  let ?rows = "polled_rows n s db"
  have sub: "set ?rows \<subseteq> set (rows_after (s_outbox s) (s_last_offset s) db)"
    by (auto simp: polled_rows_def simp del: set_rows_after dest: in_set_takeD)
  show "db' = db" "list_all2 (message_of (s_outbox s)) ?rows ms" using poll_simple [OF assms] by auto
  show "sorted (map row_id ?rows)"
    using sorted_rows_after unfolding polled_rows_def by (metis sorted_wrt_take take_map)
  show "length ?rows \<le> nat n" by (simp add: polled_rows_def)
  show "r \<in> set (outbox_messages db)" "row_outbox r = s_outbox s" "s_last_offset s < row_id r" if "r \<in> set ?rows" for r
    using sub that by auto
  fix r
  assume "r \<in> set (outbox_messages db)" "row_outbox r = s_outbox s" "s_last_offset s < row_id r"
    "?rows \<noteq> []" "row_id r \<le> row_id (last ?rows)"
  then have "\<exists>q \<in> set ?rows. row_id q = row_id r"
    unfolding polled_rows_def by (intro rows_after_prefix [OF last_in_set]) simp_all
  then show "row_id r \<in> row_id ` set ?rows" by (metis imageI)
qed

text \<open>
  C19: Acknowledging a message moves the durable offset of its own pipeline to the greater of the old
  one and the acknowledged one, or leaves it when the statement fails: it never goes back, and
  no other pipeline's offset and no other table changes.
\<close>

theorem acknowledge_never_moves_back:
  assumes "s_consumer s = None" and "\<not> s_replay s" and "ack_token m = OutboxOffset off"
    and "acknowledge env m s db = (s', db', r)"
  shows "db' = db\<lparr>relay_offsets := relay_offsets db'\<rparr>
    \<and> unwrap_or (find_offset (source_key s) (relay_offsets db)) 0 \<le>
        max 0 (unwrap_or (find_offset (source_key s) (relay_offsets db')) 0)
    \<and> (\<forall>k. k \<noteq> source_key s \<longrightarrow> find_offset k (relay_offsets db') = find_offset k (relay_offsets db))
    \<and> s_last_offset s \<le> s_last_offset s'
    \<and> (is_ok r \<longrightarrow> off \<le> unwrap_or (find_offset (source_key s) (relay_offsets db')) 0)"
proof -
  have e: "checkpoint_effect off s db s' db'" using acknowledge_live(1) [OF assms] .
  have "is_ok r \<Longrightarrow> advanced off s db s' db'"
    using acknowledge_live(2) [OF assms] by (auto simp: is_ok_iff)
  then show ?thesis
    using e by (auto simp: checkpoint_effect_def advanced_def max_def split: option.splits if_splits)
qed

text \<open>
  A replay writes nothing: acknowledging its messages leaves the database as it is and hands no
  large object to the cleanup.
\<close>

lemma replay_writes_nothing:
  assumes "configure_replay off s = Inr s1" and "acknowledge env m s1 db = (s2, db', r)"
  shows "db' = db \<and> r = Inr [] \<and> s_replay s2"
  using assms acknowledge_replay [of s1 env m db s2 db' r]
  by (auto simp: configure_replay_def split: if_splits)

end
