(* ===== verification/Nats_Subject.thy ===== *)
theory Nats_Subject
  imports Envelope
begin

text \<open>
  The subject part of \<open>pg-tide-relay/src/sink/nats.rs\<close>: how the NATS sink chooses, validates
  and renders the destination subject of a message.
\<close>

datatype subject_spec = Fixed string | Template string

definition default_template :: subject_spec where
  "default_template = Template ''{outbox}.{op}''"

fun subject_from_config :: "string option \<Rightarrow> string option \<Rightarrow> subject_spec" where
  "subject_from_config subj tmpl =
     (case subj of
        Some s \<Rightarrow> if s \<noteq> [] then Fixed s
                  else (case tmpl of Some t \<Rightarrow> if t \<noteq> [] then Template t else default_template
                                   | None \<Rightarrow> default_template)
      | None \<Rightarrow> (case tmpl of Some t \<Rightarrow> if t \<noteq> [] then Template t else default_template
                           | None \<Rightarrow> default_template))"

definition nats_empty_token :: relay_error where
  "nats_empty_token = Config ''nats subject must not contain empty tokens''"

definition nats_bad_char :: relay_error where
  "nats_bad_char = Config ''nats subject contains whitespace or control characters''"

definition nats_bad_star :: relay_error where
  "nats_bad_star = Config ''nats wildcard must occupy a complete token''"

definition nats_bad_gt :: relay_error where
  "nats_bad_gt = Config ''nats terminal wildcard must be the final token''"

definition validate_token :: "nat \<Rightarrow> nat \<times> string \<Rightarrow> relay_error + unit" where
  "validate_token n = (\<lambda>(i, tok).
     if has_whitespace tok \<or> has_control tok then Inl nats_bad_char
     else if CHR ''*'' \<in> set tok \<and> tok \<noteq> ''*'' then Inl nats_bad_star
     else if CHR ''>'' \<in> set tok \<and> (tok \<noteq> ''>'' \<or> i + 1 \<noteq> n) then Inl nats_bad_gt
     else Inr ())"

definition validate_subject :: "string \<Rightarrow> relay_error + unit" where
  "validate_subject subj =
     (let tokens = split_on CHR ''.'' subj in
      if subj = [] \<or> list_ex (\<lambda>t. t = []) tokens then Inl nats_empty_token
      else checks (map (validate_token (length tokens)) (enumerate 0 tokens)))"

fun validate_spec :: "subject_spec \<Rightarrow> relay_error + unit" where
  "validate_spec (Fixed s) = validate_subject s"
| "validate_spec (Template s) = validate_subject s"

definition nats_render_subject :: "string \<Rightarrow> relay_message \<Rightarrow> string" where
  "nats_render_subject template m =
     (let outbox = unwrap_or (outbox_name m) [];
          stream_table = (if outbox = [] then [] else ''outbox_'' @ outbox);
          event_type = unwrap_or (Option.bind (Option.bind (headers m) (\<lambda>h. json_get h ''event_type'')) as_str)
                         ''event''
      in str_replace ''{event_type}'' event_type
          (str_replace ''{outbox_id}'' (case outbox_id m of None \<Rightarrow> [] | Some v \<Rightarrow> show_int v)
            (str_replace ''{op}'' (msg_op m)
              (str_replace ''{stream_table}'' stream_table
                (str_replace ''{outbox}'' outbox template)))))"

fun render_spec :: "subject_spec \<Rightarrow> relay_message \<Rightarrow> string" where
  "render_spec (Fixed s) m = s"
| "render_spec (Template t) m = nats_render_subject t m"

section \<open>Valid subjects\<close>

definition token_ok :: "nat \<Rightarrow> nat \<Rightarrow> string \<Rightarrow> bool" where
  "token_ok n i tok \<longleftrightarrow> \<not> has_whitespace tok \<and> \<not> has_control tok
     \<and> (CHR ''*'' \<in> set tok \<longrightarrow> tok = ''*'') \<and> (CHR ''>'' \<in> set tok \<longrightarrow> tok = ''>'' \<and> i + 1 = n)"

lemma validate_token_Inr_iff: "validate_token n (i, tok) = Inr () \<longleftrightarrow> token_ok n i tok"
  by (auto simp: validate_token_def token_ok_def)

lemma validate_subject_iff:
  "validate_subject subj = Inr () \<longleftrightarrow>
     subj \<noteq> [] \<and> [] \<notin> set (split_on CHR ''.'' subj) \<and>
     (\<forall>i < length (split_on CHR ''.'' subj).
        token_ok (length (split_on CHR ''.'' subj)) i (split_on CHR ''.'' subj ! i))"
proof -
  define ts where "ts = split_on CHR ''.'' subj"
  have "checks (map (validate_token (length ts)) (enumerate 0 ts)) = Inr () \<longleftrightarrow>
      (\<forall>x \<in> set (enumerate 0 ts). validate_token (length ts) x = Inr ())"
    by (simp add: checks_Inr_iff)
  also have "\<dots> \<longleftrightarrow> (\<forall>i < length ts. validate_token (length ts) (i, ts ! i) = Inr ())"
    by (force simp: in_set_conv_nth nth_enumerate_eq)
  finally have c: "checks (map (validate_token (length ts)) (enumerate 0 ts)) = Inr () \<longleftrightarrow>
      (\<forall>i < length ts. token_ok (length ts) i (ts ! i))"
    by (simp add: validate_token_Inr_iff)
  show ?thesis
    using c by (auto simp: validate_subject_def Let_def ts_def list_ex_iff)
qed

section \<open>Properties\<close>

text \<open>
  A subject is accepted exactly when it is a dot-separated list of non-empty tokens without white
  space or control characters, in which a star stands alone in its token and a greater-than sign
  is the whole last token.
\<close>

lemma subject_accepted_exactly:
  "validate_subject subj = Inr () \<longleftrightarrow>
     subj \<noteq> [] \<and> [] \<notin> set (split_on CHR ''.'' subj) \<and>
     (\<forall>i < length (split_on CHR ''.'' subj). token_ok (length (split_on CHR ''.'' subj)) i (split_on CHR ''.'' subj ! i))"
  by (rule validate_subject_iff)

lemma subject_accepted_exactly_example:
  "validate_subject ''a.*.b'' = Inr () \<and> validate_subject ''a..b'' \<noteq> Inr ()"
proof -
  have "split_on CHR ''.'' ''a.*.b'' = [''a'', ''*'', ''b'']" "split_on CHR ''.'' ''a..b'' = [''a'', [], ''b'']" by code_simp+
  moreover have "token_ok 3 0 ''a'' \<and> token_ok 3 1 ''*'' \<and> token_ok 3 2 ''b''" by code_simp
  ultimately show ?thesis
    using subject_accepted_exactly [of "''a.*.b''"] subject_accepted_exactly [of "''a..b''"]
    by (auto simp: less_Suc_eq numeral_3_eq_3 numeral_2_eq_2)
qed

end
