(* ===== verification/Descriptors.thy ===== *)
theory Descriptors
  imports Relay_Error
begin

text \<open>
  \<open>pg-tide-relay/src/descriptors.rs\<close>: the connector registry.  Capabilities are the limits
  and classifications every publish is checked against.  A cargo feature is a member of the
  set of features of the build, an argument of \<open>is_available\<close>.
\<close>

datatype direction = DirSource | DirSink | DirBidirectional | DirUnavailable
datatype ordering = OrdNone | OrdPerPipeline | OrdPerSubject | OrdPerPartition
datatype acknowledgment = AckSourcePoll | AckDestinationCommit | AckJetstream | AckBroker | AckHttp2xx
datatype deduplication = DedupNone | EventIdConstraint | StreamDuplicateWindow | ProducerSession | ReceiverContract
datatype tls_mode = TlsNotApplicable | TlsOptionalVerify | TlsRequiredVerify
datatype backpressure = BoundedBatch | PublishTimeout | HttpRetryAfter
datatype shutdown_mode = ShutImmediate | ShutFlush | ShutDrain

record capabilities =
  max_batch_size :: nat
  max_batch_bytes :: nat
  max_message_bytes :: nat
  c_ordering :: ordering
  c_acknowledgment :: acknowledgment
  c_deduplication :: deduplication
  retryable_errors :: "failure_code list"
  permanent_errors :: "failure_code list"
  c_tls :: tls_mode
  c_authentication :: "string list"
  c_backpressure :: backpressure
  c_shutdown :: shutdown_mode

record connector_descriptor =
  c_id :: string
  c_direction :: direction
  source_types :: "string list"
  sink_types :: "string list"
  cargo_feature :: "string option"
  maturity :: string
  config_fields :: "string list"
  c_capabilities :: "capabilities option"

definition outbox_connector :: connector_descriptor where
  "outbox_connector =
     \<lparr> c_id = ''postgresql-outbox'', c_direction = DirSource, source_types = [''outbox''],
       sink_types = [], cargo_feature = None, maturity = ''supported'',
       config_fields = [''outbox'', ''subject_template'', ''consumer_group'', ''consumer_id'',
                        ''visibility_seconds''],
       c_capabilities = Some
         \<lparr> max_batch_size = 1000, max_batch_bytes = 16777216, max_message_bytes = 1048576,
           c_ordering = OrdPerPipeline, c_acknowledgment = AckSourcePoll,
           c_deduplication = DedupNone,
           retryable_errors = [Unavailable, Timeout, Unknown],
           permanent_errors = [ProtocolRejection, InvalidConfigCode, ShutdownCode],
           c_tls = TlsNotApplicable, c_authentication = [''postgres-role''],
           c_backpressure = BoundedBatch, c_shutdown = ShutDrain \<rparr> \<rparr>"

definition diagnostics_connector :: connector_descriptor where
  "diagnostics_connector =
     \<lparr> c_id = ''diagnostics'', c_direction = DirSink, source_types = [],
       sink_types = [''stdout'', ''file''], cargo_feature = Some ''stdout'',
       maturity = ''supported'', config_fields = [], c_capabilities = None \<rparr>"

definition inbox_connector :: connector_descriptor where
  "inbox_connector =
     \<lparr> c_id = ''postgresql-inbox'', c_direction = DirSink, source_types = [],
       sink_types = [''inbox'', ''pg_outbox''], cargo_feature = None, maturity = ''supported'',
       config_fields = [''inbox'', ''postgres_url''],
       c_capabilities = Some
         \<lparr> max_batch_size = 1000, max_batch_bytes = 16777216, max_message_bytes = 1048576,
           c_ordering = OrdPerPipeline, c_acknowledgment = AckDestinationCommit,
           c_deduplication = EventIdConstraint,
           retryable_errors = [Unavailable, Timeout, Unknown],
           permanent_errors = [Authentication, Authorization, ProtocolRejection, MessageTooLarge,
                               InvalidConfigCode, ShutdownCode],
           c_tls = TlsRequiredVerify, c_authentication = [''password'', ''certificate''],
           c_backpressure = BoundedBatch, c_shutdown = ShutDrain \<rparr> \<rparr>"

definition nats_connector :: connector_descriptor where
  "nats_connector =
     \<lparr> c_id = ''nats-jetstream-sink'', c_direction = DirSink, source_types = [],
       sink_types = [''nats''], cargo_feature = Some ''nats'', maturity = ''supported'',
       config_fields = [''url'', ''subject'', ''subject_template''],
       c_capabilities = Some
         \<lparr> max_batch_size = 100, max_batch_bytes = 16777216, max_message_bytes = 1048576,
           c_ordering = OrdPerSubject, c_acknowledgment = AckJetstream,
           c_deduplication = StreamDuplicateWindow,
           retryable_errors = [Unavailable, Timeout, Throttled, Unknown],
           permanent_errors = [Authentication, Authorization, TlsVerification, InvalidDestination,
                               MessageTooLarge, ProtocolRejection, InvalidConfigCode, ShutdownCode],
           c_tls = TlsOptionalVerify, c_authentication = [''token'', ''user_password'', ''nkey''],
           c_backpressure = PublishTimeout, c_shutdown = ShutDrain \<rparr> \<rparr>"

definition webhook_connector :: connector_descriptor where
  "webhook_connector =
     \<lparr> c_id = ''webhook-sink'', c_direction = DirSink, source_types = [],
       sink_types = [''webhook''], cargo_feature = Some ''webhook'', maturity = ''supported'',
       config_fields = [''url'', ''timeout_secs'', ''allow_http'', ''ssrf_protection'',
                        ''signing_secret'', ''signing_algorithm''],
       c_capabilities = Some
         \<lparr> max_batch_size = 100, max_batch_bytes = 16777216, max_message_bytes = 1048576,
           c_ordering = OrdPerPipeline, c_acknowledgment = AckHttp2xx,
           c_deduplication = ReceiverContract,
           retryable_errors = [Unavailable, Timeout, Throttled, Unknown],
           permanent_errors = [Authentication, Authorization, ProtocolRejection, InvalidDestination,
                               TlsVerification, MessageTooLarge, InvalidConfigCode, ShutdownCode],
           c_tls = TlsRequiredVerify, c_authentication = [''hmac_sha256''],
           c_backpressure = HttpRetryAfter, c_shutdown = ShutDrain \<rparr> \<rparr>"

definition kafka_connector :: connector_descriptor where
  "kafka_connector =
     \<lparr> c_id = ''kafka-sink'', c_direction = DirSink, source_types = [],
       sink_types = [''kafka''], cargo_feature = Some ''kafka'', maturity = ''supported'',
       config_fields = [''brokers'', ''topic'', ''topic_template''],
       c_capabilities = Some
         \<lparr> max_batch_size = 100, max_batch_bytes = 16777216, max_message_bytes = 1048576,
           c_ordering = OrdPerPartition, c_acknowledgment = AckBroker,
           c_deduplication = ProducerSession,
           retryable_errors = [Unavailable, Timeout, Throttled, Unknown],
           permanent_errors = [Authentication, Authorization, InvalidDestination, MessageTooLarge,
                               ProtocolRejection, InvalidConfigCode, ShutdownCode],
           c_tls = TlsRequiredVerify, c_authentication = [''sasl_plain'', ''sasl_scram'', ''mtls''],
           c_backpressure = PublishTimeout, c_shutdown = ShutFlush \<rparr> \<rparr>"

definition connectors :: "connector_descriptor list" where
  "connectors = [outbox_connector, diagnostics_connector, inbox_connector, nats_connector,
                 webhook_connector, kafka_connector]"

definition v1_source_types :: "string list" where
  "v1_source_types = [''outbox'']"

definition v1_sink_types :: "string list" where
  "v1_sink_types = [''file'', ''inbox'', ''kafka'', ''nats'', ''pg_outbox'', ''stdout'', ''webhook'']"

definition sink_type_to_descriptor :: "string \<Rightarrow> connector_descriptor option" where
  "sink_type_to_descriptor t = List.find (\<lambda>d. t \<in> set (sink_types d)) connectors"

definition source_type_to_descriptor :: "string \<Rightarrow> connector_descriptor option" where
  "source_type_to_descriptor t = List.find (\<lambda>d. t \<in> set (source_types d)) connectors"

definition is_supported_sink_type :: "string \<Rightarrow> bool" where
  "is_supported_sink_type t \<longleftrightarrow> t \<in> set v1_sink_types"

text \<open>The features are those the source names; any other feature name makes it unavailable.\<close>

definition is_available :: "string set \<Rightarrow> connector_descriptor \<Rightarrow> bool" where
  "is_available features d =
     (case cargo_feature d of
        None \<Rightarrow> True
      | Some f \<Rightarrow> f \<in> {''kafka'', ''nats'', ''stdout'', ''webhook''} \<and> f \<in> features)"

section \<open>The registry is consistent\<close>

lemmas connector_defs =
  outbox_connector_def diagnostics_connector_def inbox_connector_def nats_connector_def
  webhook_connector_def kafka_connector_def

lemma connector_sink_types [simp]:
  "sink_types outbox_connector = []"
  "sink_types diagnostics_connector = [''stdout'', ''file'']"
  "sink_types inbox_connector = [''inbox'', ''pg_outbox'']"
  "sink_types nats_connector = [''nats'']"
  "sink_types webhook_connector = [''webhook'']"
  "sink_types kafka_connector = [''kafka'']"
  by (simp_all only: connector_defs connector_descriptor.simps)

lemma connector_source_types [simp]:
  "source_types outbox_connector = [''outbox'']"
  "source_types diagnostics_connector = []"
  "source_types inbox_connector = []"
  "source_types nats_connector = []"
  "source_types webhook_connector = []"
  "source_types kafka_connector = []"
  by (simp_all only: connector_defs connector_descriptor.simps)

lemma sink_descriptor_cases:
  "sink_type_to_descriptor t =
     (if t = ''stdout'' \<or> t = ''file'' then Some diagnostics_connector
      else if t = ''inbox'' \<or> t = ''pg_outbox'' then Some inbox_connector
      else if t = ''nats'' then Some nats_connector
      else if t = ''webhook'' then Some webhook_connector
      else if t = ''kafka'' then Some kafka_connector else None)"
  by (simp add: sink_type_to_descriptor_def connectors_def)

lemma source_descriptor_cases:
  "source_type_to_descriptor t = (if t = ''outbox'' then Some outbox_connector else None)"
  by (simp add: source_type_to_descriptor_def connectors_def)

lemma supported_sink_has_descriptor:
  "is_supported_sink_type t \<longleftrightarrow> (\<exists>d. sink_type_to_descriptor t = Some d)"
  by (auto simp: is_supported_sink_type_def v1_sink_types_def sink_descriptor_cases)

definition limits_ok :: "connector_descriptor \<Rightarrow> bool" where
  "limits_ok d \<longleftrightarrow>
     (case c_capabilities d of
        None \<Rightarrow> True
      | Some c \<Rightarrow>
          max_message_bytes c \<le> max_batch_bytes c \<and> 0 < max_batch_size c
        \<and> list_all (\<lambda>e. \<not> List.member (permanent_errors c) e) (retryable_errors c))"

lemma connector_limits:
  "limits_ok outbox_connector" "limits_ok diagnostics_connector" "limits_ok inbox_connector"
  "limits_ok nats_connector" "limits_ok webhook_connector" "limits_ok kafka_connector"
  by (simp_all add: limits_ok_def connector_defs)

lemma connectors_limits_ok: "list_all limits_ok connectors"
  by (simp add: connectors_def connector_limits)

lemma descriptor_in_connectors: "sink_type_to_descriptor t = Some d \<Longrightarrow> d \<in> set connectors"
  by (auto simp: sink_type_to_descriptor_def find_Some_iff)

lemma capability_limits:
  assumes "sink_type_to_descriptor t = Some d" and "c_capabilities d = Some c"
  shows "max_message_bytes c \<le> max_batch_bytes c \<and> 0 < max_batch_size c
    \<and> set (retryable_errors c) \<inter> set (permanent_errors c) = {}"
proof -
  have "limits_ok d"
    using connectors_limits_ok descriptor_in_connectors [OF assms(1)] by (simp add: list_all_iff)
  with assms(2) show ?thesis by (auto simp: limits_ok_def list_all_iff)
qed

section \<open>Properties\<close>

text \<open>
  A sink type is supported exactly when a connector describes it, and every connector's limits
  are coherent: one message fits a batch, batches are not empty, and no failure code is declared
  both retryable and permanent.
\<close>

lemma supported_sinks_have_coherent_limits:
  "is_supported_sink_type t \<longleftrightarrow>
     (\<exists>d \<in> set connectors. t \<in> set (sink_types d) \<and> limits_ok d)"
proof -
  have "is_supported_sink_type t \<longleftrightarrow> (\<exists>d \<in> set connectors. t \<in> set (sink_types d))"
    by (auto simp: is_supported_sink_type_def v1_sink_types_def connectors_def)
  then show ?thesis using connectors_limits_ok by (auto simp: list_all_iff)
qed

end
