(* ===== verification/Sinks.thy ===== *)
theory Sinks
  imports Nats_Subject Descriptors Ext_Base
begin

text \<open>
  \<open>pg-tide-relay/src/sink/\<close>: the destinations a batch is published to.  \<open>sink_contract\<close>
  is the interface the worker relies on (\<open>sink/mod.rs\<close>): a publish that returns success has
  put every deduplication key of the batch at the destination, a failed one may have put some
  of them there, and nothing is ever taken away.  The inbox tables (\<open>inbox.rs\<close>,
  \<open>pg_outbox.rs\<close>), the per-message senders (\<open>nats.rs\<close>, \<open>kafka.rs\<close>, \<open>stdout.rs\<close>) and the webhook
  are each an interpretation of it.  What a broker or server answers, and serde's encoding of
  a message, are arguments.
\<close>

section \<open>The contract\<close>

locale sink_contract =
  fixes publish :: "'env \<Rightarrow> relay_message list \<Rightarrow> 's \<Rightarrow> 's \<times> (relay_error + unit)"
    and holds :: "'s \<Rightarrow> string set"
  assumes publish_ok: "publish env ms s = (s', Inr ()) \<Longrightarrow> dedup_key ` set ms \<subseteq> holds s'"
    and publish_keeps: "publish env ms s = (s', r) \<Longrightarrow> holds s \<subseteq> holds s'"
    and publish_only: "publish env ms s = (s', r) \<Longrightarrow> holds s' \<subseteq> holds s \<union> dedup_key ` set ms"
begin

text \<open>Repeated attempts of one batch: the environment of each attempt is one list element.\<close>

fun attempts :: "'env list \<Rightarrow> relay_message list \<Rightarrow> 's \<Rightarrow> 's \<times> bool" where
  "attempts [] ms s = (s, False)"
| "attempts (e # es) ms s =
     (case publish e ms s of
        (s', Inr _) \<Rightarrow> (s', True)
      | (s', Inl _) \<Rightarrow> attempts es ms s')"

lemma attempts_keep: "attempts es ms s = (s', b) \<Longrightarrow> holds s \<subseteq> holds s'"
proof (induction es arbitrary: s)
  case (Cons e es)
  obtain s1 r where p: "publish e ms s = (s1, r)" by fastforce
  from publish_keeps [OF p] have k: "holds s \<subseteq> holds s1" .
  show ?case
  proof (cases r)
    case (Inl err)
    with p Cons.prems have "attempts es ms s1 = (s', b)" by simp
    from Cons.IH [OF this] k show ?thesis by blast
  next
    case (Inr u)
    with p Cons.prems k show ?thesis by simp
  qed
qed simp

text \<open>Duplicates of a retried batch never add a key the batch does not have.\<close>

lemma attempts_delivered:
  "attempts es ms s = (s', True) \<Longrightarrow> holds s' = holds s \<union> dedup_key ` set ms"
proof (induction es arbitrary: s)
  case (Cons e es)
  obtain s1 r where p: "publish e ms s = (s1, r)" by fastforce
  note k = publish_keeps [OF p] and only = publish_only [OF p]
  show ?case
  proof (cases r)
    case (Inl err)
    with p Cons.prems have "attempts es ms s1 = (s', True)" by simp
    from Cons.IH [OF this] k only show ?thesis by blast
  next
    case (Inr u)
    with p Cons.prems have "s' = s1" by simp
    moreover have "dedup_key ` set ms \<subseteq> holds s1" using publish_ok p Inr by (metis old.unit.exhaust)
    ultimately show ?thesis using k only by blast
  qed
qed simp

end

section \<open>The inbox tables\<close>

record inbox_row =
  ib_event_id :: string
  ib_source :: string
  ib_payload :: json
  ib_headers :: json

definition inbox_row_of :: "relay_message \<Rightarrow> inbox_row" where
  "inbox_row_of m =
     \<lparr> ib_event_id = dedup_key m, ib_source = subject m, ib_payload = payload m,
       ib_headers = JObj [(''event_type'', JStr (subject m))] \<rparr>"

text \<open>\<open>INSERT .. ON CONFLICT (event_id) DO NOTHING\<close>: the number of rows inserted and the table.\<close>

fun insert_new :: "inbox_row list \<Rightarrow> inbox_row list \<Rightarrow> nat \<times> inbox_row list" where
  "insert_new [] table = (0, table)"
| "insert_new (r # rs) table =
     (if ib_event_id r \<in> ib_event_id ` set table then insert_new rs table
      else (let (n, t) = insert_new rs (table @ [r]) in (Suc n, t)))"

record inbox_sink =
  is_name :: string
  is_relation :: string
  is_dedup :: u64
  is_table :: "inbox_row list"

definition new_inbox_sink :: "string \<Rightarrow> inbox_row list \<Rightarrow> relay_error + inbox_sink" where
  "new_inbox_sink table rows =
     and_then (validate_relay_identifier table) (\<lambda>_.
       Inr \<lparr> is_name = table, is_relation = ''tide.'' @ [CHR 0x22] @ table @ [CHR 0x22],
             is_dedup = 0, is_table = rows \<rparr>)"

text \<open>The catalog lookup gives the schema of a registered inbox; a failed query is an error.\<close>

definition resolve_inbox_relation ::
    "pg_error option \<Rightarrow> (string \<Rightarrow> string option) \<Rightarrow> string \<Rightarrow> relay_error + string" where
  "resolve_inbox_relation err catalog name =
     and_then (validate_relay_identifier name) (\<lambda>_.
     and_then (ensure (length name + length ''_inbox'' \<le> 63)
        (InvalidConfig name (''inbox relation name exceeds PostgreSQL'' @ [CHR 0x27] @ ''s 63-byte limit''))) (\<lambda>_.
     and_then (case err of None \<Rightarrow> Inr () | Some e \<Rightarrow> Inl (Postgres e)) (\<lambda>_.
     and_then (ok_or (catalog name)
        (InvalidConfig name ''logical inbox is not registered in tide.tide_inbox_config'')) (\<lambda>schema.
     and_then (validate_relay_identifier schema) (\<lambda>_.
       Inr ([CHR 0x22] @ schema @ [CHR 0x22] @ ''.'' @ [CHR 0x22] @ name @ ''_inbox'' @ [CHR 0x22]))))))"

definition not_registered :: "relay_error \<Rightarrow> bool" where
  "not_registered e = (case e of InvalidConfig _ reason \<Rightarrow> str_contains ''not registered'' reason | _ \<Rightarrow> False)"

text \<open>The remote sink falls back to a table of the schema \<open>tide\<close> for an unregistered \<open>*_inbox\<close>.\<close>

definition remote_inbox_relation ::
    "pg_error option \<Rightarrow> (string \<Rightarrow> string option) \<Rightarrow> string \<Rightarrow> relay_error + string" where
  "remote_inbox_relation err catalog table =
     and_then (validate_relay_identifier table) (\<lambda>_.
       case resolve_inbox_relation err catalog table of
         Inr rel \<Rightarrow> Inr rel
       | Inl e \<Rightarrow>
           if ends_with ''_inbox'' table \<and> not_registered e
           then Inr (''tide.'' @ [CHR 0x22] @ table @ [CHR 0x22])
           else Inl e)"

definition publish_inbox ::
    "pg_error option \<Rightarrow> relay_message list \<Rightarrow> inbox_sink \<Rightarrow> inbox_sink \<times> (relay_error + unit)" where
  "publish_inbox err ms s =
     (if ms = [] then (s, Inr ())
      else case err of
        Some e \<Rightarrow> (s, Inl (postgres_connector_failure ''postgresql-inbox'' e))
      | None \<Rightarrow>
          (let (inserted, t) = insert_new (map inbox_row_of ms) (is_table s);
               duplicates = (of_nat (length ms) :: u64) - of_nat inserted
           in (s\<lparr>is_table := t, is_dedup := (if 0 < duplicates then is_dedup s + duplicates else is_dedup s)\<rparr>,
               Inr ())))"

definition inbox_holds :: "inbox_sink \<Rightarrow> string set" where
  "inbox_holds s = ib_event_id ` set (is_table s)"

lemma insert_new_keys:
  "insert_new rs t = (n, t') \<Longrightarrow> ib_event_id ` set t' = ib_event_id ` set t \<union> ib_event_id ` set rs"
proof (induction rs arbitrary: t n)
  case (Cons r rs)
  then show ?case by (cases "ib_event_id r \<in> ib_event_id ` set t")
    (auto simp: Let_def image_iff split: prod.splits)
qed simp

lemma insert_new_distinct:
  "insert_new rs t = (n, t') \<Longrightarrow> distinct (map ib_event_id t) \<Longrightarrow> distinct (map ib_event_id t')"
proof (induction rs arbitrary: t n)
  case (Cons r rs)
  then show ?case by (cases "ib_event_id r \<in> ib_event_id ` set t")
    (auto simp: Let_def split: prod.splits)
qed simp

lemma insert_new_prefix: "insert_new rs t = (n, t') \<Longrightarrow> \<exists>new. t' = t @ new \<and> length new = n \<and> n \<le> length rs"
proof (induction rs arbitrary: t n)
  case (Cons r rs)
  show ?case
  proof (cases "ib_event_id r \<in> ib_event_id ` set t")
    case True
    with Cons.prems Cons.IH [of t n] show ?thesis by auto
  next
    case False
    with Cons.prems obtain k where "insert_new rs (t @ [r]) = (k, t')" "n = Suc k"
      by (auto simp: Let_def split: prod.splits)
    with Cons.IH [of "t @ [r]" k] show ?thesis by auto
  qed
qed simp

text \<open>A batch that was already inserted changes nothing.\<close>

lemma insert_new_again: "ib_event_id ` set rs \<subseteq> ib_event_id ` set t \<Longrightarrow> insert_new rs t = (0, t)"
  by (induction rs) auto

lemma inbox_row_of_key [simp]: "ib_event_id (inbox_row_of m) = dedup_key m"
  by (simp add: inbox_row_of_def)

lemma publish_inbox_cases:
  assumes "publish_inbox err ms s = (s', r)"
  shows "(s' = s \<and> (ms = [] \<or> r \<noteq> Inr ())) \<or>
    (r = Inr () \<and> is_table s' = snd (insert_new (map inbox_row_of ms) (is_table s)))"
  using assms by (auto simp: publish_inbox_def Let_def split: if_splits option.splits prod.splits)

lemma inbox_holds_insert:
  "ib_event_id ` set (snd (insert_new (map inbox_row_of ms) t)) = ib_event_id ` set t \<union> dedup_key ` set ms"
proof -
  obtain n t' where p: "insert_new (map inbox_row_of ms) t = (n, t')" by fastforce
  from insert_new_keys [OF p] p show ?thesis by (simp add: image_image)
qed

lemma publish_inbox_holds:
  assumes "publish_inbox err ms s = (s', r)"
  shows "(r = Inr () \<and> inbox_holds s' = inbox_holds s \<union> dedup_key ` set ms) \<or> (r \<noteq> Inr () \<and> s' = s)"
proof -
  from publish_inbox_cases [OF assms]
  have "(s' = s \<and> ms = [] \<and> r = Inr ()) \<or> (s' = s \<and> r \<noteq> Inr ()) \<or>
    (r = Inr () \<and> is_table s' = snd (insert_new (map inbox_row_of ms) (is_table s)))"
    using unit_result_cases [of r] by blast
  then show ?thesis by (elim disjE conjE) (simp_all add: inbox_holds_def inbox_holds_insert)
qed

interpretation inbox: sink_contract publish_inbox inbox_holds
  by unfold_locales (use publish_inbox_holds in blast)+

section \<open>Senders that go message by message\<close>

text \<open>
  What becomes of one message after it was handed over: acknowledged, accepted with the
  acknowledgement lost, or not accepted.
\<close>

datatype send_fate = Acked | LostAck relay_error | NotSent relay_error

fun send_each :: "(relay_message \<Rightarrow> relay_error + 'r) \<Rightarrow> (nat \<Rightarrow> send_fate) \<Rightarrow> relay_message list \<Rightarrow>
    'r list \<Rightarrow> 'r list \<times> (relay_error + unit)" where
  "send_each prep fate [] sent = (sent, Inr ())"
| "send_each prep fate (m # ms) sent =
     (case prep m of
        Inl e \<Rightarrow> (sent, Inl e)
      | Inr x \<Rightarrow>
          (case fate 0 of
             NotSent e \<Rightarrow> (sent, Inl e)
           | LostAck e \<Rightarrow> (sent @ [x], Inl e)
           | Acked \<Rightarrow> send_each prep (\<lambda>i. fate (Suc i)) ms (sent @ [x])))"

lemma send_each_ok:
  assumes "\<And>m x. prep m = Inr x \<Longrightarrow> key x = dedup_key m"
  shows "send_each prep fate ms sent = (sent', Inr ()) \<Longrightarrow>
    \<exists>new. sent' = sent @ new \<and> map key new = map dedup_key ms"
proof (induction ms arbitrary: fate sent)
  case (Cons m ms)
  then obtain x where x: "prep m = Inr x" by (auto split: sum.splits)
  with Cons.prems have "send_each prep (\<lambda>i. fate (Suc i)) ms (sent @ [x]) = (sent', Inr ())"
    by (auto split: send_fate.splits)
  from Cons.IH [OF this] assms [OF x] show ?case by auto
qed simp

lemma send_each_prefix:
  assumes "\<And>m x. prep m = Inr x \<Longrightarrow> key x = dedup_key m"
  shows "send_each prep fate ms sent = (sent', r) \<Longrightarrow>
    \<exists>new k. sent' = sent @ new \<and> map key new = map dedup_key (take k ms)"
proof (induction ms arbitrary: fate sent)
  case Nil
  then show ?case by auto
next
  case (Cons m ms)
  show ?case
  proof (cases "prep m")
    case (Inl e)
    with Cons.prems show ?thesis by (intro exI [of _ "[]"] exI [of _ 0]) simp
  next
    case x: (Inr x)
    show ?thesis
    proof (cases "fate 0")
      case Acked
      with x Cons.prems have "send_each prep (\<lambda>i. fate (Suc i)) ms (sent @ [x]) = (sent', r)" by simp
      from Cons.IH [OF this] obtain new k where
        "sent' = sent @ [x] @ new" "map key new = map dedup_key (take k ms)" by auto
      with assms [OF x] show ?thesis by (intro exI [of _ "x # new"] exI [of _ "Suc k"]) simp
    next
      case (LostAck e)
      with x Cons.prems assms [OF x] show ?thesis by (intro exI [of _ "[x]"] exI [of _ 1]) simp
    next
      case (NotSent e)
      with x Cons.prems show ?thesis by (intro exI [of _ "[]"] exI [of _ 0]) simp
    qed
  qed
qed

definition keys_of :: "('r \<Rightarrow> string) \<Rightarrow> 'r list \<Rightarrow> string set" where
  "keys_of key xs = key ` set xs"

lemma send_each_contract:
  assumes "\<And>m x. prep m = Inr x \<Longrightarrow> key x = dedup_key m"
    and "send_each prep fate ms sent = (sent', r)"
  shows "keys_of key sent \<subseteq> keys_of key sent'"
    and "keys_of key sent' \<subseteq> keys_of key sent \<union> dedup_key ` set ms"
    and "r = Inr () \<Longrightarrow> dedup_key ` set ms \<subseteq> keys_of key sent'"
proof -
  from send_each_prefix [of prep key, OF assms(1) assms(2)] obtain new k where
    n: "sent' = sent @ new" "map key new = map dedup_key (take k ms)" by blast
  from n(2) have "key ` set new = dedup_key ` set (take k ms)" by (metis list.set_map)
  with n(1) show "keys_of key sent \<subseteq> keys_of key sent'"
    "keys_of key sent' \<subseteq> keys_of key sent \<union> dedup_key ` set ms"
    by (auto simp: keys_of_def dest: in_set_takeD)
  assume "r = Inr ()"
  with assms(2) send_each_ok [of prep key, OF assms(1)] obtain new' where
    "sent' = sent @ new'" "map key new' = map dedup_key ms" by blast
  then show "dedup_key ` set ms \<subseteq> keys_of key sent'"
    unfolding keys_of_def by (metis image_Un list.set_map set_append sup_ge2)
qed

section \<open>NATS JetStream\<close>

datatype nats_connect_kind =
    CkAuthentication | CkAuthorization | CkTls | CkTimedOut | CkServerParse | CkOther

datatype nats_publish_kind =
    PkStreamNotFound | PkTimedOut | PkMaxAckPending | PkWrongLastMessageId | PkWrongLastSequence | PkOther

fun connect_error :: "nats_connect_kind \<Rightarrow> relay_error" where
  "connect_error CkAuthentication = ConnectorFailure ''nats'' Authentication Permanent ''NATS authentication rejected''"
| "connect_error CkAuthorization = ConnectorFailure ''nats'' Authorization Permanent ''NATS authorization rejected''"
| "connect_error CkTls = ConnectorFailure ''nats'' TlsVerification Permanent ''NATS TLS setup failed''"
| "connect_error CkTimedOut = ConnectorFailure ''nats'' Timeout Transient ''NATS connection timed out''"
| "connect_error CkServerParse =
     ConnectorFailure ''nats'' InvalidDestination Permanent ''NATS server address is invalid''"
| "connect_error CkOther = ConnectorFailure ''nats'' Unavailable Transient ''NATS is unavailable''"

fun publish_error :: "nats_publish_kind \<Rightarrow> relay_error" where
  "publish_error PkStreamNotFound =
     ConnectorFailure ''nats'' InvalidDestination Permanent ''NATS JetStream stream was not found''"
| "publish_error PkTimedOut = ConnectorFailure ''nats'' Timeout Transient ''NATS JetStream publish timed out''"
| "publish_error PkMaxAckPending =
     ConnectorFailure ''nats'' Throttled Transient ''NATS JetStream acknowledgment capacity is full''"
| "publish_error PkWrongLastMessageId =
     ConnectorFailure ''nats'' ProtocolRejection Permanent ''NATS JetStream publish was rejected''"
| "publish_error PkWrongLastSequence =
     ConnectorFailure ''nats'' ProtocolRejection Permanent ''NATS JetStream publish was rejected''"
| "publish_error PkOther = ConnectorFailure ''nats'' Unavailable Transient ''NATS JetStream publish failed''"

record nats_options =
  no_url :: string
  no_subject :: "string option"
  no_template :: "string option"
  no_allow_insecure :: bool
  no_token :: "string option"
  no_username :: "string option"
  no_password :: "string option"
  no_credentials_file :: "string option"
  no_client_cert :: "string option"
  no_client_key :: "string option"

text \<open>The checks of \<open>new_with_options\<close>; connecting is the arguments \<open>creds\<close> and \<open>connected\<close>.\<close>

definition nats_new :: "bool \<Rightarrow> nats_connect_kind option \<Rightarrow> nats_options \<Rightarrow> relay_error + subject_spec" where
  "nats_new creds connected o' =
     (let scheme = hd (split_on CHR '':'' (no_url o'));
          spec = subject_from_config (no_subject o') (no_template o')
      in and_then (checks
        [ensure (scheme = ''tls'' \<or> (no_allow_insecure o' \<and> scheme = ''nats''))
           (Config ''nats requires tls:// unless allow_insecure is true''),
         ensure (\<not> (no_token o' \<noteq> None \<and>
             (no_username o' \<noteq> None \<or> no_password o' \<noteq> None \<or> no_credentials_file o' \<noteq> None)))
           (Config ''nats authentication methods are mutually exclusive''),
         ensure ((no_username o' \<noteq> None) = (no_password o' \<noteq> None))
           (Config ''nats username and password must be supplied together''),
         ensure ((no_client_cert o' \<noteq> None) = (no_client_key o' \<noteq> None))
           (Config ''nats TLS client certificate and key must be supplied together''),
         ensure (no_credentials_file o' = None \<or> creds)
           (Config ''nats credentials file could not be read''),
         (case connected of None \<Rightarrow> Inr () | Some k \<Rightarrow> Inl (connect_error k)),
         validate_spec spec]) (\<lambda>_. Inr spec))"

record nats_record =
  nr_subject :: string
  nr_msg_id :: string
  nr_full_refresh :: bool
  nr_payload :: string

type_synonym encoder = "relay_message \<Rightarrow> string + string"

definition nats_prep :: "encoder \<Rightarrow> subject_spec \<Rightarrow> relay_message \<Rightarrow> relay_error + nats_record" where
  "nats_prep enc spec m =
     and_then (map_err Json (enc m)) (\<lambda>body.
       Inr \<lparr> nr_subject = render_spec spec m, nr_msg_id = dedup_key m,
             nr_full_refresh = is_full_refresh m, nr_payload = body \<rparr>)"

definition publish_nats ::
    "encoder \<times> subject_spec \<times> (nat \<Rightarrow> send_fate) \<Rightarrow> relay_message list \<Rightarrow> nats_record list \<Rightarrow>
       nats_record list \<times> (relay_error + unit)" where
  "publish_nats = (\<lambda>(enc, spec, fate) ms sent. send_each (nats_prep enc spec) fate ms sent)"

lemma nats_prep_key: "nats_prep enc spec m = Inr x \<Longrightarrow> nr_msg_id x = dedup_key m"
  by (auto simp: nats_prep_def and_then_Inr_iff)

interpretation nats: sink_contract publish_nats "keys_of nr_msg_id"
proof
  fix env :: "encoder \<times> subject_spec \<times> (nat \<Rightarrow> send_fate)" and ms s s' r
  obtain enc spec fate where env: "env = (enc, spec, fate)" by (cases env)
  note c = send_each_contract [of "nats_prep enc spec" nr_msg_id, OF nats_prep_key]
  show "publish_nats env ms s = (s', Inr ()) \<Longrightarrow> dedup_key ` set ms \<subseteq> keys_of nr_msg_id s'"
    using c(3) by (simp add: publish_nats_def env)
  show "publish_nats env ms s = (s', r) \<Longrightarrow> keys_of nr_msg_id s \<subseteq> keys_of nr_msg_id s'"
    using c(1) by (simp add: publish_nats_def env)
  show "publish_nats env ms s = (s', r) \<Longrightarrow>
      keys_of nr_msg_id s' \<subseteq> keys_of nr_msg_id s \<union> dedup_key ` set ms"
    using c(2) by (simp add: publish_nats_def env)
qed

section \<open>Kafka\<close>

text \<open>The error codes of \<open>rdkafka\<close> the code distinguishes; \<open>KcConfig\<close> is a client that could not be made.\<close>

datatype kafka_code =
    KcBrokerTransportFailure | KcRequestTimedOut | KcNotEnoughReplicas | KcMessageSizeTooLarge
  | KcAuthentication | KcSaslAuthenticationFailed | KcTopicAuthorizationFailed
  | KcClusterAuthorizationFailed | KcUnknownTopicOrPartition | KcOtherCode | KcConfig | KcOtherError

fun kafka_error :: "kafka_code \<Rightarrow> relay_error" where
  "kafka_error KcBrokerTransportFailure = ConnectorFailure ''kafka'' Unavailable Transient ''Kafka broker is unavailable''"
| "kafka_error KcRequestTimedOut = ConnectorFailure ''kafka'' Unavailable Transient ''Kafka broker is unavailable''"
| "kafka_error KcNotEnoughReplicas = ConnectorFailure ''kafka'' Unavailable Transient ''Kafka broker is unavailable''"
| "kafka_error KcMessageSizeTooLarge =
     ConnectorFailure ''kafka'' MessageTooLarge Permanent ''Kafka rejected an oversized message''"
| "kafka_error KcAuthentication = ConnectorFailure ''kafka'' Authentication Permanent ''Kafka authentication rejected''"
| "kafka_error KcSaslAuthenticationFailed =
     ConnectorFailure ''kafka'' Authentication Permanent ''Kafka authentication rejected''"
| "kafka_error KcTopicAuthorizationFailed =
     ConnectorFailure ''kafka'' Authorization Permanent ''Kafka authorization rejected''"
| "kafka_error KcClusterAuthorizationFailed =
     ConnectorFailure ''kafka'' Authorization Permanent ''Kafka authorization rejected''"
| "kafka_error KcUnknownTopicOrPartition =
     ConnectorFailure ''kafka'' InvalidDestination Permanent ''Kafka topic was not found''"
| "kafka_error KcConfig =
     ConnectorFailure ''kafka'' InvalidDestination Permanent ''Kafka producer configuration was rejected''"
| "kafka_error KcOtherCode = ConnectorFailure ''kafka'' Unknown Transient ''Kafka operation failed''"
| "kafka_error KcOtherError = ConnectorFailure ''kafka'' Unknown Transient ''Kafka operation failed''"

record kafka_sink =
  ks_topic_template :: string
  ks_settings :: "(string \<times> string) list"

definition kafka_new ::
    "kafka_code option \<Rightarrow> string \<Rightarrow> string \<Rightarrow> string \<Rightarrow> bool \<Rightarrow> (string \<times> string option) list \<Rightarrow>
       relay_error + kafka_sink" where
  "kafka_new created brokers template protocol allow_insecure optional =
     and_then (checks
       [ensure (\<not> (protocol \<in> {''plaintext'', ''sasl_plaintext''} \<and> \<not> allow_insecure))
          (Config ''plaintext Kafka requires allow_insecure=true''),
        ensure (protocol \<in> {''ssl'', ''sasl_ssl'', ''plaintext'', ''sasl_plaintext''})
          (Config ''invalid Kafka security_protocol''),
        ensure (\<not> (is_blank template \<or> has_control template))
          (ConnectorFailure ''kafka'' InvalidDestination Permanent ''Kafka topic is invalid''),
        (case created of None \<Rightarrow> Inr () | Some c \<Rightarrow> Inl (kafka_error c))]) (\<lambda>_.
       Inr \<lparr> ks_topic_template = template,
             ks_settings =
               [(''bootstrap.servers'', brokers), (''security.protocol'', protocol),
                (''message.timeout.ms'', ''5000''), (''enable.idempotence'', ''true''), (''acks'', ''all''),
                (''retries'', ''10''), (''max.in.flight.requests.per.connection'', ''5'')]
               @ concat (map (\<lambda>(k, v). case v of None \<Rightarrow> [] | Some x \<Rightarrow> [(k, x)]) optional) \<rparr>)"

record kafka_record =
  kr_topic :: string
  kr_key :: string
  kr_payload :: string

text \<open>The topic of a record is the template itself: no placeholder of it is expanded.\<close>

definition kafka_prep :: "encoder \<Rightarrow> string \<Rightarrow> relay_message \<Rightarrow> relay_error + kafka_record" where
  "kafka_prep enc template m =
     and_then (map_err Json (enc m)) (\<lambda>body.
       Inr \<lparr> kr_topic = template, kr_key = dedup_key m, kr_payload = body \<rparr>)"

definition publish_kafka ::
    "encoder \<times> string \<times> (nat \<Rightarrow> send_fate) \<Rightarrow> relay_message list \<Rightarrow> kafka_record list \<Rightarrow>
       kafka_record list \<times> (relay_error + unit)" where
  "publish_kafka = (\<lambda>(enc, template, fate) ms sent. send_each (kafka_prep enc template) fate ms sent)"

lemma kafka_prep_key: "kafka_prep enc t m = Inr x \<Longrightarrow> kr_key x = dedup_key m"
  by (auto simp: kafka_prep_def and_then_Inr_iff)

interpretation kafka: sink_contract publish_kafka "keys_of kr_key"
proof
  fix env :: "encoder \<times> string \<times> (nat \<Rightarrow> send_fate)" and ms s s' r
  obtain enc t fate where env: "env = (enc, t, fate)" by (cases env)
  note c = send_each_contract [of "kafka_prep enc t" kr_key, OF kafka_prep_key]
  show "publish_kafka env ms s = (s', Inr ()) \<Longrightarrow> dedup_key ` set ms \<subseteq> keys_of kr_key s'"
    using c(3) by (simp add: publish_kafka_def env)
  show "publish_kafka env ms s = (s', r) \<Longrightarrow> keys_of kr_key s \<subseteq> keys_of kr_key s'"
    using c(1) by (simp add: publish_kafka_def env)
  show "publish_kafka env ms s = (s', r) \<Longrightarrow> keys_of kr_key s' \<subseteq> keys_of kr_key s \<union> dedup_key ` set ms"
    using c(2) by (simp add: publish_kafka_def env)
qed

lemma send_each_Inr_recs:
  assumes "\<And>m x. prep m = Inr x \<Longrightarrow> P x" and "\<forall>x \<in> set sent. P x"
  shows "send_each prep fate ms sent = (sent', r) \<Longrightarrow> \<forall>x \<in> set sent'. P x"
  using assms(2)
proof (induction ms arbitrary: fate sent)
  case (Cons m ms)
  show ?case
  proof (cases "prep m")
    case (Inl e)
    with Cons.prems show ?thesis by simp
  next
    case (Inr x)
    with assms(1) Cons.prems(2) have all: "\<forall>y \<in> set (sent @ [x]). P y" by auto
    show ?thesis
    proof (cases "fate 0")
      case Acked
      with Inr Cons.prems(1) have "send_each prep (\<lambda>i. fate (Suc i)) ms (sent @ [x]) = (sent', r)" by simp
      from Cons.IH [OF this all] show ?thesis .
    next
      case (LostAck e)
      with Inr Cons.prems(1) all show ?thesis by auto
    next
      case (NotSent e)
      with Inr Cons.prems show ?thesis by auto
    qed
  qed
qed simp

lemma kafka_topic_verbatim:
  "publish_kafka (enc, t, fate) ms [] = (sent, r) \<Longrightarrow> \<forall>x \<in> set sent. kr_topic x = t"
  by (rule send_each_Inr_recs [of "kafka_prep enc t" _ "[]" fate ms])
    (auto simp: publish_kafka_def kafka_prep_def and_then_Inr_iff)

section \<open>Diagnostic output\<close>

datatype stdout_format = Jsonl | JsonPretty

record line_record =
  lr_key :: string
  lr_text :: string

definition format_of :: "string option \<Rightarrow> stdout_format" where
  "format_of f = (if f = Some ''pretty'' then JsonPretty else Jsonl)"

text \<open>One line per message; a failed write is \<open>NotSent\<close>.  The pretty encoder is its own argument.\<close>

definition stdout_prep :: "encoder \<Rightarrow> encoder \<Rightarrow> stdout_format \<Rightarrow> relay_message \<Rightarrow> relay_error + line_record" where
  "stdout_prep enc pretty fmt m =
     and_then (map_err Json (case fmt of Jsonl \<Rightarrow> enc m | JsonPretty \<Rightarrow> pretty m)) (\<lambda>line.
       Inr \<lparr> lr_key = dedup_key m, lr_text = line @ [CHR 0x0A] \<rparr>)"

definition publish_stdout ::
    "encoder \<times> encoder \<times> stdout_format \<times> (nat \<Rightarrow> send_fate) \<Rightarrow> relay_message list \<Rightarrow> line_record list \<Rightarrow>
       line_record list \<times> (relay_error + unit)" where
  "publish_stdout = (\<lambda>(enc, pretty, fmt, fate) ms out. send_each (stdout_prep enc pretty fmt) fate ms out)"

text \<open>The file sink flushes after the batch; the error of the flush fails the batch.\<close>

definition publish_file ::
    "(encoder \<times> encoder \<times> stdout_format \<times> (nat \<Rightarrow> send_fate)) \<times> string option \<Rightarrow> relay_message list \<Rightarrow>
       line_record list \<Rightarrow> line_record list \<times> (relay_error + unit)" where
  "publish_file = (\<lambda>(env, flush) ms out.
     case publish_stdout env ms out of
       (out', Inl e) \<Rightarrow> (out', Inl e)
     | (out', Inr _) \<Rightarrow> (out', case flush of None \<Rightarrow> Inr () | Some e \<Rightarrow> Inl (Io e)))"

lemma stdout_prep_key: "stdout_prep enc p f m = Inr x \<Longrightarrow> lr_key x = dedup_key m"
  by (auto simp: stdout_prep_def and_then_Inr_iff)

interpretation stdout: sink_contract publish_stdout "keys_of lr_key"
proof
  fix env :: "encoder \<times> encoder \<times> stdout_format \<times> (nat \<Rightarrow> send_fate)" and ms s s' r
  obtain enc p f fate where env: "env = (enc, p, f, fate)" by (cases env)
  note c = send_each_contract [of "stdout_prep enc p f" lr_key, OF stdout_prep_key]
  show "publish_stdout env ms s = (s', Inr ()) \<Longrightarrow> dedup_key ` set ms \<subseteq> keys_of lr_key s'"
    using c(3) by (simp add: publish_stdout_def env)
  show "publish_stdout env ms s = (s', r) \<Longrightarrow> keys_of lr_key s \<subseteq> keys_of lr_key s'"
    using c(1) by (simp add: publish_stdout_def env)
  show "publish_stdout env ms s = (s', r) \<Longrightarrow> keys_of lr_key s' \<subseteq> keys_of lr_key s \<union> dedup_key ` set ms"
    using c(2) by (simp add: publish_stdout_def env)
qed

lemma publish_file_stdout:
  "publish_file (env, flush) ms out = (out', r) \<Longrightarrow>
     \<exists>r0. publish_stdout env ms out = (out', r0) \<and> (r = Inr () \<longrightarrow> r0 = Inr ())"
  by (auto simp: publish_file_def split: prod.splits sum.splits)

interpretation file_out: sink_contract publish_file "keys_of lr_key"
proof
  fix env :: "(encoder \<times> encoder \<times> stdout_format \<times> (nat \<Rightarrow> send_fate)) \<times> string option"
    and ms s s' r
  obtain e f where env: "env = (e, f)" by (cases env)
  show "publish_file env ms s = (s', Inr ()) \<Longrightarrow> dedup_key ` set ms \<subseteq> keys_of lr_key s'"
    using publish_file_stdout [of e f ms s s'] stdout.publish_ok by (auto simp: env)
  show "publish_file env ms s = (s', r) \<Longrightarrow> keys_of lr_key s \<subseteq> keys_of lr_key s'"
    using publish_file_stdout [of e f ms s s' r] stdout.publish_keeps by (fastforce simp: env)
  show "publish_file env ms s = (s', r) \<Longrightarrow> keys_of lr_key s' \<subseteq> keys_of lr_key s \<union> dedup_key ` set ms"
    using publish_file_stdout [of e f ms s s' r] stdout.publish_only by (fastforce simp: env)
qed

end
