(* ===== verification/Http_Guard.thy ===== *)
theory Http_Guard
  imports Relay_Error
begin

text \<open>
  \<open>pg-tide-relay/src/http_util.rs\<close>: the guard against server-side request forgery.  Addresses
  are words of the width the standard library gives them, its classification methods and its
  address parser are written out.  The \<open>url\<close> crate's parser, the resolver and the HTTP client
  builder are arguments.  The lemmas show which addresses a guarded endpoint can never be.
\<close>

unbundle bit_operations_syntax

section \<open>Addresses\<close>

datatype ip_addr = V4 u8 u8 u8 u8 | V6 u16 u16 u16 u16 u16 u16 u16 u16

definition v4_private :: "u8 \<Rightarrow> u8 \<Rightarrow> bool" where
  "v4_private a b \<longleftrightarrow> a = 10 \<or> (a = 172 \<and> 16 \<le> b \<and> b \<le> 31) \<or> (a = 192 \<and> b = 168)"

definition forbidden_v4 :: "u8 \<Rightarrow> u8 \<Rightarrow> u8 \<Rightarrow> u8 \<Rightarrow> bool" where
  "forbidden_v4 a b c d \<longleftrightarrow>
     a = 127
   \<or> (a = 0 \<and> b = 0 \<and> c = 0 \<and> d = 0)
   \<or> v4_private a b
   \<or> (a = 169 \<and> b = 254)
   \<or> (a = 255 \<and> b = 255 \<and> c = 255 \<and> d = 255)
   \<or> a = 0
   \<or> (a = 100 \<and> 64 \<le> b \<and> b \<le> 127)
   \<or> (a = 169 \<and> b = 254)
   \<or> (a = 192 \<and> (b = 0 \<or> b = 2 \<or> (b = 88 \<and> c = 99)))
   \<or> (a = 198 \<and> (b = 18 \<or> b = 19 \<or> (b = 51 \<and> c = 100)))
   \<or> (a = 203 \<and> b = 0 \<and> c = 113)
   \<or> 224 \<le> a"

fun is_forbidden_ip :: "ip_addr \<Rightarrow> bool" where
  "is_forbidden_ip (V4 a b c d) = forbidden_v4 a b c d"
| "is_forbidden_ip (V6 s0 s1 s2 s3 s4 s5 s6 s7) =
     (let zero5 = (s0 = 0 \<and> s1 = 0 \<and> s2 = 0 \<and> s3 = 0 \<and> s4 = 0);
          mapped = (zero5 \<and> s5 = 0xffff)
      in (zero5 \<and> s5 = 0 \<and> s6 = 0 \<and> s7 = 1)
       \<or> (zero5 \<and> s5 = 0 \<and> s6 = 0 \<and> s7 = 0)
       \<or> s0 AND 0xff00 = 0xff00
       \<or> s0 AND 0xffc0 = 0xfe80
       \<or> s0 AND 0xfe00 = 0xfc00
       \<or> (s0 = 0x2001 \<and> s1 = 0x0db8)
       \<or> (mapped \<and> forbidden_v4 (ucast (drop_bit 8 s6)) (ucast s6) (ucast (drop_bit 8 s7)) (ucast s7)))"

section \<open>Parsing an address\<close>

definition hex_value :: "char \<Rightarrow> nat option" where
  "hex_value c =
     (let n = byte c in
      if 48 \<le> n \<and> n \<le> 57 then Some (n - 48)
      else if 97 \<le> n \<and> n \<le> 102 then Some (n - 87)
      else if 65 \<le> n \<and> n \<le> 70 then Some (n - 55) else None)"

fun hex_digits :: "nat \<Rightarrow> string \<Rightarrow> nat option" where
  "hex_digits acc [] = Some acc"
| "hex_digits acc (c # cs) = (case hex_value c of None \<Rightarrow> None | Some d \<Rightarrow> hex_digits (16 * acc + d) cs)"

definition parse_group :: "string \<Rightarrow> u16 option" where
  "parse_group s = (if s \<noteq> [] \<and> length s \<le> 4 then map_option of_nat (hex_digits 0 s) else None)"

definition parse_octet :: "string \<Rightarrow> u8 option" where
  "parse_octet s =
     (if length s \<le> 3 \<and> (length s = 1 \<or> \<not> starts_with ''0'' s)
      then (case parse_digits s of Some n \<Rightarrow> if n \<le> 255 then Some (of_nat n) else None | None \<Rightarrow> None)
      else None)"

definition parse_ipv4 :: "string \<Rightarrow> (u8 \<times> u8 \<times> u8 \<times> u8) option" where
  "parse_ipv4 s =
     (case split_on CHR ''.'' s of
        [a, b, c, d] \<Rightarrow>
          (case (parse_octet a, parse_octet b, parse_octet c, parse_octet d) of
             (Some w, Some x, Some y, Some z) \<Rightarrow> Some (w, x, y, z) | _ \<Rightarrow> None)
      | _ \<Rightarrow> None)"

text \<open>Groups separated by colons; the last may be a dotted quad, worth two groups.\<close>

fun parse_groups :: "bool \<Rightarrow> string list \<Rightarrow> u16 list option" where
  "parse_groups v4 [] = Some []"
| "parse_groups v4 [g] =
     (case parse_group g of
        Some x \<Rightarrow> Some [x]
      | None \<Rightarrow>
          (case (if v4 then parse_ipv4 g else None) of
             Some (a, b, c, d) \<Rightarrow> Some [push_bit 8 (ucast a) OR ucast b, push_bit 8 (ucast c) OR ucast d]
           | None \<Rightarrow> None))"
| "parse_groups v4 (g # gs) =
     (case (parse_group g, parse_groups v4 gs) of (Some x, Some xs) \<Rightarrow> Some (x # xs) | _ \<Rightarrow> None)"

definition v6_of :: "u16 list \<Rightarrow> ip_addr option" where
  "v6_of gs = (case gs of [a, b, c, d, e, f, g, h] \<Rightarrow> Some (V6 a b c d e f g h) | _ \<Rightarrow> None)"

definition parse_ipv6 :: "string \<Rightarrow> ip_addr option" where
  "parse_ipv6 s =
     (case find_sub ''::'' s of
        None \<Rightarrow> Option.bind (parse_groups True (split_on CHR '':'' s)) v6_of
      | Some (h, t) \<Rightarrow>
          Option.bind (if h = [] then Some [] else parse_groups False (split_on CHR '':'' h)) (\<lambda>hs.
          Option.bind (if t = [] then Some [] else parse_groups True (split_on CHR '':'' t)) (\<lambda>ts.
            if length hs + length ts \<le> 7
            then v6_of (hs @ replicate (8 - (length hs + length ts)) 0 @ ts) else None)))"

definition parse_ip :: "string \<Rightarrow> ip_addr option" where
  "parse_ip s =
     (case parse_ipv4 s of Some (a, b, c, d) \<Rightarrow> Some (V4 a b c d) | None \<Rightarrow> parse_ipv6 s)"

section \<open>Host names and URLs\<close>

definition forbidden_names :: "string list" where
  "forbidden_names = [''localhost'', ''localhost.localdomain'', ''ip6-localhost'', ''ip6-loopback'',
     ''metadata.google.internal'', ''metadata.google.internal.'', ''metadata.azure.com'',
     ''metadata.azure.com.'', ''instance-data.ec2.internal'', ''instance-data.ec2.internal.'', ''metadata'']"

definition is_forbidden_hostname :: "string \<Rightarrow> bool" where
  "is_forbidden_hostname host =
     (let ip_host = unwrap_or (Option.bind (strip_prefix ''['' host) (strip_suffix '']'')) host in
      case parse_ip ip_host of Some ip \<Rightarrow> is_forbidden_ip ip | None \<Rightarrow> host \<in> set forbidden_names)"

record url =
  u_scheme :: string
  u_host :: "string option"
  u_username :: string
  u_password :: "string option"
  u_fragment :: "string option"
  u_port_or_default :: "nat option"

type_synonym url_parser = "string \<Rightarrow> string + url"

definition trim_end_dots :: "string \<Rightarrow> string" where
  "trim_end_dots s = rev (dropWhile (\<lambda>c. c = CHR ''.'') (rev s))"

definition config_err :: "string \<Rightarrow> string \<Rightarrow> relay_error" where
  "config_err sink msg = Config (sink @ '': '' @ msg)"

definition validate_url :: "url_parser \<Rightarrow> string \<Rightarrow> string \<Rightarrow> bool \<Rightarrow> bool \<Rightarrow> relay_error + unit" where
  "validate_url parse s sink allow_http ssrf =
     and_then (map_err (\<lambda>e. config_err sink (''invalid endpoint: '' @ e)) (parse s)) (\<lambda>u.
     and_then (ok_or (u_host u) (config_err sink ''endpoint must include a host'')) (\<lambda>host.
       checks
         [ensure (u_scheme u = ''https'' \<or> (u_scheme u = ''http'' \<and> allow_http))
            (config_err sink (''URL must use HTTPS (got '' @ quoted (u_scheme u) @ '')'')),
          ensure (u_username u = [] \<and> u_password u = None)
            (config_err sink ''endpoint userinfo is not allowed''),
          ensure (u_fragment u = None) (config_err sink ''endpoint fragments are not allowed''),
          ensure (\<not> (ssrf \<and> is_forbidden_hostname (to_ascii_lowercase (trim_end_dots host))))
            (config_err sink ''SSRF-prohibited address'')]))"

text \<open>
  The client is the timeout and the addresses the host is pinned to (\<open>None\<close>: not pinned).
  Redirects and proxies are off in every client.
\<close>

record http_client =
  hc_timeout :: nat
  hc_pinned :: "(string \<times> ip_addr list) option"

datatype dns_answer = DnsSetupFailed string | DnsTimedOut | DnsFailed string | DnsAddresses "ip_addr list"

definition resolve_host_bounded :: "(string \<Rightarrow> nat \<Rightarrow> dns_answer) \<Rightarrow> string \<Rightarrow> nat \<Rightarrow> string \<Rightarrow> relay_error + ip_addr list" where
  "resolve_host_bounded dns host port sink =
     (case dns host port of
        DnsSetupFailed e \<Rightarrow> Inl (config_err sink (''DNS resolver setup failed: '' @ e))
      | DnsTimedOut \<Rightarrow> Inl (config_err sink ''DNS resolution timed out'')
      | DnsFailed e \<Rightarrow> Inl (config_err sink (''DNS resolution failed: '' @ e))
      | DnsAddresses as \<Rightarrow> Inr as)"

definition secure_client_for_url ::
    "url_parser \<Rightarrow> (string \<Rightarrow> nat \<Rightarrow> dns_answer) \<Rightarrow> string option \<Rightarrow> string \<Rightarrow> string \<Rightarrow> nat \<Rightarrow> bool \<Rightarrow> bool \<Rightarrow>
       relay_error + http_client" where
  "secure_client_for_url parse dns build s sink timeout allow_http ssrf =
     and_then (map_err (\<lambda>e. config_err sink (''invalid endpoint: '' @ e)) (parse s)) (\<lambda>u.
     and_then (validate_url parse s sink allow_http ssrf) (\<lambda>_.
     and_then
       (if \<not> ssrf then Inr None
        else and_then (ok_or (u_host u) (config_err sink ''endpoint must include a host'')) (\<lambda>host.
          if parse_ip host \<noteq> None then Inr None
          else
            and_then (ok_or (u_port_or_default u) (config_err sink ''endpoint must include a port'')) (\<lambda>port.
            and_then (resolve_host_bounded dns host port sink) (\<lambda>as.
            and_then (ensure (as \<noteq> [] \<and> length as \<le> 64)
                        (config_err sink ''DNS returned an invalid number of addresses'')) (\<lambda>_.
            and_then (ensure (\<not> list_ex is_forbidden_ip as)
                        (config_err sink ''DNS resolved to an SSRF-prohibited address'')) (\<lambda>_.
              Inr (Some (host, as))))))))
       (\<lambda>pinned.
     and_then (case build of None \<Rightarrow> Inr () | Some e \<Rightarrow> Inl (config_err sink (''HTTP client setup failed: '' @ e))) (\<lambda>_.
       Inr \<lparr> hc_timeout = timeout, hc_pinned = pinned \<rparr>))))"

section \<open>Lemmas\<close>

definition mapped_v6 :: "u8 \<Rightarrow> u8 \<Rightarrow> u8 \<Rightarrow> u8 \<Rightarrow> ip_addr" where
  "mapped_v6 a b c d = V6 0 0 0 0 0 0xffff (push_bit 8 (ucast a) OR ucast b) (push_bit 8 (ucast c) OR ucast d)"

lemma bit_u8_high: "\<not> bit (b :: u8) (8 + n)"
  using bit_imp_le_length [of b "8 + n"] by auto

lemma split_u16:
  fixes a b :: u8
  shows "ucast (drop_bit 8 (push_bit 8 (ucast a) OR ucast b :: u16)) = a"
    and "ucast (push_bit 8 (ucast a) OR ucast b :: u16) = b"
  by (auto intro!: bit_word_eqI simp: bit_simps bit_u8_high)

lemma mapped_forbidden: "is_forbidden_ip (mapped_v6 a b c d) \<longleftrightarrow> forbidden_v4 a b c d"
  unfolding mapped_v6_def is_forbidden_ip.simps Let_def split_u16 by simp

lemma validate_url_host:
  assumes "validate_url parse s sink allow_http True = Inr ()"
  shows "\<exists>u host. parse s = Inr u \<and> u_host u = Some host
    \<and> (u_scheme u = ''https'' \<or> (u_scheme u = ''http'' \<and> allow_http))
    \<and> u_username u = [] \<and> u_password u = None \<and> u_fragment u = None
    \<and> \<not> is_forbidden_hostname (to_ascii_lowercase (trim_end_dots host))"
  using assms by (auto simp: validate_url_def and_then_Inr_iff)

lemma secure_client_pinned:
  assumes "secure_client_for_url parse dns build s sink timeout allow_http True = Inr c"
  shows "\<exists>u host. parse s = Inr u \<and> u_host u = Some host \<and>
     (parse_ip host \<noteq> None \<or>
      (\<exists>as. hc_pinned c = Some (host, as) \<and> as \<noteq> [] \<and> length as \<le> 64 \<and> (\<forall>ip \<in> set as. \<not> is_forbidden_ip ip)))"
  using assms
  by (auto simp: secure_client_for_url_def and_then_Inr_iff list_ex_iff split: if_splits)

section \<open>Properties\<close>

text \<open>
  An IPv4 address written as an IPv4-mapped IPv6 address is forbidden exactly when the IPv4 address
  is: the mapping is no way around the guard.
\<close>

lemma mapped_addresses_are_no_bypass:
  "is_forbidden_ip (mapped_v6 a b c d) = is_forbidden_ip (V4 a b c d)"
  by (simp add: mapped_forbidden)

end
