(* ===== verification/Webhook.thy ===== *)
theory Webhook
  imports Sinks Http_Guard
begin

text \<open>
  \<open>pg-tide-relay/src/sink/webhook.rs\<close>: a batch is one POST with an idempotency key derived
  from the keys of its messages.  The digest, the HMAC and serde's encoding are arguments; the
  receiver's answer and whether it took the batch are the environment of a request.
\<close>

section \<open>Errors\<close>

datatype request_failure = ReqTimeout | ReqConnect | ReqRedirect | ReqOther

fun webhook_request_error :: "request_failure \<Rightarrow> relay_error" where
  "webhook_request_error ReqTimeout = ConnectorFailure ''webhook'' Timeout Transient ''webhook request timed out''"
| "webhook_request_error ReqConnect =
     ConnectorFailure ''webhook'' Unavailable Transient ''webhook endpoint is unavailable''"
| "webhook_request_error ReqRedirect =
     ConnectorFailure ''webhook'' InvalidDestination Permanent ''webhook redirects are not allowed''"
| "webhook_request_error ReqOther = ConnectorFailure ''webhook'' Unknown Transient ''webhook request failed''"

definition webhook_status_error :: "nat \<Rightarrow> relay_error" where
  "webhook_status_error status =
     (if status \<in> {408, 425, 429} \<or> (500 \<le> status \<and> status \<le> 599)
      then ConnectorFailure ''webhook'' Throttled Transient ''webhook endpoint requested retry''
      else if 300 \<le> status \<and> status \<le> 399
      then ConnectorFailure ''webhook'' InvalidDestination Permanent ''webhook redirects are not allowed''
      else if status = 401 \<or> status = 403
      then ConnectorFailure ''webhook'' Authentication Permanent ''webhook authentication was rejected''
      else if 400 \<le> status \<and> status \<le> 499
      then ConnectorFailure ''webhook'' ProtocolRejection Permanent ''webhook request was rejected''
      else ConnectorFailure ''webhook'' Unknown Transient ''webhook response was invalid'')"

definition is_success :: "nat \<Rightarrow> bool" where
  "is_success status \<longleftrightarrow> 200 \<le> status \<and> status \<le> 299"

section \<open>The idempotency key\<close>

text \<open>\<open>(len as u64).to_be_bytes()\<close>: eight bytes, the most significant first.\<close>

fun be_bytes :: "nat \<Rightarrow> nat \<Rightarrow> string" where
  "be_bytes 0 n = []"
| "be_bytes (Suc k) n = be_bytes k (n div 256) @ [char_of (n mod 256)]"

definition batch_bytes :: "relay_message list \<Rightarrow> string" where
  "batch_bytes ms =
     concat (map (\<lambda>m. be_bytes 8 (length (dedup_key m) mod 2 ^ 64) @ dedup_key m) ms)"

definition idempotency_key :: "(string \<Rightarrow> string) \<Rightarrow> relay_message list \<Rightarrow> string" where
  "idempotency_key sha256_hex ms =
     (case ms of [m] \<Rightarrow> dedup_key m | _ \<Rightarrow> ''batch-'' @ sha256_hex (batch_bytes ms))"

section \<open>The sink\<close>

record webhook_sink =
  wh_client :: http_client
  wh_url :: string
  wh_allow_http :: bool
  wh_ssrf :: bool
  wh_secret :: "string option"

definition webhook_new ::
    "url_parser \<Rightarrow> (string \<Rightarrow> nat \<Rightarrow> dns_answer) \<Rightarrow> string option \<Rightarrow> string \<Rightarrow> nat \<Rightarrow> bool \<Rightarrow> bool \<Rightarrow>
       string option \<Rightarrow> string \<Rightarrow> relay_error + webhook_sink" where
  "webhook_new parse dns build s timeout allow_http ssrf secret algorithm =
     and_then (checks
       [ensure (1 \<le> timeout \<and> timeout \<le> 300)
          (InvalidConfig ''webhook'' ''timeout_secs must be between 1 and 300''),
        ensure (algorithm = ''hmac-sha256'')
          (Config (''webhook: signing_algorithm must be '' @ quoted ''hmac-sha256'')),
        ensure (secret \<noteq> Some []) (Config ''webhook: signing_secret must not be empty''),
        (case parse s of Inl e \<Rightarrow> Inl (Config e) | Inr _ \<Rightarrow> Inr ()),
        validate_url parse s ''webhook'' allow_http ssrf]) (\<lambda>_.
     and_then (map_err (\<lambda>_. ConnectorFailure ''webhook'' TlsVerification Permanent
                              ''webhook TLS client setup failed'')
                (secure_client_for_url parse dns build s ''webhook'' timeout allow_http ssrf)) (\<lambda>c.
       Inr \<lparr> wh_client = c, wh_url = s, wh_allow_http = allow_http, wh_ssrf = ssrf,
             wh_secret = secret \<rparr>))"

record request =
  rq_url :: string
  rq_idempotency :: string
  rq_signature :: "string option"
  rq_body :: string
  rq_keys :: "string list"

text \<open>What the receiver does: an answer, or no answer although it may have taken the batch.\<close>

datatype answer = Responded nat bool | NoResponse request_failure bool

record webhook_env =
  we_parse :: url_parser
  we_sha256 :: "string \<Rightarrow> string"
  we_hmac :: "string \<Rightarrow> string \<Rightarrow> string"
  we_encode_batch :: "relay_message list \<Rightarrow> string + string"
  we_answer :: answer

definition publish_webhook ::
    "webhook_sink \<times> webhook_env \<Rightarrow> relay_message list \<Rightarrow> request list \<Rightarrow> request list \<times> (relay_error + unit)" where
  "publish_webhook = (\<lambda>(s, env) ms taken.
     if ms = [] then (taken, Inr ())
     else
       (case and_then (validate_url (we_parse env) (wh_url s) ''webhook'' (wh_allow_http s) (wh_ssrf s)) (\<lambda>_.
             map_err Json (we_encode_batch env ms)) of
          Inl e \<Rightarrow> (taken, Inl e)
        | Inr body \<Rightarrow>
            (let rq = \<lparr> rq_url = wh_url s, rq_idempotency = idempotency_key (we_sha256 env) ms,
                        rq_signature = map_option (\<lambda>k. ''sha256='' @ we_hmac env k body) (wh_secret s),
                        rq_body = body, rq_keys = map dedup_key ms \<rparr>
             in (case we_answer env of
                   Responded status took \<Rightarrow>
                     if is_success status then (taken @ [rq], Inr ())
                     else (if took then taken @ [rq] else taken, Inl (webhook_status_error status))
                 | NoResponse failure took \<Rightarrow>
                     (if took then taken @ [rq] else taken, Inl (webhook_request_error failure))))))"

definition webhook_holds :: "request list \<Rightarrow> string set" where
  "webhook_holds taken = \<Union> (set ` rq_keys ` set taken)"

lemma publish_webhook_cases:
  assumes "publish_webhook (s, env) ms taken = (taken', r)"
  shows "(taken' = taken \<and> (ms = [] \<or> r \<noteq> Inr ())) \<or>
    (\<exists>rq. taken' = taken @ [rq] \<and> rq_keys rq = map dedup_key ms
       \<and> rq_idempotency rq = idempotency_key (we_sha256 env) ms \<and> rq_url rq = wh_url s)"
  using assms
  by (auto simp: publish_webhook_def Let_def split: if_splits sum.splits answer.splits)

interpretation webhook: sink_contract publish_webhook webhook_holds
proof
  fix env :: "webhook_sink \<times> webhook_env" and ms s s' r
  obtain k e where env: "env = (k, e)" by (cases env)
  show "publish_webhook env ms s = (s', Inr ()) \<Longrightarrow> dedup_key ` set ms \<subseteq> webhook_holds s'"
    using publish_webhook_cases [of k e ms s s' "Inr ()"] by (auto simp: env webhook_holds_def)
  show "publish_webhook env ms s = (s', r) \<Longrightarrow> webhook_holds s \<subseteq> webhook_holds s'"
    using publish_webhook_cases [of k e ms s s' r] by (auto simp: env webhook_holds_def)
  show "publish_webhook env ms s = (s', r) \<Longrightarrow> webhook_holds s' \<subseteq> webhook_holds s \<union> dedup_key ` set ms"
    using publish_webhook_cases [of k e ms s s' r] by (auto simp: env webhook_holds_def)
qed

section \<open>The digest input determines the keys\<close>

lemma length_be_bytes [simp]: "length (be_bytes k n) = k"
  by (induction k arbitrary: n) auto

lemma be_bytes_8_nonempty [simp]: "be_bytes 8 n \<noteq> []"
  using length_be_bytes [of 8 n] by fastforce

lemma be_bytes_inject: "m < 256 ^ k \<Longrightarrow> n < 256 ^ k \<Longrightarrow> be_bytes k m = be_bytes k n \<longleftrightarrow> m = n"
proof (induction k arbitrary: m n)
  case (Suc k)
  have d: "m div 256 < 256 ^ k" "n div 256 < 256 ^ k" using Suc.prems by (simp_all add: less_mult_imp_div_less mult.commute)
  have c: "char_of (m mod 256) = (char_of (n mod 256) :: char) \<longleftrightarrow> m mod 256 = n mod 256"
    using char_of_eq_iff of_char_of by (metis mod_mod_trivial)
  have "be_bytes (Suc k) m = be_bytes (Suc k) n \<longleftrightarrow> m div 256 = n div 256 \<and> m mod 256 = n mod 256"
    using Suc.IH [OF d] c by simp
  then show ?case by (metis div_mult_mod_eq)
qed simp

lemma batch_bytes_inject:
  assumes "\<forall>m \<in> set ms \<union> set ms'. length (dedup_key m) < 2 ^ 64"
  shows "batch_bytes ms = batch_bytes ms' \<longleftrightarrow> map dedup_key ms = map dedup_key ms'"
  using assms
proof (induction ms arbitrary: ms')
  case Nil
  then show ?case by (cases ms') (auto simp: batch_bytes_def)
next
  case (Cons m ms)
  show ?case
  proof (cases ms')
    case Nil
    then show ?thesis by (auto simp: batch_bytes_def)
  next
    case (Cons m' ns)
    define b b' where "b = be_bytes 8 (length (dedup_key m) mod 2 ^ 64)"
      and "b' = be_bytes 8 (length (dedup_key m') mod 2 ^ 64)"
    have l: "length b = 8" "length b' = 8" by (simp_all add: b_def b'_def)
    have lt: "length (dedup_key m) < 2 ^ 64" "length (dedup_key m') < 2 ^ 64"
      using Cons.prems Cons by auto
    have bb: "b = b' \<longleftrightarrow> length (dedup_key m) = length (dedup_key m')"
      using be_bytes_inject [of "length (dedup_key m)" 8 "length (dedup_key m')"] lt
      by (simp add: b_def b'_def)
    have "batch_bytes (m # ms) = batch_bytes (m' # ns) \<longleftrightarrow>
        b @ dedup_key m @ batch_bytes ms = b' @ dedup_key m' @ batch_bytes ns"
      by (simp add: batch_bytes_def b_def b'_def)
    also have "\<dots> \<longleftrightarrow> b = b' \<and> dedup_key m @ batch_bytes ms = dedup_key m' @ batch_bytes ns"
      using l by simp
    also have "\<dots> \<longleftrightarrow> dedup_key m = dedup_key m' \<and> batch_bytes ms = batch_bytes ns"
      using bb by (metis append_eq_append_conv)
    finally show ?thesis using Cons.IH [of ns] Cons.prems Cons by simp
  qed
qed

section \<open>Properties\<close>

text \<open>
  Two batches of at least two messages (whose keys fit a 64-bit length) have the same idempotency
  key only when they carry the same deduplication keys in the same order, as long as the digest
  does not collide on them: the receiver never takes a different batch for a retry.
\<close>

lemma idempotency_key_identifies_batch:
  assumes "2 \<le> length ms" and "2 \<le> length ms'"
    and "\<forall>m \<in> set ms \<union> set ms'. length (dedup_key m) < 2 ^ 64"
    and "sha (batch_bytes ms) = sha (batch_bytes ms') \<longrightarrow> batch_bytes ms = batch_bytes ms'"
  shows "idempotency_key sha ms = idempotency_key sha ms' \<longleftrightarrow> map dedup_key ms = map dedup_key ms'"
proof -
  have key: "idempotency_key sha xs = ''batch-'' @ sha (batch_bytes xs)" if "2 \<le> length xs" for xs
    using that by (auto simp: idempotency_key_def split: list.splits)
  show ?thesis using assms(4) batch_bytes_inject [OF assms(3)] by (auto simp: key assms(1,2))
qed

lemma idempotency_key_identifies_batch_example:
  "let m = new_reverse ''a'' ''s'' JNull; n = new_reverse ''b'' ''s'' JNull in
     idempotency_key (\<lambda>s. s) [m, n] \<noteq> idempotency_key (\<lambda>s. s) [n, m]"
  using idempotency_key_identifies_batch [of "[new_reverse ''a'' ''s'' JNull, new_reverse ''b'' ''s'' JNull]"
      "[new_reverse ''b'' ''s'' JNull, new_reverse ''a'' ''s'' JNull]" "\<lambda>s. s"]
  by (simp add: Let_def new_reverse_def)



end
