(* ===== verification/Circuit_Breaker.thy ===== *)
theory Circuit_Breaker
  imports Relay_Error
begin

text \<open>
  \<open>pg-tide-relay/src/circuit_breaker.rs\<close>: the per-pipeline circuit breaker.  Instants are
  milliseconds of the monotonic clock, passed to the operations that read it; \<open>elapsed\<close>
  saturates at zero as \<open>Instant::elapsed\<close> does.  Counters are \<open>u32\<close> words; the invariant
  shows that they never wrap.
\<close>

datatype circuit_state = Closed | Open | HalfOpen

fun show_circuit_state :: "circuit_state \<Rightarrow> string" where
  "show_circuit_state Closed = ''closed''"
| "show_circuit_state Open = ''open''"
| "show_circuit_state HalfOpen = ''half_open''"

record cb_config =
  cb_enabled :: bool
  failure_threshold :: u32
  success_threshold :: u32
  half_open_timeout_ms :: nat

definition cb_config_default :: cb_config where
  "cb_config_default =
     \<lparr> cb_enabled = False, failure_threshold = 5, success_threshold = 3,
       half_open_timeout_ms = 30000 \<rparr>"

text \<open>\<open>as u32\<close> of a \<open>u64\<close> keeps the low 32 bits.\<close>

definition cb_config_parse :: "json \<Rightarrow> cb_config" where
  "cb_config_parse config =
     (case json_get config ''circuit_breaker'' of
        None \<Rightarrow> cb_config_default
      | Some cb \<Rightarrow>
          \<lparr> cb_enabled = get_bool_or cb ''enabled'' False,
            failure_threshold = word_of_int (get_u64_or cb ''failure_threshold'' 5),
            success_threshold = word_of_int (get_u64_or cb ''success_threshold'' 3),
            half_open_timeout_ms = 1000 * nat (get_u64_or cb ''half_open_timeout_seconds'' 30) \<rparr>)"

record circuit_breaker =
  cb_config :: cb_config
  cb_state :: circuit_state
  failure_count :: u32
  success_count :: u32
  opened_at :: "nat option"

definition cb_new :: "cb_config \<Rightarrow> circuit_breaker" where
  "cb_new c = \<lparr> cb_config = c, cb_state = Closed, failure_count = 0, success_count = 0,
               opened_at = None \<rparr>"

definition cb_from_pipeline_config :: "json \<Rightarrow> circuit_breaker" where
  "cb_from_pipeline_config config = cb_new (cb_config_parse config)"

definition elapsed :: "nat \<Rightarrow> nat \<Rightarrow> nat" where
  "elapsed since now = now - since"

definition should_allow :: "nat \<Rightarrow> circuit_breaker \<Rightarrow> bool \<times> circuit_breaker" where
  "should_allow now cb =
     (if \<not> cb_enabled (cb_config cb) then (True, cb)
      else case cb_state cb of
        Closed \<Rightarrow> (True, cb)
      | Open \<Rightarrow>
          (case opened_at cb of
             Some opened \<Rightarrow>
               if half_open_timeout_ms (cb_config cb) \<le> elapsed opened now
               then (True, cb\<lparr>cb_state := HalfOpen, success_count := 0\<rparr>)
               else (False, cb)
           | None \<Rightarrow> (False, cb))
      | HalfOpen \<Rightarrow> (True, cb))"

definition record_success :: "circuit_breaker \<Rightarrow> circuit_breaker" where
  "record_success cb =
     (if \<not> cb_enabled (cb_config cb) then cb
      else case cb_state cb of
        Closed \<Rightarrow> cb\<lparr>failure_count := 0\<rparr>
      | HalfOpen \<Rightarrow>
          (let cb' = cb\<lparr>success_count := success_count cb + 1\<rparr>
           in if success_threshold (cb_config cb) \<le> success_count cb'
              then cb'\<lparr>cb_state := Closed, failure_count := 0, success_count := 0, opened_at := None\<rparr>
              else cb')
      | Open \<Rightarrow> cb)"

definition record_failure :: "nat \<Rightarrow> circuit_breaker \<Rightarrow> circuit_breaker" where
  "record_failure now cb =
     (if \<not> cb_enabled (cb_config cb) then cb
      else case cb_state cb of
        Closed \<Rightarrow>
          (let cb' = cb\<lparr>failure_count := failure_count cb + 1\<rparr>
           in if failure_threshold (cb_config cb) \<le> failure_count cb'
              then cb'\<lparr>cb_state := Open, opened_at := Some now\<rparr>
              else cb')
      | HalfOpen \<Rightarrow> cb\<lparr>cb_state := Open, opened_at := Some now, success_count := 0\<rparr>
      | Open \<Rightarrow> cb)"

section \<open>Invariant\<close>

text \<open>
  A closed breaker has counted fewer failures than its threshold, a half-open one fewer
  successes than its threshold, and an open one remembers when it opened.
\<close>

definition cb_inv :: "circuit_breaker \<Rightarrow> bool" where
  "cb_inv cb \<longleftrightarrow>
     (cb_state cb = Closed \<longrightarrow> failure_count cb = 0 \<or> failure_count cb < failure_threshold (cb_config cb))
   \<and> (cb_state cb = HalfOpen \<longrightarrow> success_count cb = 0 \<or> success_count cb < success_threshold (cb_config cb))
   \<and> (cb_state cb = Open \<longrightarrow> opened_at cb \<noteq> None)"

datatype cb_event = Allow nat | Success | Failure nat

fun cb_step :: "cb_event \<Rightarrow> circuit_breaker \<Rightarrow> circuit_breaker" where
  "cb_step (Allow now) cb = snd (should_allow now cb)"
| "cb_step Success cb = record_success cb"
| "cb_step (Failure now) cb = record_failure now cb"

fun cb_run :: "cb_event list \<Rightarrow> circuit_breaker \<Rightarrow> circuit_breaker" where
  "cb_run [] cb = cb"
| "cb_run (e # es) cb = cb_run es (cb_step e cb)"

lemmas cb_ops = should_allow_def record_success_def record_failure_def

lemma cb_inv_new: "cb_inv (cb_new c)"
  by (simp add: cb_inv_def cb_new_def)

lemma cb_inv_step: "cb_inv cb \<Longrightarrow> cb_inv (cb_step e cb)"
  by (cases e)
    (auto simp: cb_inv_def cb_ops Let_def not_le split: circuit_state.splits option.splits)

lemma cb_inv_run: "cb_inv cb \<Longrightarrow> cb_inv (cb_run es cb)"
  by (induction es arbitrary: cb) (auto intro: cb_inv_step)

lemma cb_config_step [simp]: "cb_config (cb_step e cb) = cb_config cb"
  by (cases e) (auto simp: cb_ops Let_def split: circuit_state.splits option.splits)

lemma cb_config_run [simp]: "cb_config (cb_run es cb) = cb_config cb"
  by (induction es arbitrary: cb) auto

text \<open>Under the invariant an increment of either counter is exact.\<close>

lemma less_imp_Suc_word: "(a :: u32) < b \<Longrightarrow> unat (a + 1) = Suc (unat a)"
proof -
  assume "a < b"
  then have "a + 1 \<noteq> 0" by (metis add.commute max_word_max neg_eq_iff_add_eq_0 not_le minus_equation_iff)
  then show ?thesis by (metis add.commute unatSuc)
qed

lemma zero_Suc_word: "unat ((0 :: u32) + 1) = Suc 0"
  by simp

lemma failure_count_exact:
  "cb_inv cb \<Longrightarrow> cb_state cb = Closed \<Longrightarrow> unat (failure_count cb + 1) = Suc (unat (failure_count cb))"
  by (auto simp: cb_inv_def intro: less_imp_Suc_word)

lemma success_count_exact:
  "cb_inv cb \<Longrightarrow> cb_state cb = HalfOpen \<Longrightarrow> unat (success_count cb + 1) = Suc (unat (success_count cb))"
  by (auto simp: cb_inv_def intro: less_imp_Suc_word)

section \<open>Behaviour\<close>

lemma should_allow_disabled: "\<not> cb_enabled (cb_config cb) \<Longrightarrow> should_allow now cb = (True, cb)"
  by (simp add: should_allow_def)

lemma disabled_step: "\<not> cb_enabled (cb_config cb) \<Longrightarrow> cb_step e cb = cb"
  by (cases e) (simp_all add: cb_ops)

lemma disabled_run: "\<not> cb_enabled (cb_config cb) \<Longrightarrow> cb_run es cb = cb"
  by (induction es) (simp_all add: disabled_step)

text \<open>Consecutive failures count up to the threshold, and the threshold-th opens.\<close>

lemma failures_below_threshold:
  assumes "cb_enabled (cb_config cb)" and "cb_state cb = Closed" and "cb_inv cb"
    and "unat (failure_count cb) + n < unat (failure_threshold (cb_config cb))"
  shows "cb_state (cb_run (replicate n (Failure now)) cb) = Closed
       \<and> unat (failure_count (cb_run (replicate n (Failure now)) cb)) = unat (failure_count cb) + n"
  using assms
proof (induction n arbitrary: cb)
  case 0
  then show ?case by simp
next
  case (Suc n)
  let ?cb = "cb_step (Failure now) cb"
  have ex: "unat (failure_count cb + 1) = Suc (unat (failure_count cb))"
    using Suc.prems by (simp add: failure_count_exact)
  have lt: "\<not> failure_threshold (cb_config cb) \<le> failure_count cb + 1"
    using Suc.prems(4) ex by (simp add: word_le_nat_alt)
  have st: "cb_state ?cb = Closed" "failure_count ?cb = failure_count cb + 1"
    using Suc.prems lt by (simp_all add: record_failure_def Let_def)
  have inv: "cb_inv ?cb" using Suc.prems(3) by (rule cb_inv_step)
  have cfg: "cb_config (record_failure now cb) = cb_config cb"
    using cb_config_step [of "Failure now" cb] by simp
  from Suc.IH [of ?cb] Suc.prems st ex inv show ?case by (simp add: cfg)
qed

lemma failure_at_threshold:
  assumes "cb_enabled (cb_config cb)" and "cb_state cb = Closed" and "cb_inv cb"
    and "unat (failure_threshold (cb_config cb)) \<le> Suc (unat (failure_count cb))"
  shows "cb_state (record_failure now cb) = Open \<and> opened_at (record_failure now cb) = Some now"
  using assms failure_count_exact [of cb]
  by (simp add: record_failure_def Let_def word_le_nat_alt)

lemma open_denies:
  "cb_enabled (cb_config cb) \<Longrightarrow> cb_state cb = Open \<Longrightarrow> opened_at cb = Some t \<Longrightarrow>
     elapsed t now < half_open_timeout_ms (cb_config cb) \<Longrightarrow> should_allow now cb = (False, cb)"
  by (simp add: should_allow_def)

lemma open_probe:
  "cb_enabled (cb_config cb) \<Longrightarrow> cb_state cb = Open \<Longrightarrow> opened_at cb = Some t \<Longrightarrow>
     t + half_open_timeout_ms (cb_config cb) \<le> now \<Longrightarrow>
     should_allow now cb = (True, cb\<lparr>cb_state := HalfOpen, success_count := 0\<rparr>)"
  by (simp add: should_allow_def elapsed_def)

section \<open>Properties\<close>

lemma cb_run_append [simp]: "cb_run (xs @ ys) cb = cb_run ys (cb_run xs cb)"
  by (induction xs arbitrary: cb) simp_all

lemma open_ignores_failures:
  "cb_state cb = Open \<Longrightarrow> cb_run (replicate n (Failure now)) cb = cb"
  by (induction n) (simp_all add: record_failure_def)


text \<open>
  An enabled breaker opens at exactly the configured number of consecutive failures and not
  one before.
\<close>

lemma breaker_opens_exactly_at_threshold:
  assumes "cb_enabled c" and "0 < failure_threshold c"
  shows "cb_state (cb_run (replicate n (Failure now)) (cb_new c)) =
    (if n < unat (failure_threshold c) then Closed else Open)"
proof -
  let ?t = "unat (failure_threshold c)"
  let ?cb = "\<lambda>k. cb_run (replicate k (Failure now)) (cb_new c)"
  have t: "0 < ?t" using assms(2) by (simp add: word_less_nat_alt)
  have below: "cb_state (?cb k) = Closed \<and> unat (failure_count (?cb k)) = k" if "k < ?t" for k
    using failures_below_threshold [of "cb_new c" k now] that assms(1) cb_inv_new [of c]
    by (simp add: cb_new_def)
  show ?thesis
  proof (cases "n < ?t")
    case True
    with below show ?thesis by simp
  next
    case False
    let ?k = "?t - 1"
    have k: "?k < ?t" "n = ?k + Suc (n - ?t)" using t False by auto
    have split: "?cb n = cb_run (replicate (Suc (n - ?t)) (Failure now)) (?cb ?k)"
      by (subst k(2)) (simp only: replicate_add cb_run_append)
    have "cb_state (record_failure now (?cb ?k)) = Open"
      using failure_at_threshold [of "?cb ?k" now] below [OF k(1)] assms(1) t
        cb_inv_run [OF cb_inv_new, of "replicate ?k (Failure now)" c]
      by (simp add: cb_new_def)
    with split open_ignores_failures False show ?thesis by simp
  qed
qed

lemma breaker_opens_exactly_at_threshold_example:
  "cb_state (cb_run (replicate 4 (Failure 9)) (cb_new \<lparr> cb_enabled = True, failure_threshold = 5,
      success_threshold = 3, half_open_timeout_ms = 30000 \<rparr>)) = Closed
 \<and> cb_state (cb_run (replicate 5 (Failure 9)) (cb_new \<lparr> cb_enabled = True, failure_threshold = 5,
      success_threshold = 3, half_open_timeout_ms = 30000 \<rparr>)) = Open"
  using breaker_opens_exactly_at_threshold [of "\<lparr> cb_enabled = True, failure_threshold = 5,
      success_threshold = 3, half_open_timeout_ms = 30000 \<rparr>" 4 9]
    breaker_opens_exactly_at_threshold [of "\<lparr> cb_enabled = True, failure_threshold = 5,
      success_threshold = 3, half_open_timeout_ms = 30000 \<rparr>" 5 9]
  by simp

text \<open>
  A breaker that opened at time \<open>t\<close> denies every call until its timeout has passed and admits the
  first one after; a failure of that probe opens it again from the new instant.
\<close>

lemma breaker_probe_after_timeout:
  assumes "cb_enabled (cb_config cb)" and "cb_state cb = Open" and "opened_at cb = Some t" and "t \<le> now"
  shows "(fst (should_allow now cb) \<longleftrightarrow> t + half_open_timeout_ms (cb_config cb) \<le> now) \<and>
    (fst (should_allow now cb) \<longrightarrow>
      (let cb' = record_failure later (snd (should_allow now cb)) in cb_state cb' = Open \<and> opened_at cb' = Some later))"
  using assms by (auto simp: should_allow_def elapsed_def record_failure_def Let_def)

lemma breaker_probe_after_timeout_example:
  "\<exists>cb. fst (should_allow 40 cb) \<and> \<not> fst (should_allow 39 cb)
     \<and> cb_state (record_failure 50 (snd (should_allow 40 cb))) = Open"
proof -
  let ?c = "\<lparr> cb_enabled = True, failure_threshold = 1, success_threshold = 1, half_open_timeout_ms = 30 \<rparr>"
  let ?cb = "\<lparr> cb_config = ?c, cb_state = Open, failure_count = 1, success_count = 0, opened_at = Some 10 \<rparr>"
  show ?thesis
    using breaker_probe_after_timeout [of ?cb 10 40 50] breaker_probe_after_timeout [of ?cb 10 39 50]
    by (intro exI [of _ ?cb]) (simp add: Let_def)
qed

end
