(* ===== verification/Rate_Limiter.thy ===== *)
theory Rate_Limiter
  imports Json_Value
begin

text \<open>
  \<open>pg-tide-relay/src/rate_limiter.rs\<close>: the token-bucket wrapper between the relay loop and
  the sink.  The bucket itself is the \<open>governor\<close> crate, which is not part of the sources: its
  two entry points are parameters.  \<open>check_n\<close> answers without waiting, one of the three
  documented outcomes of governor 0.7 (\<open>Err(InsufficientCapacity)\<close>, \<open>Ok(Err(NotUntil))\<close>,
  \<open>Ok(Ok(()))\<close>); \<open>until_n_ready\<close> reports how long it waits, or fails at once with
  \<open>InsufficientCapacity\<close> when the request can never fit the burst.
\<close>

record rate_limit_config =
  rl_enabled :: bool
  max_messages_per_second :: u32
  burst_size :: u32

definition rate_limit_default :: rate_limit_config where
  "rate_limit_default = \<lparr> rl_enabled = False, max_messages_per_second = 0, burst_size = 0 \<rparr>"

definition rate_limit_parse :: "json \<Rightarrow> rate_limit_config" where
  "rate_limit_parse config =
     (case json_get config ''rate_limit'' of
        None \<Rightarrow> rate_limit_default
      | Some rl \<Rightarrow>
          (let mps = (word_of_int (get_u64_or rl ''max_messages_per_second'' 0) :: u32)
           in \<lparr> rl_enabled = get_bool_or rl ''enabled'' False,
                max_messages_per_second = mps,
                burst_size = word_of_int (get_u64_or rl ''burst_size'' (2 * uint mps)) \<rparr>))"

text \<open>The quota handed to governor: cells per second and burst, or no limiter at all.\<close>

record pipeline_rate_limiter =
  inner :: "(u32 \<times> u32) option"
  rl_config :: rate_limit_config

definition rate_limiter_new :: "rate_limit_config \<Rightarrow> pipeline_rate_limiter" where
  "rate_limiter_new c =
     (if \<not> rl_enabled c \<or> max_messages_per_second c = 0
      then \<lparr> inner = None, rl_config = c \<rparr>
      else let mps = max_messages_per_second c;
               m = max (burst_size c) (max_messages_per_second c);
               burst = (if m = 0 then mps else m)
           in \<lparr> inner = Some (mps, burst), rl_config = c \<rparr>)"

definition build_rate_limiter :: "json \<Rightarrow> pipeline_rate_limiter" where
  "build_rate_limiter config = rate_limiter_new (rate_limit_parse config)"

definition rl_is_active :: "pipeline_rate_limiter \<Rightarrow> bool" where
  "rl_is_active l \<longleftrightarrow> inner l \<noteq> None"

datatype check_outcome = InsufficientCapacity | NotUntil nat | Admitted

text \<open>\<open>acquire\<close>: the milliseconds it waits before the batch is published.\<close>

definition acquire ::
    "(u32 \<times> u32 \<Rightarrow> u32 \<Rightarrow> check_outcome) \<Rightarrow> (u32 \<times> u32 \<Rightarrow> u32 \<Rightarrow> nat)
       \<Rightarrow> pipeline_rate_limiter \<Rightarrow> u32 \<Rightarrow> nat" where
  "acquire check_n until_n_ready l count =
     (case inner l of
        None \<Rightarrow> 0
      | Some quota \<Rightarrow>
          if count = 0 then 0
          else (case check_n quota count of
                  InsufficientCapacity \<Rightarrow> until_n_ready quota count
                | _ \<Rightarrow> 0))"

definition estimated_delay :: "u32 \<Rightarrow> u64 \<Rightarrow> u64" where
  "estimated_delay mps batch_size =
     (if mps = 0 \<or> batch_size = 0 then 0 else (batch_size * 1000) div ucast mps)"

section \<open>Lemmas\<close>

lemma rl_is_active_iff:
  "rl_is_active (rate_limiter_new c) \<longleftrightarrow> rl_enabled c \<and> max_messages_per_second c \<noteq> 0"
  by (simp add: rl_is_active_def rate_limiter_new_def Let_def)

text \<open>The burst handed to governor is never below the rate.\<close>

lemma burst_at_least_rate: "inner (rate_limiter_new c) = Some (mps, burst) \<Longrightarrow> mps \<noteq> 0 \<and> mps \<le> burst"
  by (auto simp: rate_limiter_new_def Let_def max_def split: if_splits)

lemma estimated_delay_exact:
  assumes "mps \<noteq> 0" and "unat batch_size * 1000 < 2 ^ 64"
  shows "unat (estimated_delay mps batch_size) = (unat batch_size * 1000) div unat mps"
proof (cases "batch_size = 0")
  case True
  then show ?thesis by (simp add: estimated_delay_def)
next
  case False
  have "unat (batch_size * 1000) = unat batch_size * 1000"
    using assms(2) by (simp add: unat_word_ariths)
  moreover have "unat (ucast mps :: u64) = unat mps"
    proof -
    have "unat mps < 2 ^ 32" using unsigned_less [of mps] by simp
    then have "take_bit 64 (unat mps) = unat mps" by (simp add: take_bit_nat_eq_self)
    then show ?thesis by (simp add: unsigned_ucast_eq)
  qed
  ultimately show ?thesis
    using False assms(1) by (simp add: estimated_delay_def unat_div_distrib)
qed

section \<open>Properties\<close>

text \<open>
  With governor's documented rule that a request which can never fit the burst is refused at once
  (no wait), \<open>acquire\<close> never waits: the outcome that asks to wait is treated as admitted.
\<close>

lemma rate_limiter_never_waits:
  assumes "\<And>q n. check_n q n = InsufficientCapacity \<Longrightarrow> until_n_ready q n = 0"
  shows "acquire check_n until_n_ready l count = 0"
  using assms by (simp add: acquire_def split: option.splits check_outcome.splits)

lemma rate_limiter_never_waits_example:
  "acquire (\<lambda>q n. if snd q < n then InsufficientCapacity else NotUntil 500) (\<lambda>q n. if snd q < n then 0 else 500)
     (rate_limiter_new \<lparr> rl_enabled = True, max_messages_per_second = 10, burst_size = 20 \<rparr>) 5 = 0"
  by (rule rate_limiter_never_waits) (simp split: if_splits)

end
