(* ===== verification/Delivery_Model.thy ===== *)
theory Delivery_Model
  imports Tide_Prelude
begin

text \<open>
  \<open>pg-tide-relay/src/delivery_model.rs\<close>: the program's own executable model of one batch's
  delivery.  States, events, facts and the transition function are translated branch by
  branch; an invalid event is an error that carries the state and the event.  The worker's
  stages are shown to follow this machine in \<open>Worker\<close>.
\<close>

datatype delivery_state =
    Polled | Encoded | PublishStarted | SinkAccepted | SinkAcknowledged | DryRunObserved
  | IntentionallyFiltered | PublishFailed | DlqPersisted | CheckpointCommitted | CleanupEligible

datatype delivery_event =
    EvEncoded
  | EvPublishStarted
  | EvSinkAccepted
  | EvSinkAcknowledged u64
  | EvDryRunObserved
  | EvIntentionallyFiltered
  | EvPublishFailed bool
  | EvDlqPersisted
  | EvCheckpointCommitted
  | EvCleanupAllowed
  | EvNextBatch u64

record delivery_facts =
  df_state :: delivery_state
  sink_acknowledged_frontier :: "u64 option"
  source_checkpoint :: "u64 option"
  source_visible :: bool
  duplicate_possible :: bool
  cleanup_allowed :: bool
  failure_transient :: bool

definition facts_polled :: "u64 \<Rightarrow> delivery_facts" where
  "facts_polled checkpoint =
     \<lparr> df_state = Polled, sink_acknowledged_frontier = None, source_checkpoint = Some checkpoint,
       source_visible = True, duplicate_possible = False, cleanup_allowed = False,
       failure_transient = False \<rparr>"

text \<open>
  The acknowledgement arm shared by \<open>PublishStarted\<close> and \<open>SinkAccepted\<close>.  In \<open>transition\<close> the
  last arm is the one of the four terminal dispositions.
\<close>

definition sink_acknowledge ::
    "delivery_facts \<Rightarrow> u64 \<Rightarrow> (delivery_state \<times> delivery_event) + delivery_facts" where
  "sink_acknowledge f fr =
     (if source_checkpoint f = Some fr
      then Inr (f\<lparr>df_state := SinkAcknowledged, sink_acknowledged_frontier := Some fr\<rparr>)
      else Inl (df_state f, EvSinkAcknowledged fr))"

definition transition ::
    "delivery_facts \<Rightarrow> delivery_event \<Rightarrow> (delivery_state \<times> delivery_event) + delivery_facts" where
  "transition f ev =
     (case df_state f of
        Polled \<Rightarrow> (case ev of EvEncoded \<Rightarrow> Inr (f\<lparr>df_state := Encoded\<rparr>) | _ \<Rightarrow> Inl (df_state f, ev))
      | Encoded \<Rightarrow>
          (case ev of
             EvPublishStarted \<Rightarrow> Inr (f\<lparr>df_state := PublishStarted\<rparr>)
           | EvDryRunObserved \<Rightarrow> Inr (f\<lparr>df_state := DryRunObserved\<rparr>)
           | EvIntentionallyFiltered \<Rightarrow> Inr (f\<lparr>df_state := IntentionallyFiltered\<rparr>)
           | _ \<Rightarrow> Inl (df_state f, ev))
      | PublishStarted \<Rightarrow>
          (case ev of
             EvSinkAccepted \<Rightarrow> Inr (f\<lparr>df_state := SinkAccepted, duplicate_possible := True\<rparr>)
           | EvSinkAcknowledged fr \<Rightarrow> sink_acknowledge f fr
           | EvPublishFailed tr \<Rightarrow> Inr (f\<lparr>df_state := PublishFailed, failure_transient := tr\<rparr>)
           | _ \<Rightarrow> Inl (df_state f, ev))
      | SinkAccepted \<Rightarrow>
          (case ev of
             EvSinkAcknowledged fr \<Rightarrow> sink_acknowledge f fr
           | EvPublishFailed tr \<Rightarrow> Inr (f\<lparr>df_state := PublishFailed, failure_transient := tr\<rparr>)
           | _ \<Rightarrow> Inl (df_state f, ev))
      | PublishFailed \<Rightarrow>
          (case ev of EvDlqPersisted \<Rightarrow> Inr (f\<lparr>df_state := DlqPersisted\<rparr>) | _ \<Rightarrow> Inl (df_state f, ev))
      | CheckpointCommitted \<Rightarrow>
          (case ev of
             EvCleanupAllowed \<Rightarrow> Inr (f\<lparr>df_state := CleanupEligible, cleanup_allowed := True\<rparr>)
           | EvNextBatch c \<Rightarrow> Inr (facts_polled c)
           | _ \<Rightarrow> Inl (df_state f, ev))
      | CleanupEligible \<Rightarrow>
          (case ev of EvNextBatch c \<Rightarrow> Inr (facts_polled c) | _ \<Rightarrow> Inl (df_state f, ev))
      | _ \<Rightarrow>
          (case ev of
             EvCheckpointCommitted \<Rightarrow>
               Inr (f\<lparr>df_state := CheckpointCommitted, source_visible := False\<rparr>)
           | _ \<Rightarrow> Inl (df_state f, ev)))"

fun run_delivery ::
    "delivery_facts \<Rightarrow> delivery_event list \<Rightarrow> (delivery_state \<times> delivery_event) + delivery_facts" where
  "run_delivery f [] = Inr f"
| "run_delivery f (e # es) = and_then (transition f e) (\<lambda>f'. run_delivery f' es)"

definition terminal_disposition :: "delivery_state \<Rightarrow> bool" where
  "terminal_disposition s \<longleftrightarrow>
     s \<in> {SinkAcknowledged, DryRunObserved, IntentionallyFiltered, DlqPersisted}"

section \<open>Invariant and traces\<close>

definition facts_inv :: "delivery_facts \<Rightarrow> bool" where
  "facts_inv f \<longleftrightarrow>
     source_checkpoint f \<noteq> None
   \<and> (source_visible f \<longleftrightarrow> df_state f \<notin> {CheckpointCommitted, CleanupEligible})
   \<and> (cleanup_allowed f \<longleftrightarrow> df_state f = CleanupEligible)
   \<and> (df_state f = SinkAcknowledged \<longrightarrow> sink_acknowledged_frontier f = source_checkpoint f)
   \<and> (df_state f = SinkAccepted \<longrightarrow> duplicate_possible f)
   \<and> (sink_acknowledged_frontier f \<noteq> None \<longrightarrow>
        sink_acknowledged_frontier f = source_checkpoint f
      \<and> df_state f \<in> {SinkAcknowledged, CheckpointCommitted, CleanupEligible})"

lemma facts_inv_polled: "facts_inv (facts_polled c)"
  by (simp add: facts_inv_def facts_polled_def)

lemma facts_inv_transition: "facts_inv f \<Longrightarrow> transition f ev = Inr f' \<Longrightarrow> facts_inv f'"
  by (cases "df_state f"; cases ev;
      clarsimp simp: transition_def sink_acknowledge_def facts_inv_def facts_polled_def
        split: if_splits)

lemma facts_inv_run: "facts_inv f \<Longrightarrow> run_delivery f es = Inr f' \<Longrightarrow> facts_inv f'"
  by (induction es arbitrary: f) (auto simp: and_then_Inr_iff dest: facts_inv_transition)

lemma checkpoint_needs_terminal:
  "transition f EvCheckpointCommitted = Inr f' \<longleftrightarrow>
     terminal_disposition (df_state f) \<and>
     f' = f\<lparr>df_state := CheckpointCommitted, source_visible := False\<rparr>"
  by (cases "df_state f") (auto simp: transition_def terminal_disposition_def)

lemma cleanup_needs_checkpoint:
  "transition f EvCleanupAllowed = Inr f' \<longleftrightarrow>
     df_state f = CheckpointCommitted \<and> f' = f\<lparr>df_state := CleanupEligible, cleanup_allowed := True\<rparr>"
  by (cases "df_state f") (auto simp: transition_def)

lemma run_delivery_append:
  "run_delivery f (xs @ ys) = and_then (run_delivery f xs) (\<lambda>f'. run_delivery f' ys)"
  by (induction xs arbitrary: f) (simp_all add: and_then_assoc)

lemma transition_error: "transition f ev = Inl x \<Longrightarrow> x = (df_state f, ev)"
  by (cases "df_state f"; cases ev;
      clarsimp simp: transition_def sink_acknowledge_def split: if_splits)

text \<open>
  A checkpoint is committed only after a terminal disposition of the same batch: along any
  accepted trace the state before the commit event is a terminal one.
\<close>

lemma committed_after_terminal:
  assumes "run_delivery f (xs @ EvCheckpointCommitted # ys) = Inr f'"
  shows "\<exists>g. run_delivery f xs = Inr g \<and> terminal_disposition (df_state g)"
  using assms by (auto simp: run_delivery_append and_then_Inr_iff checkpoint_needs_terminal)

section \<open>Properties\<close>

text \<open>
  In every run of the delivery model a checkpoint is committed only in a terminal disposition of
  the batch (acknowledged, dead-lettered, filtered or dry-run), and what the facts say about
  visibility, cleanup and the acknowledged frontier is an invariant.
\<close>

lemma checkpoint_follows_disposition:
  assumes "run_delivery (facts_polled c) (xs @ EvCheckpointCommitted # ys) = Inr f"
  shows "(\<exists>g. run_delivery (facts_polled c) xs = Inr g \<and> terminal_disposition (df_state g)) \<and> facts_inv f"
  using committed_after_terminal [OF assms] facts_inv_run [OF facts_inv_polled assms] by blast

lemma checkpoint_follows_disposition_example:
  "\<exists>g. run_delivery (facts_polled 3) [EvEncoded, EvPublishStarted, EvSinkAcknowledged 3] = Inr g
     \<and> terminal_disposition (df_state g)"
proof -
  have "\<exists>f. run_delivery (facts_polled 3)
      ([EvEncoded, EvPublishStarted, EvSinkAcknowledged 3] @ EvCheckpointCommitted # [EvCleanupAllowed]) = Inr f"
    by (simp add: facts_polled_def transition_def sink_acknowledge_def)
  then show ?thesis using checkpoint_follows_disposition by blast
qed

end
