(* ===== verification/Pipeline_Config.thy ===== *)
theory Pipeline_Config
  imports Descriptors Nats_Subject Ext_Base
begin

text \<open>
  \<open>pg-tide-relay/src/config/schema_support.rs\<close>, \<open>config/preflight.rs\<close> and the pipeline part
  of \<open>config/mod.rs\<close>: the strict v1 pipeline document, its validation rule by rule, the
  accessors the worker reads the raw row with, and the preflight over all rows that decides
  whether the coordinator starts any worker.  The crates' parts are arguments: the features
  of the build, the URL parser (its scheme), the texts of serde's errors.
\<close>

record schema_env =
  features :: "string set"
  url_scheme :: "string \<Rightarrow> string option"
  serde_text :: "json \<Rightarrow> string"

section \<open>The catalog row and its accessors\<close>

datatype pipeline_direction = Forward | Reverse

record pipeline_config =
  pc_name :: string
  pc_direction :: pipeline_direction
  pc_enabled :: bool
  pc_config :: json
  pc_tenant :: string

fun require_path :: "string \<Rightarrow> json \<Rightarrow> string list \<Rightarrow> relay_error + json" where
  "require_path name v [] = Inr v"
| "require_path name v (k # ks) =
     and_then (ok_or (json_get v k) (MissingConfigKey name k)) (\<lambda>v'. require_path name v' ks)"

definition join_dot :: "string list \<Rightarrow> string" where
  "join_dot ks = concat (map (\<lambda>(i, k). if i = 0 then k else CHR ''.'' # k) (enumerate 0 ks))"

definition require_str :: "pipeline_config \<Rightarrow> string list \<Rightarrow> relay_error + string" where
  "require_str p ks =
     and_then (require_path (pc_name p) (pc_config p) ks) (\<lambda>v.
       ok_or (as_str v) (InvalidConfig (pc_name p) (join_dot ks @ '': expected string'')))"

definition opt_str :: "pipeline_config \<Rightarrow> string list \<Rightarrow> string option" where
  "opt_str p ks = Option.bind (json_path (pc_config p) ks) as_str"

definition opt_i64 :: "pipeline_config \<Rightarrow> string list \<Rightarrow> int option" where
  "opt_i64 p ks = Option.bind (json_path (pc_config p) ks) as_i64"

definition opt_bool :: "pipeline_config \<Rightarrow> string list \<Rightarrow> bool option" where
  "opt_bool p ks = Option.bind (json_path (pc_config p) ks) as_bool"

section \<open>Field checks\<close>

definition pipeline_schema_version :: int where "pipeline_schema_version = 1"

definition invalid :: "string \<Rightarrow> string \<Rightarrow> relay_error" where
  "invalid name reason = InvalidConfig name reason"

type_synonym jmap = "(string \<times> json) list"

text \<open>\<open>field.rsplit('.').next()\<close>: the key is the last segment of the printed field name.\<close>

definition field_key :: "string \<Rightarrow> string" where
  "field_key field = last (split_on CHR ''.'' field)"

definition reject_keys :: "string \<Rightarrow> string \<Rightarrow> jmap \<Rightarrow> string list \<Rightarrow> relay_error + unit" where
  "reject_keys name field values allowed =
     (case List.find (\<lambda>k. k \<notin> set allowed) (map fst values) of
        Some k \<Rightarrow> Inl (invalid name (field @ ''.'' @ k @ '' is not a recognized field''))
      | None \<Rightarrow> Inr ())"

definition require_integer :: "string \<Rightarrow> string \<Rightarrow> json \<Rightarrow> int \<Rightarrow> int \<Rightarrow> relay_error + unit" where
  "require_integer name field v lo hi =
     and_then (ok_or (as_i64 v) (invalid name (field @ '' must be an integer''))) (\<lambda>n.
       ensure (lo \<le> n \<and> n \<le> hi)
         (invalid name (field @ '' must be between '' @ show_int lo @ '' and '' @ show_int hi)))"

definition string_of :: "string \<Rightarrow> string \<Rightarrow> json \<Rightarrow> relay_error + string" where
  "string_of name field v = ok_or (as_str v) (invalid name (field @ '' must be a string''))"

definition require_string_field :: "string \<Rightarrow> string \<Rightarrow> jmap \<Rightarrow> bool \<Rightarrow> relay_error + string" where
  "require_string_field name field values non_empty =
     and_then (ok_or (map_of values (field_key field)) (invalid name (field @ '' is required''))) (\<lambda>v.
     and_then (string_of name field v) (\<lambda>t.
       if non_empty \<and> is_blank t then Inl (invalid name (field @ '' must not be empty'')) else Inr t))"

text \<open>The optional checks hold of an absent key.\<close>

definition on_field :: "string \<Rightarrow> jmap \<Rightarrow> (json \<Rightarrow> relay_error + unit) \<Rightarrow> relay_error + unit" where
  "on_field k values check = (case map_of values k of None \<Rightarrow> Inr () | Some v \<Rightarrow> check v)"

definition optional_string_field :: "string \<Rightarrow> string \<Rightarrow> jmap \<Rightarrow> relay_error + unit" where
  "optional_string_field name field values =
     on_field (field_key field) values (\<lambda>v. and_then (string_of name field v) (\<lambda>_. Inr ()))"

definition optional_non_empty_string_field :: "string \<Rightarrow> string \<Rightarrow> jmap \<Rightarrow> relay_error + unit" where
  "optional_non_empty_string_field name field values =
     on_field (field_key field) values (\<lambda>v. and_then (string_of name field v) (\<lambda>t.
       ensure (\<not> is_blank t) (invalid name (field @ '' must not be empty''))))"

definition optional_bool_field :: "string \<Rightarrow> string \<Rightarrow> jmap \<Rightarrow> relay_error + unit" where
  "optional_bool_field name field values =
     on_field (field_key field) values (\<lambda>v.
       ensure (is_boolean v) (invalid name (field @ '' must be a boolean'')))"

definition is_secret_reference :: "string \<Rightarrow> bool" where
  "is_secret_reference t =
     (case strip_prefix ''${'' t of
        None \<Rightarrow> False
      | Some rest \<Rightarrow>
          (case strip_suffix ''}'' rest of
             None \<Rightarrow> False
           | Some token \<Rightarrow>
               (case split_once CHR '':'' token of
                  None \<Rightarrow> False
                | Some (kind, n) \<Rightarrow> (kind = ''env'' \<or> kind = ''file'') \<and> n \<noteq> [])))"

definition optional_secret_reference_field :: "string \<Rightarrow> string \<Rightarrow> jmap \<Rightarrow> relay_error + unit" where
  "optional_secret_reference_field name field values =
     on_field (field_key field) values (\<lambda>v. and_then (string_of name field v) (\<lambda>t.
       ensure (is_secret_reference t) (invalid name (field @ '' must be an env/file secret reference''))))"

definition validate_destination_text :: "string \<Rightarrow> string \<Rightarrow> json \<Rightarrow> relay_error + unit" where
  "validate_destination_text name field v =
     and_then (string_of name field v) (\<lambda>t.
       ensure (\<not> (is_blank t \<or> has_control t))
         (invalid name (field @ '' contains invalid destination text'')))"

definition secret_text_ok :: "string \<Rightarrow> bool" where
  "secret_text_ok t =
     list_all (\<lambda>part. case split_once CHR ''}'' part of
                 None \<Rightarrow> False
               | Some (token, _) \<Rightarrow> starts_with ''env:'' token \<or> starts_with ''file:'' token
                                  \<or> starts_with ''ENV:'' token)
       (tl (split_sub ''${'' t))"

fun validate_secret_references :: "string \<Rightarrow> json \<Rightarrow> relay_error + unit" where
  "validate_secret_references name (JStr t) =
     (if str_contains ''${'' t then ensure (secret_text_ok t) (invalid name ''invalid secret reference syntax'')
      else Inr ())"
| "validate_secret_references name (JArr vs) = checks (map (validate_secret_references name) vs)"
| "validate_secret_references name (JObj kvs) = checks (map (\<lambda>kv. validate_secret_references name (snd kv)) kvs)"
| "validate_secret_references name _ = Inr ()"

section \<open>Connectors\<close>

definition validate_connector :: "string \<Rightarrow> string \<Rightarrow> string \<Rightarrow> bool \<Rightarrow> relay_error + unit" where
  "validate_connector name field connector v1_only =
     (let accepted =
        (if v1_only
         then (if field = ''source_type'' then connector \<in> set v1_source_types
               else if field = ''sink_type'' then connector \<in> set v1_sink_types else False)
         else (if field = ''source_type'' then source_type_to_descriptor connector \<noteq> None
               else if field = ''sink_type'' then sink_type_to_descriptor connector \<noteq> None else False))
      in if accepted then Inr ()
         else if v1_only
         then Inl (UnsupportedSurface (field @ ''='' @ connector)
                (if field = ''source_type'' then ''outbox''
                 else ''inbox, nats, kafka, webhook, stdout, or file''))
         else Inl (invalid name (field @ '' '' @ quoted connector @ '' is not supported by pipeline schema v1'')))"

definition descriptor_of :: "string \<Rightarrow> connector_descriptor option" where
  "descriptor_of connector =
     (case source_type_to_descriptor connector of
        Some d \<Rightarrow> Some d | None \<Rightarrow> sink_type_to_descriptor connector)"

definition connector_available :: "string set \<Rightarrow> string \<Rightarrow> bool" where
  "connector_available fs connector \<longleftrightarrow>
     (connector \<in> set v1_source_types \<or> connector \<in> set v1_sink_types)
   \<and> (case descriptor_of connector of None \<Rightarrow> False | Some d \<Rightarrow> is_available fs d)"

definition extra_fields :: "string \<Rightarrow> string list" where
  "extra_fields connector =
     (if connector = ''nats''
      then [''allow_insecure'', ''token'', ''username'', ''password'', ''credentials_file'',
            ''tls_ca_file'', ''tls_client_cert'', ''tls_client_key'']
      else if connector = ''kafka''
      then [''security_protocol'', ''allow_insecure'', ''ssl_ca_location'',
            ''ssl_certificate_location'', ''ssl_key_location'', ''sasl_mechanism'',
            ''sasl_username'', ''sasl_password'']
      else [])"

definition validate_connector_fields :: "string \<Rightarrow> string \<Rightarrow> string \<Rightarrow> jmap \<Rightarrow> relay_error + unit" where
  "validate_connector_fields name field connector values =
     (case descriptor_of connector of
        Some d \<Rightarrow> reject_keys name field values (config_fields d @ extra_fields connector)
      | None \<Rightarrow> Inl (invalid name (''unsupported '' @ field @ '' for connector '' @ quoted connector)))"

definition validate_supported_source :: "string \<Rightarrow> string \<Rightarrow> jmap \<Rightarrow> relay_error + unit" where
  "validate_supported_source name source_type values =
     (if source_type \<noteq> ''outbox'' then Inr ()
      else checks
        [and_then (require_string_field name ''source.outbox'' values True) (\<lambda>_. Inr ()),
         optional_non_empty_string_field name ''source.consumer_group'' values,
         optional_non_empty_string_field name ''source.consumer_id'' values,
         on_field ''subject_template'' values (validate_destination_text name ''source.subject_template''),
         on_field ''visibility_seconds'' values (\<lambda>v.
           require_integer name ''source.visibility_seconds'' v 1 (2 ^ 31 - 1))])"

definition get_flag :: "string \<Rightarrow> jmap \<Rightarrow> bool" where
  "get_flag k values = unwrap_or (Option.bind (map_of values k) as_bool) False"

definition both :: "string \<Rightarrow> string \<Rightarrow> jmap \<Rightarrow> bool" where
  "both a b values \<longleftrightarrow> has_key a values \<and> has_key b values"

definition validate_output_format :: "string \<Rightarrow> jmap \<Rightarrow> relay_error + unit" where
  "validate_output_format name values =
     on_field ''format'' values (\<lambda>v. and_then (string_of name ''sink.format'' v) (\<lambda>f.
       ensure (f = ''jsonl'' \<or> f = ''pretty'')
         (invalid name (''sink.format must be '' @ quoted ''jsonl'' @ '' or '' @ quoted ''pretty''))))"

definition nats_subject_field :: "schema_env \<Rightarrow> string \<Rightarrow> jmap \<Rightarrow> string \<Rightarrow> relay_error + unit" where
  "nats_subject_field env name values field =
     on_field field values (\<lambda>v.
       and_then (validate_destination_text name (''sink.'' @ field) v) (\<lambda>_.
         if ''nats'' \<in> features env
         then (case as_str v of
                 None \<Rightarrow> Inr ()
               | Some s \<Rightarrow> map_err (\<lambda>e. invalid name (show_relay_error e)) (validate_subject s))
         else Inr ()))"

definition validate_nats_sink :: "schema_env \<Rightarrow> string \<Rightarrow> jmap \<Rightarrow> relay_error + unit" where
  "validate_nats_sink env name values =
     (let scheme = hd (split_on CHR '':'' (unwrap_or (Option.bind (map_of values ''url'') as_str) []))
      in checks
        ([and_then (require_string_field name ''sink.url'' values True) (\<lambda>_. Inr ()),
          optional_bool_field name ''sink.allow_insecure'' values,
          ensure (scheme = ''tls'' \<or> (get_flag ''allow_insecure'' values \<and> scheme = ''nats''))
            (invalid name ''sink.url must use tls:// unless sink.allow_insecure is true'')]
         @ map (\<lambda>f. optional_secret_reference_field name (''sink.'' @ f) values) [''token'', ''password'']
         @ map (\<lambda>f. optional_non_empty_string_field name (''sink.'' @ f) values)
             [''username'', ''credentials_file'', ''tls_ca_file'', ''tls_client_cert'', ''tls_client_key'']
         @ [ensure (\<not> (has_key ''token'' values \<and>
                (has_key ''username'' values \<or> has_key ''password'' values \<or> has_key ''credentials_file'' values)))
              (invalid name ''NATS authentication methods are mutually exclusive''),
            ensure (has_key ''username'' values = has_key ''password'' values)
              (invalid name ''NATS username and password must be supplied together''),
            ensure (has_key ''tls_client_cert'' values = has_key ''tls_client_key'' values)
              (invalid name ''NATS TLS client certificate and key must be supplied together''),
            optional_string_field name ''sink.subject'' values,
            optional_string_field name ''sink.subject_template'' values,
            ensure (\<not> both ''subject'' ''subject_template'' values)
              (invalid name ''sink.subject and sink.subject_template are mutually exclusive'')]
         @ map (nats_subject_field env name values) [''subject'', ''subject_template'']))"

definition validate_kafka_sink :: "string \<Rightarrow> jmap \<Rightarrow> relay_error + unit" where
  "validate_kafka_sink name values =
     (let protocol = unwrap_or (Option.bind (map_of values ''security_protocol'') as_str) ''ssl''
      in checks
        ([and_then (require_string_field name ''sink.brokers'' values True) (\<lambda>_. Inr ()),
          optional_bool_field name ''sink.allow_insecure'' values,
          ensure (protocol \<in> {''ssl'', ''sasl_ssl'', ''plaintext'', ''sasl_plaintext''})
            (invalid name ''sink.security_protocol is invalid''),
          ensure (\<not> (protocol \<in> {''plaintext'', ''sasl_plaintext''} \<and> \<not> get_flag ''allow_insecure'' values))
            (invalid name ''plaintext Kafka requires sink.allow_insecure=true'')]
         @ map (\<lambda>f. optional_non_empty_string_field name (''sink.'' @ f) values)
             [''ssl_ca_location'', ''ssl_certificate_location'', ''ssl_key_location'', ''sasl_username'']
         @ [optional_secret_reference_field name ''sink.sasl_password'' values,
            on_field ''sasl_mechanism'' values (\<lambda>v.
              ensure (as_str v \<in> {Some ''PLAIN'', Some ''SCRAM-SHA-256'', Some ''SCRAM-SHA-512''})
                (invalid name ''unsupported Kafka sasl_mechanism'')),
            ensure (\<not> both ''topic'' ''topic_template'' values)
              (invalid name ''sink.topic and sink.topic_template are mutually exclusive'')]
         @ map (\<lambda>f. on_field f values (validate_destination_text name (''sink.'' @ f)))
             [''topic'', ''topic_template'']))"

definition validate_webhook_sink :: "schema_env \<Rightarrow> string \<Rightarrow> jmap \<Rightarrow> relay_error + unit" where
  "validate_webhook_sink env name values =
     and_then (require_string_field name ''sink.url'' values True) (\<lambda>url.
     and_then (ok_or (url_scheme env url) (invalid name ''sink.url must be a valid URL'')) (\<lambda>scheme.
     and_then (case map_of values ''allow_http'' of
                 None \<Rightarrow> Inr False
               | Some v \<Rightarrow> ok_or (as_bool v) (invalid name ''sink.allow_http must be a boolean'')) (\<lambda>allow_http.
       checks
         [ensure (scheme = ''https'' \<or> (allow_http \<and> scheme = ''http''))
            (invalid name ''sink.url must use HTTPS unless sink.allow_http is true''),
          on_field ''timeout_secs'' values (\<lambda>v.
            and_then (ok_or (as_i64 v) (invalid name ''sink.timeout_secs must be an integer'')) (\<lambda>t.
              ensure (1 \<le> t \<and> t \<le> 300) (invalid name ''sink.timeout_secs must be between 1 and 300''))),
          optional_bool_field name ''sink.ssrf_protection'' values,
          optional_bool_field name ''sink.allow_http'' values,
          optional_secret_reference_field name ''sink.signing_secret'' values,
          on_field ''signing_algorithm'' values (\<lambda>v.
            and_then (ok_or (as_str v) (invalid name ''sink.signing_algorithm must be a string'')) (\<lambda>a.
              ensure (a = ''hmac-sha256'')
                (invalid name (''sink.signing_algorithm must be '' @ quoted ''hmac-sha256''))))])))"

definition validate_supported_sink :: "schema_env \<Rightarrow> string \<Rightarrow> string \<Rightarrow> jmap \<Rightarrow> relay_error + unit" where
  "validate_supported_sink env name sink_type values =
     (if \<not> is_supported_sink_type sink_type then Inr ()
      else if sink_type = ''inbox'' then checks
        [and_then (require_string_field name ''sink.inbox'' values True) (\<lambda>_. Inr ()),
         optional_non_empty_string_field name ''sink.postgres_url'' values]
      else if sink_type = ''pg_outbox'' then checks
        [and_then (require_string_field name ''sink.inbox'' values True) (\<lambda>_. Inr ()),
         and_then (require_string_field name ''sink.postgres_url'' values True) (\<lambda>_. Inr ())]
      else if sink_type = ''nats'' then validate_nats_sink env name values
      else if sink_type = ''kafka'' then validate_kafka_sink name values
      else if sink_type = ''webhook'' then validate_webhook_sink env name values
      else if sink_type = ''stdout'' then checks
        [reject_keys name ''sink'' values [''format''], validate_output_format name values]
      else if sink_type = ''file'' then checks
        [and_then (require_string_field name ''sink.path'' values True) (\<lambda>_. Inr ()),
         reject_keys name ''sink'' values [''path'', ''format''],
         validate_output_format name values]
      else Inr ())"

end
