(* ===== verification/Pipeline_Document.thy ===== *)
theory Pipeline_Document
  imports Pipeline_Config
begin

text \<open>
  The v1 pipeline document of \<open>config/schema_support.rs\<close>: normalisation of legacy rows,
  deserialisation with unknown fields denied, validation in the order of the code, and the
  aggregate preflight of \<open>config/preflight.rs\<close>.  The lemmas show what an accepted document
  guarantees to the worker and which sinks can be accepted at all.
\<close>

record pipeline_document =
  pd_schema_version :: int
  pd_source_type :: string
  pd_source :: jmap
  pd_sink_type :: string
  pd_sink :: jmap
  pd_batch_size :: "int option"
  pd_retry :: "jmap option"
  pd_dlq :: "jmap option"
  pd_wire_format :: "string option"

section \<open>Deserialisation\<close>

definition document_fields :: "string list" where
  "document_fields = [''schema_version'', ''source_type'', ''source'', ''sink_type'', ''sink'',
     ''batch_size'', ''retry'', ''dlq'', ''wire_format'']"

text \<open>An \<open>Option\<close> field: a missing key and \<open>null\<close> are \<open>None\<close>, a value of the wrong type an error.\<close>

definition opt_field :: "string \<Rightarrow> jmap \<Rightarrow> (json \<Rightarrow> 'a option) \<Rightarrow> 'a option option" where
  "opt_field k m f =
     (case map_of m k of None \<Rightarrow> Some None
      | Some v \<Rightarrow> if v = JNull then Some None else map_option Some (f v))"

definition as_u8 :: "json \<Rightarrow> int option" where
  "as_u8 v = (case v of JInt i \<Rightarrow> if 0 \<le> i \<and> i \<le> 255 then Some i else None | _ \<Rightarrow> None)"

definition document_of :: "jmap \<Rightarrow> pipeline_document option" where
  "document_of m =
     (if \<not> list_all (\<lambda>k. k \<in> set document_fields) (map fst m) then None
      else
        Option.bind (case map_of m ''schema_version'' of None \<Rightarrow> Some 1 | Some v \<Rightarrow> as_u8 v) (\<lambda>sv.
        Option.bind (Option.bind (map_of m ''source_type'') as_str) (\<lambda>st.
        Option.bind (Option.bind (map_of m ''source'') as_object) (\<lambda>src.
        Option.bind (Option.bind (map_of m ''sink_type'') as_str) (\<lambda>kt.
        Option.bind (Option.bind (map_of m ''sink'') as_object) (\<lambda>snk.
        Option.bind (opt_field ''batch_size'' m as_i64) (\<lambda>bs.
        Option.bind (opt_field ''retry'' m as_object) (\<lambda>rt.
        Option.bind (opt_field ''dlq'' m as_object) (\<lambda>dl.
        Option.bind (opt_field ''wire_format'' m as_str) (\<lambda>wf.
          Some \<lparr> pd_schema_version = sv, pd_source_type = st, pd_source = src, pd_sink_type = kt,
                 pd_sink = snk, pd_batch_size = bs, pd_retry = rt, pd_dlq = dl,
                 pd_wire_format = wf \<rparr>))))))))))"

definition normalize :: "jmap \<Rightarrow> jmap" where
  "normalize m0 =
     (let m1 = (if has_key ''sink'' m0 then m0
                else case map_of m0 ''config'' of
                       Some (JObj sink) \<Rightarrow> map_insert ''sink'' (JObj sink) (map_remove ''config'' m0)
                     | _ \<Rightarrow> map_remove ''config'' m0);
          m2 = (if \<not> has_key ''source_type'' m1 \<and> has_key ''source'' m1
                then map_insert ''source_type'' (JStr ''outbox'') m1 else m1)
      in if has_key ''schema_version'' m2 then m2
         else map_insert ''schema_version'' (JInt pipeline_schema_version) m2)"

section \<open>Validation\<close>

definition validate_batch_size :: "string \<Rightarrow> pipeline_document \<Rightarrow> relay_error + unit" where
  "validate_batch_size name d =
     (case (pd_batch_size d, sink_type_to_descriptor (pd_sink_type d)) of
        (Some n, Some desc) \<Rightarrow>
          (case c_capabilities desc of
             Some c \<Rightarrow>
               ensure (n \<le> int (max_batch_size c))
                 (invalid name (''batch_size '' @ show_int n @ '' exceeds ''
                    @ show_nat (max_batch_size c) @ '' maximum for sink_type '' @ quoted (pd_sink_type d)))
           | None \<Rightarrow> Inr ())
      | _ \<Rightarrow> Inr ())"

definition validate_retry :: "string \<Rightarrow> jmap option \<Rightarrow> relay_error + unit" where
  "validate_retry name r =
     (case r of None \<Rightarrow> Inr ()
      | Some m \<Rightarrow> checks
          [reject_keys name ''retry'' m [''max_retries'', ''backoff_ms''],
           on_field ''max_retries'' m (\<lambda>v. require_integer name ''retry.max_retries'' v 0 100000),
           on_field ''backoff_ms'' m (\<lambda>v. require_integer name ''retry.backoff_ms'' v 0 i64_max)])"

definition validate_dlq :: "string \<Rightarrow> jmap option \<Rightarrow> relay_error + unit" where
  "validate_dlq name r =
     (case r of None \<Rightarrow> Inr ()
      | Some m \<Rightarrow> checks
          [reject_keys name ''dlq'' m [''enabled'', ''max_retries''],
           on_field ''enabled'' m (\<lambda>v. ensure (is_boolean v) (invalid name ''dlq.enabled must be a boolean'')),
           on_field ''max_retries'' m (\<lambda>v. require_integer name ''dlq.max_retries'' v 0 100000)])"

definition validate_wire_format :: "string option \<Rightarrow> relay_error + unit" where
  "validate_wire_format w =
     (case w of None \<Rightarrow> Inr ()
      | Some f \<Rightarrow> ensure (f = ''native'' \<or> f = ''cloudevents'')
          (UnsupportedSurface (''wire_format='' @ f) ''wire_format=native or wire_format=cloudevents''))"

definition validate_with_mode :: "schema_env \<Rightarrow> string \<Rightarrow> bool \<Rightarrow> pipeline_document \<Rightarrow> relay_error + unit" where
  "validate_with_mode env name v1_only d =
     checks
       [ensure (pd_schema_version d = pipeline_schema_version)
          (invalid name (''unsupported schema_version '' @ show_int (pd_schema_version d))),
        ensure (\<not> (is_blank (pd_source_type d) \<or> is_blank (pd_sink_type d)))
          (invalid name ''source_type and sink_type must not be empty''),
        validate_wire_format (pd_wire_format d),
        (case pd_batch_size d of None \<Rightarrow> Inr ()
         | Some n \<Rightarrow> ensure (1 \<le> n \<and> n \<le> 1000000) (invalid name ''batch_size must be between 1 and 1000000'')),
        validate_connector name ''source_type'' (pd_source_type d) v1_only,
        validate_connector name ''sink_type'' (pd_sink_type d) v1_only,
        validate_connector_fields name ''source'' (pd_source_type d) (pd_source d),
        validate_connector_fields name ''sink'' (pd_sink_type d) (pd_sink d),
        validate_supported_source name (pd_source_type d) (pd_source d),
        validate_supported_sink env name (pd_sink_type d) (pd_sink d),
        validate_batch_size name d,
        validate_retry name (pd_retry d),
        validate_dlq name (pd_dlq d),
        validate_secret_references name (JObj (pd_source d)),
        validate_secret_references name (JObj (pd_sink d))]"

definition parse_with_mode :: "schema_env \<Rightarrow> string \<Rightarrow> json \<Rightarrow> bool \<Rightarrow> relay_error + pipeline_document" where
  "parse_with_mode env name raw v1_only =
     and_then (ok_or (as_object raw) (invalid name ''pipeline config must be an object'')) (\<lambda>m.
     and_then (ok_or (document_of (normalize m)) (invalid name (serde_text env (JObj (normalize m))))) (\<lambda>d.
     and_then (validate_with_mode env name v1_only d) (\<lambda>_. Inr d)))"

definition parse_document :: "schema_env \<Rightarrow> string \<Rightarrow> json \<Rightarrow> relay_error + pipeline_document" where
  "parse_document env name raw = parse_with_mode env name raw True"

text \<open>\<open>canonical_json\<close>: the options without a skip attribute are written as \<open>null\<close>.\<close>

definition canonical_json :: "pipeline_document \<Rightarrow> json" where
  "canonical_json d =
     JObj ([(''batch_size'', case pd_batch_size d of None \<Rightarrow> JNull | Some n \<Rightarrow> JInt n),
            (''dlq'', case pd_dlq d of None \<Rightarrow> JNull | Some m \<Rightarrow> JObj m),
            (''retry'', case pd_retry d of None \<Rightarrow> JNull | Some m \<Rightarrow> JObj m),
            (''schema_version'', JInt (pd_schema_version d)),
            (''sink'', JObj (pd_sink d)),
            (''sink_type'', JStr (pd_sink_type d)),
            (''source'', JObj (pd_source d)),
            (''source_type'', JStr (pd_source_type d))]
           @ (case pd_wire_format d of None \<Rightarrow> [] | Some f \<Rightarrow> [(''wire_format'', JStr f)]))"

definition validate_pipeline :: "schema_env \<Rightarrow> pipeline_config \<Rightarrow> relay_error + pipeline_document" where
  "validate_pipeline env p = parse_document env (pc_name p) (pc_config p)"

section \<open>Preflight\<close>

datatype severity = SevError | SevWarning

record preflight_issue =
  pi_pipeline :: string
  pi_severity :: severity
  pi_reason :: string

definition availability_issue :: "schema_env \<Rightarrow> pipeline_config \<Rightarrow> string \<Rightarrow> string \<Rightarrow>
    connector_descriptor option \<Rightarrow> preflight_issue list" where
  "availability_issue env p field connector desc =
     (if (case desc of None \<Rightarrow> False | Some d \<Rightarrow> is_available (features env) d) then []
      else [\<lparr> pi_pipeline = pc_name p, pi_severity = (if pc_enabled p then SevError else SevWarning),
              pi_reason = field @ '' '' @ quoted connector @ '' is not compiled in'' \<rparr>])"

definition pipeline_issues :: "schema_env \<Rightarrow> pipeline_config \<Rightarrow> preflight_issue list" where
  "pipeline_issues env p =
     (case parse_document env (pc_name p) (pc_config p) of
        Inr d \<Rightarrow>
          availability_issue env p ''source_type'' (pd_source_type d) (source_type_to_descriptor (pd_source_type d))
          @ availability_issue env p ''sink_type'' (pd_sink_type d) (sink_type_to_descriptor (pd_sink_type d))
          @ (if pd_schema_version d \<noteq> pipeline_schema_version
             then [\<lparr> pi_pipeline = pc_name p, pi_severity = SevError, pi_reason = ''unsupported schema version'' \<rparr>]
             else [])
      | Inl e \<Rightarrow> [\<lparr> pi_pipeline = pc_name p, pi_severity = SevError, pi_reason = show_relay_error e \<rparr>])"

text \<open>The report is sorted by pipeline, then reason: two stable sorts, the minor key first.\<close>

definition validate_pipelines :: "schema_env \<Rightarrow> pipeline_config list \<Rightarrow> preflight_issue list" where
  "validate_pipelines env ps =
     sort_key pi_pipeline (sort_key pi_reason (concat (map (pipeline_issues env) ps)))"

definition report_valid :: "preflight_issue list \<Rightarrow> bool" where
  "report_valid issues \<longleftrightarrow> \<not> list_ex (\<lambda>i. pi_severity i = SevError) issues"

section \<open>What an accepted document guarantees\<close>

lemma on_field_Inr_iff [result_simps]:
  "on_field k values check = Inr () \<longleftrightarrow> (\<forall>v. map_of values k = Some v \<longrightarrow> check v = Inr ())"
  by (cases "map_of values k") (auto simp: on_field_def)

lemma reject_keys_Inr_iff [result_simps]:
  "reject_keys name field values allowed = Inr () \<longleftrightarrow> fst ` set values \<subseteq> set allowed"
proof (cases "List.find (\<lambda>k. k \<notin> set allowed) (map fst values)")
  case None
  then have "fst ` set values \<subseteq> set allowed" by (auto simp: find_None_iff)
  with None show ?thesis by (simp add: reject_keys_def)
next
  case (Some k)
  from find_Some_D [OF this] have "k \<in> fst ` set values" "k \<notin> set allowed" by auto
  with Some show ?thesis by (auto simp: reject_keys_def)
qed

lemma require_integer_Inr_iff [result_simps]:
  "require_integer name field v lo hi = Inr () \<longleftrightarrow> (\<exists>n. as_i64 v = Some n \<and> lo \<le> n \<and> n \<le> hi)"
  by (auto simp: require_integer_def and_then_Inr_iff)

lemma require_string_field_Inr_iff [result_simps]:
  "require_string_field name field values ne = Inr t \<longleftrightarrow>
     map_of values (field_key field) = Some (JStr t) \<and> (ne \<longrightarrow> \<not> is_blank t)"
  by (auto simp: require_string_field_def string_of_def and_then_Inr_iff)

lemma discard_Inr_iff: "and_then r (\<lambda>_. Inr ()) = Inr () \<longleftrightarrow> is_ok r"
  by (cases r) auto

lemma require_string_field_ok:
  "is_ok (require_string_field name field values ne) \<longleftrightarrow>
     (\<exists>t. map_of values (field_key field) = Some (JStr t) \<and> (ne \<longrightarrow> \<not> is_blank t))"
  by (auto simp: is_ok_iff require_string_field_Inr_iff)

lemma field_keys [simp]:
  "field_key ''source.outbox'' = ''outbox''" "field_key ''sink.inbox'' = ''inbox''"
  "field_key ''sink.postgres_url'' = ''postgres_url''" "field_key ''sink.url'' = ''url''"
  "field_key ''sink.brokers'' = ''brokers''" "field_key ''sink.path'' = ''path''"
  "field_key ''sink.signing_secret'' = ''signing_secret''"
  "field_key ''sink.sasl_password'' = ''sasl_password''"
  "field_key ''source.consumer_group'' = ''consumer_group''"
  "field_key ''source.consumer_id'' = ''consumer_id''"
  by (simp_all add: field_key_def)

lemma validate_mode_Inr:
  assumes "validate_with_mode env name v d = Inr ()"
  shows "pd_schema_version d = 1"
    and "\<And>f. pd_wire_format d = Some f \<Longrightarrow> f = ''native'' \<or> f = ''cloudevents''"
    and "\<And>n. pd_batch_size d = Some n \<Longrightarrow> 1 \<le> n \<and> n \<le> 1000000"
    and "validate_connector name ''source_type'' (pd_source_type d) v = Inr ()"
    and "validate_connector name ''sink_type'' (pd_sink_type d) v = Inr ()"
    and "validate_connector_fields name ''source'' (pd_source_type d) (pd_source d) = Inr ()"
    and "validate_connector_fields name ''sink'' (pd_sink_type d) (pd_sink d) = Inr ()"
    and "validate_supported_source name (pd_source_type d) (pd_source d) = Inr ()"
    and "validate_supported_sink env name (pd_sink_type d) (pd_sink d) = Inr ()"
    and "validate_batch_size name d = Inr ()"
    and "validate_retry name (pd_retry d) = Inr ()"
    and "validate_dlq name (pd_dlq d) = Inr ()"
    and "validate_secret_references name (JObj (pd_source d)) = Inr ()"
    and "validate_secret_references name (JObj (pd_sink d)) = Inr ()"
  using assms unfolding validate_with_mode_def checks_Inr_iff
  by (auto simp: pipeline_schema_version_def validate_wire_format_def)

lemma source_type_iff:
  "validate_connector name ''source_type'' t True = Inr () \<longleftrightarrow> t = ''outbox''"
  by (auto simp: validate_connector_def Let_def v1_source_types_def)

lemma sink_type_iff:
  "validate_connector name ''sink_type'' t True = Inr () \<longleftrightarrow> t \<in> set v1_sink_types"
  by (auto simp: validate_connector_def Let_def)

lemma connector_fields_iff:
  "validate_connector_fields name field t values = Inr () \<longleftrightarrow>
     (\<exists>d. descriptor_of t = Some d \<and> fst ` set values \<subseteq> set (config_fields d) \<union> set (extra_fields t))"
  by (auto simp: validate_connector_fields_def reject_keys_Inr_iff split: option.splits)

lemma parse_Inr:
  "parse_document env name raw = Inr d \<longleftrightarrow>
     (\<exists>m. raw = JObj m \<and> document_of (normalize m) = Some d \<and> validate_with_mode env name True d = Inr ())"
  by (cases raw) (auto simp: parse_document_def parse_with_mode_def and_then_Inr_iff)

text \<open>Normalising touches only the keys of legacy rows.\<close>

lemma legacy_sink_cases:
  "(case x of Some (JObj s) \<Rightarrow> f s | _ \<Rightarrow> g) = g \<or> (\<exists>s. (case x of Some (JObj s) \<Rightarrow> f s | _ \<Rightarrow> g) = f s)"
  by (cases x) (auto split: json.split)

lemma normalize_cases:
  "\<exists>m1. (m1 = m \<or> m1 = map_remove ''config'' m \<or> (\<exists>s. m1 = map_insert ''sink'' (JObj s) (map_remove ''config'' m)))
    \<and> normalize m = (let m2 = (if \<not> has_key ''source_type'' m1 \<and> has_key ''source'' m1
                                then map_insert ''source_type'' (JStr ''outbox'') m1 else m1)
        in if has_key ''schema_version'' m2 then m2 else map_insert ''schema_version'' (JInt pipeline_schema_version) m2)"
proof (cases "has_key ''sink'' m")
  case True
  then show ?thesis by (intro exI [of _ m]) (simp add: normalize_def)
next
  case False
  let ?m1 = "case map_of m ''config'' of Some (JObj sink) \<Rightarrow> map_insert ''sink'' (JObj sink) (map_remove ''config'' m)
    | _ \<Rightarrow> map_remove ''config'' m"
  show ?thesis
  proof (intro exI [of _ ?m1] conjI)
    show "?m1 = m \<or> ?m1 = map_remove ''config'' m \<or> (\<exists>s. ?m1 = map_insert ''sink'' (JObj s) (map_remove ''config'' m))"
      by (rule disjI2) (rule legacy_sink_cases)
  qed (simp only: normalize_def Let_def False if_False)
qed

lemma normalize_field:
  assumes "k \<noteq> ''sink''" and "k \<noteq> ''config''" and "k \<noteq> ''source_type''" and "k \<noteq> ''schema_version''"
  shows "map_of (normalize m) k = map_of m k"
  using normalize_cases [of m] assms by (auto simp: Let_def)

lemma normalize_source_type:
  assumes "map_of m ''source_type'' = Some v"
  shows "map_of (normalize m) ''source_type'' = Some v"
  using normalize_cases [of m] assms by (auto simp: Let_def has_key_def)

lemma parsed_source_outbox:
  assumes "parse_document env name raw = Inr d"
  shows "pd_source_type d = ''outbox'' \<and> (\<exists>ob. map_of (pd_source d) ''outbox'' = Some (JStr ob) \<and> \<not> is_blank ob)"
proof -
  from assms have v: "validate_with_mode env name True d = Inr ()" by (auto simp: parse_Inr)
  then have t: "pd_source_type d = ''outbox''" using validate_mode_Inr(4) source_type_iff by metis
  from validate_mode_Inr(8) [OF v] t
  have "is_ok (require_string_field name ''source.outbox'' (pd_source d) True)"
    by (simp add: validate_supported_source_def checks_Inr_iff discard_Inr_iff)
  with t show ?thesis by (auto simp: require_string_field_ok)
qed

text \<open>
  The registry lists no configuration field for the diagnostic connector, so the generic
  field check refuses the \<open>path\<close> that the \<open>file\<close> sink requires.
\<close>

lemma diagnostics_fields: "config_fields diagnostics_connector = []"
  by (simp add: diagnostics_connector_def)

lemma parsed_sink_fields:
  assumes "parse_document env name raw = Inr d" and "sink_type_to_descriptor (pd_sink_type d) = Some desc"
  shows "fst ` set (pd_sink d) \<subseteq> set (config_fields desc) \<union> set (extra_fields (pd_sink_type d))"
proof -
  from assms have v: "validate_with_mode env name True d = Inr ()" by (auto simp: parse_Inr)
  from assms(2) have "source_type_to_descriptor (pd_sink_type d) = None"
    by (auto simp: source_descriptor_cases sink_descriptor_cases split: if_splits)
  with assms(2) have "descriptor_of (pd_sink_type d) = Some desc"
    by (simp add: descriptor_of_def)
  with validate_mode_Inr(7) [OF v] show ?thesis by (auto simp: connector_fields_iff)
qed

lemma file_sink_never_parses:
  "parse_document env name raw = Inr d \<Longrightarrow> pd_sink_type d \<noteq> ''file''"
proof
  assume p: "parse_document env name raw = Inr d" and f: "pd_sink_type d = ''file''"
  then have v: "validate_with_mode env name True d = Inr ()" by (auto simp: parse_Inr)
  from f have "sink_type_to_descriptor (pd_sink_type d) = Some diagnostics_connector"
    by (simp add: sink_descriptor_cases)
  from parsed_sink_fields [OF p this] f diagnostics_fields have "pd_sink d = []"
    by (simp add: extra_fields_def)
  with validate_mode_Inr(9) [OF v] f show False
    by (simp add: validate_supported_sink_def is_supported_sink_type_def v1_sink_types_def checks_Inr_iff
        discard_Inr_iff require_string_field_ok)
qed

lemma stdout_sink_has_no_options:
  "parse_document env name raw = Inr d \<Longrightarrow> pd_sink_type d = ''stdout'' \<Longrightarrow> pd_sink d = []"
  using parsed_sink_fields [of env name raw d diagnostics_connector] diagnostics_fields
  by (simp add: sink_descriptor_cases extra_fields_def)

lemma parsed_sink_supported:
  "parse_document env name raw = Inr d \<Longrightarrow>
     pd_sink_type d \<in> {''inbox'', ''kafka'', ''nats'', ''pg_outbox'', ''stdout'', ''webhook''}"
proof -
  assume p: "parse_document env name raw = Inr d"
  then have "validate_with_mode env name True d = Inr ()" by (auto simp: parse_Inr)
  then have "pd_sink_type d \<in> set v1_sink_types" using validate_mode_Inr(5) sink_type_iff by metis
  with file_sink_never_parses [OF p] show ?thesis by (auto simp: v1_sink_types_def)
qed

lemma parsed_batch_within_capability:
  assumes "parse_document env name raw = Inr d" and "pd_batch_size d = Some n"
    and "sink_type_to_descriptor (pd_sink_type d) = Some desc" and "c_capabilities desc = Some c"
  shows "1 \<le> n \<and> n \<le> int (max_batch_size c)"
proof -
  from assms have v: "validate_with_mode env name True d = Inr ()" by (auto simp: parse_Inr)
  with validate_mode_Inr(3,10) [OF v] assms(2-4) show ?thesis
    by (auto simp: validate_batch_size_def)
qed

section \<open>Canonical form\<close>

lemma canonical_round_trip_raw:
  assumes "0 \<le> pd_schema_version d" and "pd_schema_version d \<le> 255"
    and "\<And>n. pd_batch_size d = Some n \<Longrightarrow> i64_min \<le> n \<and> n \<le> i64_max"
  shows "\<exists>m. canonical_json d = JObj m \<and> document_of (normalize m) = Some d"
proof -
  obtain m where m: "canonical_json d = JObj m" by (simp add: canonical_json_def)
  then have k: "has_key ''sink'' m" "has_key ''source_type'' m" "has_key ''schema_version'' m"
    by (auto simp: canonical_json_def has_key_def)
  then have n: "normalize m = m" by (simp add: normalize_def Let_def)
  have "document_of m = Some d"
    using m assms
    by (cases "pd_wire_format d"; cases "pd_batch_size d"; cases "pd_dlq d"; cases "pd_retry d")
      (auto simp: canonical_json_def document_of_def document_fields_def opt_field_def as_u8_def)
  with m n show ?thesis by simp
qed

lemma canonical_round_trip:
  assumes "parse_document env name raw = Inr d"
  shows "parse_document env name (canonical_json d) = Inr d"
proof -
  from assms have v: "validate_with_mode env name True d = Inr ()" by (auto simp: parse_Inr)
  have b: "i64_min \<le> n \<and> n \<le> i64_max" if "pd_batch_size d = Some n" for n
    using validate_mode_Inr(3) [OF v that] by (simp add: i64_min_def i64_max_def)
  from canonical_round_trip_raw [of d] validate_mode_Inr(1) [OF v] b
  obtain m where "canonical_json d = JObj m" "document_of (normalize m) = Some d" by auto
  with v show ?thesis by (auto simp: parse_Inr)
qed

section \<open>Preflight\<close>

lemma report_valid_iff:
  "report_valid (validate_pipelines env ps) \<longleftrightarrow>
     (\<forall>p \<in> set ps. \<exists>d. validate_pipeline env p = Inr d \<and>
        (pc_enabled p \<longrightarrow> (\<exists>c. sink_type_to_descriptor (pd_sink_type d) = Some c \<and> is_available (features env) c)))"
proof -
  have "report_valid (validate_pipelines env ps) \<longleftrightarrow>
      (\<forall>p \<in> set ps. \<forall>i \<in> set (pipeline_issues env p). pi_severity i \<noteq> SevError)"
    by (auto simp: report_valid_def validate_pipelines_def list_ex_iff)
  also have "\<dots> \<longleftrightarrow> (\<forall>p \<in> set ps. \<exists>d. validate_pipeline env p = Inr d \<and>
        (pc_enabled p \<longrightarrow> (\<exists>c. sink_type_to_descriptor (pd_sink_type d) = Some c \<and> is_available (features env) c)))"
  proof (intro ball_cong refl)
    fix p
    show "(\<forall>i \<in> set (pipeline_issues env p). pi_severity i \<noteq> SevError) \<longleftrightarrow>
        (\<exists>d. validate_pipeline env p = Inr d \<and>
        (pc_enabled p \<longrightarrow> (\<exists>c. sink_type_to_descriptor (pd_sink_type d) = Some c \<and> is_available (features env) c)))"
    proof (cases "parse_document env (pc_name p) (pc_config p)")
      case (Inl e)
      then show ?thesis by (simp add: pipeline_issues_def validate_pipeline_def)
    next
      case (Inr d)
      from parsed_source_outbox [OF Inr] have st: "source_type_to_descriptor (pd_source_type d) = Some outbox_connector"
        by (simp add: source_descriptor_cases)
      have av: "is_available (features env) outbox_connector"
        by (simp add: is_available_def outbox_connector_def)
      from Inr have "validate_with_mode env (pc_name p) True d = Inr ()" by (auto simp: parse_Inr)
      then have sv: "pd_schema_version d = pipeline_schema_version"
        using validate_mode_Inr(1) by (simp add: pipeline_schema_version_def)
      from Inr st av sv show ?thesis
        by (auto simp: pipeline_issues_def validate_pipeline_def availability_issue_def split: option.splits)
    qed
  qed
  finally show ?thesis .
qed

section \<open>A concrete document\<close>

definition plain_env :: schema_env where
  "plain_env = \<lparr> features = {''stdout'', ''webhook''}, url_scheme = \<lambda>_. Some ''https'', serde_text = \<lambda>_. '''' \<rparr>"

definition hook_document :: json where
  "hook_document = JObj [(''source_type'', JStr ''outbox''), (''source'', JObj [(''outbox'', JStr ''orders'')]),
     (''sink_type'', JStr ''webhook''), (''sink'', JObj [(''url'', JStr ''https://x''), (''signing_secret'', JStr ''${env:K}'')])]"

definition hook_parsed :: pipeline_document where
  "hook_parsed = the (document_of (normalize (the (as_object hook_document))))"

lemma hook_fields: "document_of (normalize (the (as_object hook_document))) = Some hook_parsed" "pd_sink_type hook_parsed = ''webhook''"
  "pd_source_type hook_parsed = ''outbox''" "pd_sink hook_parsed = [(''url'', JStr ''https://x''), (''signing_secret'', JStr ''${env:K}'')]"
  "pd_source hook_parsed = [(''outbox'', JStr ''orders'')]" "pd_schema_version hook_parsed = 1" "pd_batch_size hook_parsed = None"
  "pd_retry hook_parsed = None" "pd_dlq hook_parsed = None" "pd_wire_format hook_parsed = None"
  by code_simp+

lemma hook_url_not_blank: "\<not> is_blank ''https://x''" 
  using is_blank_head [of "CHR ''h''" "''ttps://x''"] by (auto simp add: ws1_def byte_def simp del: is_blank.simps)

lemma hook_sink_keys: "field_key ''sink.ssrf_protection'' = ''ssrf_protection''" "field_key ''sink.allow_http'' = ''allow_http''" by code_simp+

lemma hook_reference: "is_secret_reference ''${env:K}''"
  by code_simp

lemma hook_sink_valid: "validate_supported_sink plain_env ''p'' ''webhook'' [(''url'', JStr ''https://x''), (''signing_secret'', JStr ''${env:K}'')] = Inr ()"
  using hook_url_not_blank hook_reference by (simp add: validate_supported_sink_def is_supported_sink_type_def v1_sink_types_def validate_webhook_sink_def
    require_string_field_def string_of_def optional_bool_field_def optional_secret_reference_field_def on_field_def checks_Inr_iff plain_env_def hook_sink_keys
    del: is_blank.simps)

lemma hook_source_keys: "field_key ''source.consumer_group'' = ''consumer_group''" "field_key ''source.consumer_id'' = ''consumer_id''" by code_simp+

lemma orders_not_blank: "\<not> is_blank ''orders''"
  using is_blank_head [of "CHR ''o''" "''rders''"] by (auto simp add: ws1_def byte_def simp del: is_blank.simps)

lemma hook_source_valid: "validate_supported_source ''p'' ''outbox'' [(''outbox'', JStr ''orders'')] = Inr ()"
  using orders_not_blank by (simp add: validate_supported_source_def require_string_field_def string_of_def hook_source_keys on_field_def
     optional_non_empty_string_field_def checks_Inr_iff del: is_blank.simps)

lemma hook_references_valid: "validate_secret_references ''p'' (JObj [(''outbox'', JStr ''orders'')]) = Inr ()" "validate_secret_references ''p'' (JObj [(''url'', JStr ''https://x''), (''signing_secret'', JStr ''${env:K}'')]) = Inr ()"
  by code_simp+

lemma hook_types_not_blank: "\<not> is_blank ''outbox''" "\<not> is_blank ''webhook''"
  by code_simp+

lemma hook_document_valid: "validate_with_mode plain_env ''p'' True hook_parsed = Inr ()"
  by (simp add: validate_with_mode_def checks_Inr_iff hook_fields hook_sink_valid hook_source_valid hook_references_valid pipeline_schema_version_def source_type_iff sink_type_iff
   connector_fields_iff validate_batch_size_def validate_retry_def validate_dlq_def validate_wire_format_def descriptor_of_def
   sink_descriptor_cases source_descriptor_cases connector_defs v1_sink_types_def extra_fields_def hook_types_not_blank del: is_blank.simps validate_secret_references.simps)

section \<open>Properties\<close>

text \<open>
  C26: Parsing the canonical JSON of a parsed document gives the same document: a stored pipeline can be
  rewritten in canonical form without changing its meaning.
\<close>

theorem canonical_json_round_trip:
  assumes "parse_document env name raw = Inr d"
  shows "parse_document env name (canonical_json d) = Inr d"
  using assms by (rule canonical_round_trip)

lemma hook_document_parses: "parse_document plain_env ''p'' hook_document = Inr hook_parsed"
  using hook_fields(1) hook_document_valid unfolding parse_Inr by (auto simp: hook_document_def)

theorem canonical_json_round_trip_witness:
  "parse_document plain_env ''p'' (canonical_json hook_parsed) = Inr hook_parsed"
  by (rule canonical_json_round_trip [OF hook_document_parses])

text \<open>
  The preflight report is valid exactly when every row parses and every enabled row has a sink the
  build has: one row that does not is enough to keep all pipelines from starting.
\<close>

lemma preflight_valid_exactly:
  "report_valid (validate_pipelines env ps) \<longleftrightarrow>
     (\<forall>p \<in> set ps. \<exists>d. validate_pipeline env p = Inr d \<and>
        (pc_enabled p \<longrightarrow> (\<exists>c. sink_type_to_descriptor (pd_sink_type d) = Some c \<and> is_available (features env) c)))"
  by (rule report_valid_iff)

text \<open>
  C36: A document that parses reads a named outbox, writes to a sink type that is described, sets no
  sink field its connector does not know, and asks for a batch the connector can take.
\<close>

theorem parsed_document_is_deliverable:
  assumes "parse_document env name raw = Inr d"
  shows "pd_source_type d = ''outbox'' \<and> (\<exists>ob. map_of (pd_source d) ''outbox'' = Some (JStr ob) \<and> \<not> is_blank ob)
    \<and> (\<exists>c. sink_type_to_descriptor (pd_sink_type d) = Some c
         \<and> fst ` set (pd_sink d) \<subseteq> set (config_fields c) \<union> set (extra_fields (pd_sink_type d))
         \<and> (\<forall>n k. pd_batch_size d = Some n \<longrightarrow> c_capabilities c = Some k \<longrightarrow> 1 \<le> n \<and> n \<le> int (max_batch_size k)))"
proof -
  have "pd_sink_type d \<in> {''inbox'', ''kafka'', ''nats'', ''pg_outbox'', ''stdout'', ''webhook''}"
    using parsed_sink_supported [OF assms] .
  then obtain c where c: "sink_type_to_descriptor (pd_sink_type d) = Some c"
    by (auto simp: sink_descriptor_cases)
  then show ?thesis
    using parsed_source_outbox [OF assms] parsed_sink_fields [OF assms c] parsed_batch_within_capability [OF assms _ c]
    by blast
qed

theorem parsed_document_is_deliverable_witness:
  "\<exists>ob. map_of (pd_source hook_parsed) ''outbox'' = Some (JStr ob) \<and> \<not> is_blank ob"
  using parsed_document_is_deliverable [OF hook_document_parses] by blast

text \<open>
  No document with a \<open>file\<close> sink is ever accepted, although \<open>file\<close> is listed as a supported sink.
\<close>

lemma file_sink_is_never_accepted:
  "is_supported_sink_type ''file'' \<and> (\<forall>d. parse_document env name raw = Inr d \<longrightarrow> pd_sink_type d \<noteq> ''file'')"
  using file_sink_never_parses by (auto simp: supported_sink_has_descriptor sink_descriptor_cases)

lemma file_sink_is_never_accepted_example:
  "parse_document plain_env ''p'' hook_document = Inr hook_parsed \<and> pd_sink_type hook_parsed \<noteq> ''file''"
  using file_sink_is_never_accepted [of plain_env "''p''" hook_document] hook_document_parses by blast

lemma preflight_valid_exactly_example:
  "report_valid (validate_pipelines plain_env [\<lparr> pc_name = ''p'', pc_direction = Forward, pc_enabled = True,
     pc_config = hook_document, pc_tenant = ''default'' \<rparr>])"
  unfolding preflight_valid_exactly
  using hook_document_parses hook_fields
  by (simp add: validate_pipeline_def sink_descriptor_cases is_available_def webhook_connector_def plain_env_def)

end
