(* ===== verification/Wire_Format.thy ===== *)
theory Wire_Format
  imports Envelope
begin

text \<open>
  \<open>pg-tide-relay/src/wire_format/\<close>: the native and CloudEvents formats, their configuration and
  the factory the worker calls at start.  Serde's reader and writer, fresh UUIDs and the clock
  are arguments.  The lemmas show that what a format encodes decodes to the same event.
\<close>

record raw_message =
  rm_key :: "string option"
  rm_value :: "string option"
  rm_topic :: string

record wire_inbox_row =
  wi_event_id :: string
  wi_event_type :: string
  wi_payload :: json
  wi_op :: string
  wi_commit_ts :: "string option"

record wire_outbox_row =
  wo_outbox_id :: int
  wo_stream_table :: string
  wo_database :: string
  wo_schema :: string
  wo_op :: string
  wo_new_row :: "json option"
  wo_old_row :: "json option"
  wo_commit_ts :: "string option"

definition inbox_row_from_message :: "relay_message \<Rightarrow> wire_inbox_row" where
  "inbox_row_from_message m =
     \<lparr> wi_event_id = dedup_key m, wi_event_type = subject m, wi_payload = payload m,
       wi_op = msg_op m, wi_commit_ts = None \<rparr>"

definition outbox_row_from_message :: "relay_message \<Rightarrow> wire_outbox_row" where
  "outbox_row_from_message m =
     \<lparr> wo_outbox_id = unwrap_or (outbox_id m) 0, wo_stream_table = subject m,
       wo_database = ''postgres'', wo_schema = ''public'', wo_op = msg_op m,
       wo_new_row = (if msg_op m \<noteq> ''delete'' then Some (payload m) else None),
       wo_old_row = (if msg_op m = ''delete'' \<or> msg_op m = ''update'' then Some (payload m) else None),
       wo_commit_ts = None \<rparr>"

record encode_context =
  ec_server :: string
  ec_topic_template :: string
  ec_emit_tombstones :: bool
  ec_heartbeat_ms :: nat

definition encode_context_default :: encode_context where
  "encode_context_default =
     \<lparr> ec_server = ''pg-tide'', ec_topic_template = ''{server}.{schema}.{stream_table}'',
       ec_emit_tombstones = True, ec_heartbeat_ms = 10000 \<rparr>"

definition resolve_topic :: "encode_context \<Rightarrow> wire_outbox_row \<Rightarrow> string" where
  "resolve_topic ctx row =
     str_replace ''{database}'' (wo_database row)
      (str_replace ''{stream_table}'' (wo_stream_table row)
        (str_replace ''{schema}'' (wo_schema row)
          (str_replace ''{server}'' (ec_server ctx) (ec_topic_template ctx))))"

datatype wire_error =
    WDecode string string
  | WEncode int string
  | WUnsupportedOperation string string
  | WJson string

record encoded_message =
  em_topic :: string
  em_key :: "string option"
  em_value :: "string option"

section \<open>Native\<close>

definition native_decode ::
    "(string \<Rightarrow> string + json) \<Rightarrow> string \<Rightarrow> raw_message \<Rightarrow> wire_error + wire_inbox_row option" where
  "native_decode from_slice uuid raw =
     (case rm_value raw of
        None \<Rightarrow> Inr None
      | Some bytes \<Rightarrow>
          and_then (map_err (\<lambda>e. WDecode (rm_topic raw) (''native: JSON decode failed: '' @ e)) (from_slice bytes)) (\<lambda>v.
            let op1 = Option.bind (json_get v ''op'') as_str;
                op2 = (case op1 of Some s \<Rightarrow> Some s | None \<Rightarrow> Option.bind (json_get v ''operation'') as_str)
            in Inr (Some \<lparr> wi_event_id = unwrap_or (Option.bind (json_get v ''dedup_key'') as_str) uuid,
                           wi_event_type = rm_topic raw, wi_payload = v,
                           wi_op = unwrap_or op2 ''event'', wi_commit_ts = None \<rparr>)))"

definition json_option :: "json option \<Rightarrow> json" where
  "json_option v = unwrap_or v JNull"

definition row_data :: "wire_outbox_row \<Rightarrow> json option" where
  "row_data row = (case wo_new_row row of Some v \<Rightarrow> Some v | None \<Rightarrow> wo_old_row row)"

definition native_value :: "wire_outbox_row \<Rightarrow> json" where
  "native_value row =
     JObj [(''op'', JStr (wo_op row)), (''outbox_id'', JInt (wo_outbox_id row)),
           (''payload'', json_option (row_data row)), (''stream_table'', JStr (wo_stream_table row))]"

definition native_encode ::
    "(json \<Rightarrow> string + string) \<Rightarrow> encode_context \<Rightarrow> wire_outbox_row \<Rightarrow> wire_error + encoded_message list" where
  "native_encode to_vec ctx row =
     and_then (map_err (WEncode (wo_outbox_id row)) (to_vec (native_value row))) (\<lambda>bytes.
       Inr [\<lparr> em_topic = resolve_topic ctx row,
              em_key = Some (wo_stream_table row @ '':'' @ show_int (wo_outbox_id row)),
              em_value = Some bytes \<rparr>])"

section \<open>CloudEvents\<close>

record cloudevents_config =
  ce_source_template :: string
  ce_type_prefix :: string
  ce_include_op :: bool

definition cloudevents_default :: cloudevents_config where
  "cloudevents_default =
     \<lparr> ce_source_template = ''/pgtide/{server}/{schema}/{stream_table}'', ce_type_prefix = ''io.pgtide'',
       ce_include_op = True \<rparr>"

definition cloudevents_from_config :: "json \<Rightarrow> cloudevents_config" where
  "cloudevents_from_config cfg =
     \<lparr> ce_source_template = unwrap_or (Option.bind (json_get cfg ''source_template'') as_str)
                              (ce_source_template cloudevents_default),
       ce_type_prefix = unwrap_or (Option.bind (json_get cfg ''type_prefix'') as_str)
                              (ce_type_prefix cloudevents_default),
       ce_include_op = unwrap_or (Option.bind (json_get cfg ''include_op_extension'') as_bool)
                              (ce_include_op cloudevents_default) \<rparr>"

definition resolve_source :: "cloudevents_config \<Rightarrow> string \<Rightarrow> string \<Rightarrow> string \<Rightarrow> string" where
  "resolve_source c server schema table =
     str_replace ''{stream_table}'' table
      (str_replace ''{schema}'' schema (str_replace ''{server}'' server (ce_source_template c)))"

definition op_of_type :: "string \<Rightarrow> string" where
  "op_of_type t =
     unwrap_or (List.find (\<lambda>s. ends_with s t) [''insert'', ''update'', ''delete'']) ''event''"

definition cloudevents_decode ::
    "(string \<Rightarrow> string + json) \<Rightarrow> (string \<Rightarrow> string option) \<Rightarrow> string \<Rightarrow> raw_message \<Rightarrow>
       wire_error + wire_inbox_row option" where
  "cloudevents_decode from_slice parse_time uuid raw =
     (case rm_value raw of
        None \<Rightarrow> Inr None
      | Some bytes \<Rightarrow>
          and_then (map_err (\<lambda>e. WDecode (rm_topic raw) (''cloudevents: JSON parse failed: '' @ e)) (from_slice bytes)) (\<lambda>v.
            let version = unwrap_or (Option.bind (json_get v ''specversion'') as_str) [];
                id0 = unwrap_or (Option.bind (json_get v ''id'') as_str) [];
                ty = unwrap_or (Option.bind (json_get v ''type'') as_str) []
            in if version \<noteq> ''1.0''
               then Inl (WDecode (rm_topic raw)
                      (''cloudevents: unsupported specversion '' @ quoted version @ '', expected '' @ quoted ''1.0''))
               else Inr (Some
                 \<lparr> wi_event_id = (if id0 = [] then uuid else id0), wi_event_type = ty,
                   wi_payload = unwrap_or (json_get v ''data'') (JObj []),
                   wi_op = unwrap_or (Option.bind (json_get v ''ce-op'') as_str) (op_of_type ty),
                   wi_commit_ts = Option.bind (Option.bind (json_get v ''time'') as_str) parse_time \<rparr>)))"

text \<open>\<open>now\<close> is the text of the current time, \<open>show_time\<close> prints a commit timestamp.\<close>

definition cloudevents_value :: "cloudevents_config \<Rightarrow> string \<Rightarrow> encode_context \<Rightarrow> wire_outbox_row \<Rightarrow> json" where
  "cloudevents_value c now ctx row =
     JObj ((if ce_include_op c then [(''ce-op'', JStr (wo_op row))] else [])
       @ [(''data'', json_option (row_data row)),
          (''datacontenttype'', JStr ''application/json''),
          (''id'', JStr (show_int (wo_outbox_id row))),
          (''source'', JStr (resolve_source c (ec_server ctx) (wo_schema row) (wo_stream_table row))),
          (''specversion'', JStr ''1.0''),
          (''time'', JStr (unwrap_or (wo_commit_ts row) now)),
          (''type'', JStr (ce_type_prefix c @ ''.'' @ wo_op row))])"

definition cloudevents_encode ::
    "(json \<Rightarrow> string + string) \<Rightarrow> cloudevents_config \<Rightarrow> string \<Rightarrow> encode_context \<Rightarrow> wire_outbox_row \<Rightarrow>
       wire_error + encoded_message list" where
  "cloudevents_encode to_vec c now ctx row =
     and_then (map_err (WEncode (wo_outbox_id row)) (to_vec (cloudevents_value c now ctx row))) (\<lambda>bytes.
       Inr [\<lparr> em_topic = resolve_topic ctx row, em_key = Some (wo_stream_table row @ '':'' @ show_int (wo_outbox_id row)),
              em_value = Some bytes \<rparr>])"

section \<open>The factory\<close>

datatype wire_format = Native | CloudEvents cloudevents_config

fun wire_name :: "wire_format \<Rightarrow> string" where
  "wire_name Native = ''native''"
| "wire_name (CloudEvents _) = ''cloudevents''"

definition removed_formats :: "string list" where
  "removed_formats = [''debezium'', ''maxwell'', ''canal'', ''cdc_json'']"

definition wire_from_config :: "json \<Rightarrow> relay_error + wire_format" where
  "wire_from_config config =
     (let f = unwrap_or (Option.bind (json_get config ''wire_format'') as_str) ''native'' in
      if f = ''native'' then Inr Native
      else if f = ''cloudevents''
      then Inr (CloudEvents (cloudevents_from_config (unwrap_or (json_get config ''wire_config'') JNull)))
      else if f \<in> set removed_formats
      then Inl (UnsupportedSurface (''wire_format='' @ f) ''native or cloudevents'')
      else Inl (InvalidConfig ''wire_format'' (''unknown wire_format '' @ quoted f)))"

section \<open>Round trips\<close>

lemma show_int_nonempty [simp]: "show_int i \<noteq> []"
  by (simp add: show_int_def)

lemma native_round_trip:
  assumes "native_encode to_vec ctx row = Inr ms"
    and "\<And>bytes. to_vec (native_value row) = Inr bytes \<Longrightarrow> from_slice bytes = Inr (native_value row)"
  shows "\<exists>m. ms = [m] \<and>
    (\<exists>r. native_decode from_slice uuid \<lparr> rm_key = em_key m, rm_value = em_value m, rm_topic = em_topic m \<rparr>
          = Inr (Some r) \<and> wi_op r = wo_op row \<and> wi_payload r = native_value row)"
  using assms
  by (auto simp: native_encode_def native_decode_def and_then_Inr_iff Let_def native_value_def)

lemma cloudevents_round_trip:
  assumes "cloudevents_encode to_vec c now ctx row = Inr ms" and "ce_include_op c"
    and "\<And>bytes. to_vec (cloudevents_value c now ctx row) = Inr bytes \<Longrightarrow>
           from_slice bytes = Inr (cloudevents_value c now ctx row)"
  shows "\<exists>m. ms = [m] \<and>
    (\<exists>r. cloudevents_decode from_slice parse_time uuid
            \<lparr> rm_key = em_key m, rm_value = em_value m, rm_topic = em_topic m \<rparr> = Inr (Some r)
       \<and> wi_event_id r = show_int (wo_outbox_id row) \<and> wi_op r = wo_op row
       \<and> wi_event_type r = ce_type_prefix c @ ''.'' @ wo_op row
       \<and> wi_payload r = json_option (row_data row))"
  using assms
  by (auto simp: cloudevents_encode_def cloudevents_decode_def and_then_Inr_iff Let_def cloudevents_value_def)

section \<open>Properties\<close>

text \<open>
  C39: What the CloudEvents encoder writes for a row, the decoder reads back: the id, the operation, the
  type and the data, provided that serde reads what it wrote.
\<close>

theorem cloudevents_encode_decode:
  assumes "cloudevents_encode to_vec c now ctx row = Inr ms" and "ce_include_op c"
    and "\<And>bytes. to_vec (cloudevents_value c now ctx row) = Inr bytes \<Longrightarrow> from_slice bytes = Inr (cloudevents_value c now ctx row)"
  shows "\<exists>m. ms = [m] \<and> (\<exists>r. cloudevents_decode from_slice parse_time uuid
            \<lparr> rm_key = em_key m, rm_value = em_value m, rm_topic = em_topic m \<rparr> = Inr (Some r)
       \<and> wi_event_id r = show_int (wo_outbox_id row) \<and> wi_op r = wo_op row
       \<and> wi_event_type r = ce_type_prefix c @ ''.'' @ wo_op row
       \<and> wi_payload r = json_option (row_data row))"
  using assms by (rule cloudevents_round_trip)

definition wire_demo :: wire_outbox_row where
  "wire_demo = \<lparr> wo_outbox_id = 7, wo_stream_table = ''orders'', wo_database = ''db'', wo_schema = ''public'', wo_op = ''insert'',
     wo_new_row = Some (JInt 1), wo_old_row = None, wo_commit_ts = None \<rparr>"

theorem cloudevents_encode_decode_witness:
  "\<exists>(m :: encoded_message) (r :: wire_inbox_row). cloudevents_encode (\<lambda>_. Inr ''x'') cloudevents_default ''now'' encode_context_default wire_demo = Inr [m]
     \<and> wi_event_id r = show_int 7 \<and> wi_payload r = JInt 1"
proof -
  let ?v = "cloudevents_value cloudevents_default ''now'' encode_context_default wire_demo"
  have e: "is_ok (cloudevents_encode (\<lambda>_. Inr ''x'') cloudevents_default ''now'' encode_context_default wire_demo)"
    by (simp add: cloudevents_encode_def)
  then obtain ms where ms: "cloudevents_encode (\<lambda>_. Inr ''x'') cloudevents_default ''now'' encode_context_default wire_demo = Inr ms"
    by (auto simp: is_ok_iff)
  have "ce_include_op cloudevents_default" by (simp add: cloudevents_default_def)
  from cloudevents_encode_decode [OF ms this, of "\<lambda>_. Inr ?v" "\<lambda>_. None" "''u''"]
  obtain m :: encoded_message and r :: wire_inbox_row where "ms = [m]" "wi_event_id r = show_int (wo_outbox_id wire_demo)"
    "wi_payload r = json_option (row_data wire_demo)" by blast
  with ms show ?thesis
    by (intro exI [of _ m] exI [of _ r]) (simp add: wire_demo_def row_data_def json_option_def)
qed

end
