(* ===== verification/Worker.thy ===== *)
theory Worker
  imports Outbox_Source Webhook Circuit_Breaker Rate_Limiter Delivery_Model Pipeline_Document Wire_Format
begin

text \<open>
  The pipeline worker of \<open>pg-tide-relay/src/coordinator.rs\<close>: its stages (\<open>poll_and_decode\<close>,
  \<open>validate_publish_limits\<close>, \<open>publish_with_circuit_breaker\<close>, \<open>handle_publish_outcome\<close>,
  \<open>route_to_dlq\<close>, \<open>commit_checkpoint\<close>) and one iteration of the loop of \<open>worker_inner\<close>, which
  composes them.  The sink is an argument: its \<open>publish\<close> with an environment for the attempt.
  Everything an iteration meets from outside (failures of statements, the clock, the stop
  flag, failpoints) is one environment record.  The stages a worker logs are kept, and are
  shown to be a run of the delivery model.
\<close>

section \<open>Configuration of a worker\<close>

record worker_config =
  wc_pipeline :: pipeline_config
  wc_group :: string
  wc_batch_size :: int
  wc_poll_interval :: u64
  wc_max_backoff :: u64
  wc_max_inflight :: u64
  wc_dry_run :: bool
  wc_dlq :: dlq_config
  wc_limiter :: pipeline_rate_limiter
  wc_wire :: wire_format
  wc_replay :: "(int \<times> int) option"
  wc_receipt_outbox :: string
  wc_sink_name :: string

text \<open>The part of \<open>worker_inner\<close> before the source and the sink are built.\<close>

definition validate_db_role :: "(string \<Rightarrow> string option) \<Rightarrow> pipeline_config \<Rightarrow> relay_error + unit" where
  "validate_db_role set_role p =
     (case opt_str p [''db_role''] of
        None \<Rightarrow> Inr ()
      | Some role \<Rightarrow>
          if role = [] then Inr ()
          else
            and_then (map_err (\<lambda>e. InvalidConfig (pc_name p) (''db_role validation failed: '' @ show_relay_error e))
                        (validate_relay_identifier role)) (\<lambda>_.
              case set_role role of
                None \<Rightarrow> Inr ()
              | Some e \<Rightarrow> Inl (InvalidConfig (pc_name p) (''SET ROLE '' @ quoted role @ '' failed: '' @ e))))"

definition worker_config_of ::
    "(string \<Rightarrow> string option) \<Rightarrow> pipeline_config \<Rightarrow> string \<Rightarrow> string \<Rightarrow> int \<Rightarrow> (int \<times> int) option \<Rightarrow>
       relay_error + worker_config" where
  "worker_config_of set_role p grp sink_name default_batch replay =
     and_then (validate_db_role set_role p) (\<lambda>_.
     and_then (wire_from_config (pc_config p)) (\<lambda>wire.
       Inr \<lparr> wc_pipeline = p, wc_group = grp,
             wc_batch_size = unwrap_or (opt_i64 p [''batch_size'']) default_batch,
             wc_poll_interval = word_of_int (unwrap_or (opt_i64 p [''poll_interval_ms'']) 1000),
             wc_max_backoff = (case opt_i64 p [''max_poll_backoff_ms''] of
                                 None \<Rightarrow> 60000 | Some v \<Rightarrow> word_of_int v),
             wc_max_inflight = word_of_int (unwrap_or (opt_i64 p [''sink_max_inflight'']) 0),
             wc_dry_run = unwrap_or (opt_bool p [''dry_run'']) False,
             wc_dlq = dlq_config_parse (pc_config p),
             wc_limiter = build_rate_limiter (pc_config p),
             wc_wire = wire, wc_replay = replay,
             wc_receipt_outbox = unwrap_or (opt_str p [''source'', ''outbox'']) (pc_name p),
             wc_sink_name = sink_name \<rparr>))"

text \<open>\<open>build_source\<close>; the sink factories are in \<open>Sinks\<close> and \<open>Webhook\<close>.\<close>

definition build_source ::
    "pg_error option \<Rightarrow> string \<Rightarrow> pipeline_config \<Rightarrow> string \<Rightarrow> tide_db \<Rightarrow> relay_error + outbox_source" where
  "build_source e worker p grp db =
     and_then (require_str p [''source_type'']) (\<lambda>st.
     and_then (ensure (st = ''outbox'')
        (InvalidConfig (pc_name p) (''only source_type '' @ quoted ''outbox'' @ '' is supported''))) (\<lambda>_.
     and_then (require_str p [''source'', ''outbox'']) (\<lambda>ob.
       let template = unwrap_or (opt_str p [''source'', ''subject_template'']) ''{outbox}.{op}''
       in case opt_str p [''source'', ''consumer_group''] of
            Some g \<Rightarrow>
              new_consumer_group worker ob template grp (pc_name p) g
                (unwrap_or (opt_str p [''source'', ''consumer_id'']) ''pg-tide'')
                (as_i32 (unwrap_or (opt_i64 p [''source'', ''visibility_seconds'']) 30))
          | None \<Rightarrow> new_simple_native e worker ob template grp (pc_name p) db)))"

section \<open>The stages\<close>

datatype poll_outcome =
    PollBatch "relay_message list" "relay_message option"
  | PollEmpty
  | PollTransient relay_error
  | PollPermanent relay_error
  | ReplayComplete

definition filter_replay_batch :: "int option \<Rightarrow> int option \<Rightarrow> relay_message list \<Rightarrow> relay_message list" where
  "filter_replay_batch from_id to_id ms =
     filter (\<lambda>m. let i = unwrap_or (outbox_id m) 0
                 in (case from_id of None \<Rightarrow> True | Some f \<Rightarrow> f \<le> i)
                  \<and> (case to_id of None \<Rightarrow> True | Some t \<Rightarrow> i \<le> t)) ms"

definition poll_and_decode ::
    "source_env \<Rightarrow> int \<Rightarrow> (int \<times> int) option \<Rightarrow> outbox_source \<Rightarrow> tide_db \<Rightarrow>
       outbox_source \<times> tide_db \<times> poll_outcome" where
  "poll_and_decode env n replay src db =
     (case poll env n src db of
        (src', db', r) \<Rightarrow>
          (src', db',
           case r of
             Inl e \<Rightarrow> if is_transient e then PollTransient e else PollPermanent e
           | Inr ms \<Rightarrow>
               if ms = [] then (if replay \<noteq> None then ReplayComplete else PollEmpty)
               else
                 (case replay of
                    None \<Rightarrow> PollBatch ms (Some (last ms))
                  | Some (f, t) \<Rightarrow>
                      let ms' = filter_replay_batch (Some f) (Some t) ms
                      in if ms' = [] then ReplayComplete else PollBatch ms' (Some (last ms)))))"

datatype publish_outcome = PublishOk | PublishFailure relay_error | BreakerOpen

text \<open>The clock is read by \<open>should_allow\<close> and again by \<open>record_failure\<close>.\<close>

definition publish_with_circuit_breaker ::
    "('env \<Rightarrow> relay_message list \<Rightarrow> 's \<Rightarrow> 's \<times> (relay_error + unit)) \<Rightarrow> 'env \<Rightarrow> nat \<times> nat \<Rightarrow>
       relay_message list \<Rightarrow> 's \<Rightarrow> circuit_breaker \<Rightarrow> 's \<times> circuit_breaker \<times> publish_outcome" where
  "publish_with_circuit_breaker publish env clock ms s cb =
     (let (allow, cb1) = should_allow (fst clock) cb in
      if \<not> allow then (s, cb1, BreakerOpen)
      else case publish env ms s of
             (s', Inr _) \<Rightarrow> (s', record_success cb1, PublishOk)
           | (s', Inl e) \<Rightarrow> (s', record_failure (snd clock) cb1, PublishFailure e))"

definition too_large :: "string \<Rightarrow> string \<Rightarrow> relay_error" where
  "too_large sink_type summary = ConnectorFailure sink_type MessageTooLarge Permanent summary"

text \<open>The sizes are \<open>u64\<close>; the sum saturates.\<close>

fun message_sizes :: "encoder \<Rightarrow> string \<Rightarrow> nat \<Rightarrow> relay_message list \<Rightarrow> nat \<Rightarrow> relay_error + nat" where
  "message_sizes enc sink_type limit [] acc = Inr acc"
| "message_sizes enc sink_type limit (m # ms) acc =
     and_then (map_err Json (enc m)) (\<lambda>text.
       if limit < length text
       then Inl (too_large sink_type ''encoded message exceeds the connector message-size limit'')
       else message_sizes enc sink_type limit ms (min (nat u64_max) (acc + length text)))"

definition validate_publish_limits :: "encoder \<Rightarrow> pipeline_config \<Rightarrow> relay_message list \<Rightarrow> relay_error + unit" where
  "validate_publish_limits enc p ms =
     and_then (require_str p [''sink_type'']) (\<lambda>sink_type.
     and_then (ok_or (sink_type_to_descriptor sink_type)
        (InvalidConfig (pc_name p) (''unknown sink_type '' @ quoted sink_type))) (\<lambda>d.
       case c_capabilities d of
         None \<Rightarrow> Inr ()
       | Some c \<Rightarrow>
           if max_batch_size c < length ms
           then Inl (too_large sink_type ''publish batch exceeds the connector message-count limit'')
           else and_then (message_sizes enc sink_type (max_message_bytes c) ms 0) (\<lambda>bytes.
             if max_batch_bytes c < bytes
             then Inl (too_large sink_type ''encoded batch exceeds the connector byte limit'')
             else Inr ())))"

datatype worker_directive =
    Continue
  | BackoffMs u64
  | RouteToDlq string error_kind
  | Shutdown relay_error

definition safe_dlq_reason :: "relay_error \<Rightarrow> string" where
  "safe_dlq_reason e = show_failure_code (public_code e) @ '': '' @ public_summary e"

text \<open>The counter is a \<open>u32\<close>; the result is the new counter and the directive.\<close>

definition handle_publish_outcome ::
    "publish_outcome \<Rightarrow> u32 \<Rightarrow> dlq_config \<Rightarrow> u64 \<Rightarrow> u32 \<times> worker_directive" where
  "handle_publish_outcome outcome failures dlq poll_interval =
     (case outcome of
        PublishOk \<Rightarrow> (0, Continue)
      | BreakerOpen \<Rightarrow>
          (failures, if dlq_enabled dlq then RouteToDlq ''circuit breaker open'' SinkPermanent
                     else BackoffMs poll_interval)
      | PublishFailure e \<Rightarrow>
          (let failures' = failures + 1 in
           if retry_class_of e = Permanent
           then (failures',
                 if dlq_enabled dlq then RouteToDlq (safe_dlq_reason e) SinkPermanent
                 else Shutdown (unwrap_or (owned_connector_failure e) (Other ''permanent connector failure'')))
           else if dlq_enabled dlq \<and> max_retries dlq < failures'
           then (failures', RouteToDlq (safe_dlq_reason e) MaxRetriesExceeded)
           else (failures', BackoffMs poll_interval)))"

datatype dlq_outcome = DlqWritten | DlqTransient | DlqPermanent relay_error

definition route_to_dlq :: "dlq_faults \<Rightarrow> dlq_entry list \<Rightarrow> tide_db \<Rightarrow> tide_db \<times> dlq_outcome" where
  "route_to_dlq faults es db =
     (case insert_batch show_relay_error faults es (dlq_table db) of
        (r, t) \<Rightarrow>
          (db\<lparr>dlq_table := t\<rparr>,
           case r of Inr _ \<Rightarrow> DlqWritten
                   | Inl e \<Rightarrow> if is_transient e then DlqTransient else DlqPermanent e))"

text \<open>The stages of one batch, as \<open>delivery_transition\<close> and \<open>commit_checkpoint\<close> name them.\<close>

datatype stage =
    StPolled | StFiltered | StEncoded | StDryRun | StPublishStarted | StSinkAcknowledged
  | StDlqPersisted | StCheckpointCommitted

definition commit_checkpoint ::
    "source_env \<Rightarrow> relay_message option \<Rightarrow> outbox_source \<Rightarrow> tide_db \<Rightarrow>
       outbox_source \<times> tide_db \<times> stage list \<times> (relay_error + unit)" where
  "commit_checkpoint env cp src db =
     (case cp of
        None \<Rightarrow> (src, db, [], Inr ())
      | Some m \<Rightarrow>
          (case hit (se_failpoint env) ''before_checkpoint_commit'' of
             Inl e \<Rightarrow> (src, db, [], Inl e)
           | Inr _ \<Rightarrow>
               (case acknowledge env m src db of
                  (src', db', Inl e) \<Rightarrow> (src', db', [], Inl e)
                | (src', db', Inr _) \<Rightarrow>
                    (src', db', [StCheckpointCommitted], hit (se_failpoint env) ''after_checkpoint_commit''))))"

section \<open>One iteration of the loop\<close>

record receipt =
  rt_pipeline :: string
  rt_outbox :: string
  rt_message_id :: int
  rt_dedup_key :: string
  rt_sink :: string
  rt_tenant :: string

record 's world =
  w_db :: tide_db
  w_sink :: 's
  w_source :: outbox_source
  w_breaker :: circuit_breaker
  w_failures :: u32
  w_backoff :: u64
  w_healthy :: bool
  w_receipts :: "receipt list"

text \<open>
  What one iteration meets: the stop flag at the head of the loop and during a sleep, the two
  readings of the clock, the attempt at the sink, the faults of the dead-letter transaction,
  serde's encoder, the random jitter, the fate of the receipt statement.
\<close>

record 'env iter_env =
  ie_source :: source_env
  ie_stop :: bool
  ie_stop_sleep :: bool
  ie_clock :: "nat \<times> nat"
  ie_publish :: 'env
  ie_dlq :: dlq_faults
  ie_encode :: encoder
  ie_jitter :: int
  ie_receipts :: "pg_error option"

datatype loop_result = LoopAgain u64 | LoopBreak | LoopError relay_error

text \<open>\<open>(poll_backoff_ms as i64).saturating_add(jitter).max(0) as u64\<close>.\<close>

definition backoff_sleep :: "u64 \<Rightarrow> int \<Rightarrow> u64" where
  "backoff_sleep backoff jitter =
     word_of_int (max 0 (min i64_max (max i64_min (sint backoff + jitter))))"

definition next_backoff :: "u64 \<Rightarrow> u64 \<Rightarrow> u64" where
  "next_backoff backoff limit = min (backoff * 2) limit"

definition after_sleep :: "'env iter_env \<Rightarrow> u64 \<Rightarrow> loop_result" where
  "after_sleep env ms = (if ie_stop_sleep env then LoopBreak else LoopAgain ms)"

definition write_receipts :: "worker_config \<Rightarrow> pg_error option \<Rightarrow> relay_message list \<Rightarrow> receipt list \<Rightarrow> receipt list" where
  "write_receipts cfg err ms rs =
     (if ms = [] \<or> err \<noteq> None then rs
      else rs @ map (\<lambda>m. \<lparr> rt_pipeline = pc_name (wc_pipeline cfg), rt_outbox = wc_receipt_outbox cfg,
                           rt_message_id = unwrap_or (outbox_id m) 0, rt_dedup_key = dedup_key m,
                           rt_sink = wc_sink_name cfg, rt_tenant = pc_tenant (wc_pipeline cfg) \<rparr>) ms)"

definition dlq_entries :: "worker_config \<Rightarrow> string \<Rightarrow> error_kind \<Rightarrow> relay_message list \<Rightarrow> dlq_entry list" where
  "dlq_entries cfg reason kind ms =
     map (\<lambda>m. from_message ''forward'' (pc_name (wc_pipeline cfg)) ''outbox'' (wc_sink_name cfg) m reason kind) ms"

text \<open>Committing the checkpoint after a terminal disposition; an error leaves the loop.\<close>

definition finish_batch ::
    "'env iter_env \<Rightarrow> relay_message option \<Rightarrow> 's world \<Rightarrow> 's world \<times> stage list \<times> (relay_error + unit)" where
  "finish_batch env cp w =
     (case commit_checkpoint (ie_source env) cp (w_source w) (w_db w) of
        (src, db, st, r) \<Rightarrow> (w\<lparr>w_source := src, w_db := db\<rparr>, st, r))"

definition handle_directive ::
    "worker_config \<Rightarrow> 'env iter_env \<Rightarrow> relay_message list \<Rightarrow> relay_message option \<Rightarrow> publish_outcome \<Rightarrow>
       worker_directive \<Rightarrow> 's world \<Rightarrow> 's world \<times> stage list \<times> loop_result" where
  "handle_directive cfg env ms cp outcome directive w =
     (let w1 = (case outcome of PublishFailure _ \<Rightarrow> w\<lparr>w_healthy := False\<rparr> | _ \<Rightarrow> w);
          fp = se_failpoint (ie_source env)
      in case directive of
        Continue \<Rightarrow>
          (case hit fp ''after_sink_ack'' of
             Inl e \<Rightarrow> (w, [StSinkAcknowledged], LoopError e)
           | Inr _ \<Rightarrow>
               (case finish_batch env cp w of
                  (w', st, Inl e) \<Rightarrow> (w', StSinkAcknowledged # st, LoopError e)
                | (w', st, Inr _) \<Rightarrow>
                    (w'\<lparr>w_healthy := True, w_receipts := write_receipts cfg (ie_receipts env) ms (w_receipts w')\<rparr>,
                     StSinkAcknowledged # st, LoopAgain 0)))
      | BackoffMs ms_sleep \<Rightarrow> (w1, [], after_sleep env ms_sleep)
      | RouteToDlq reason kind \<Rightarrow>
          (case hit fp ''during_dlq_write'' of
             Inl e \<Rightarrow> (w1, [], LoopError e)
           | Inr _ \<Rightarrow>
               (case route_to_dlq (ie_dlq env) (dlq_entries cfg reason kind ms) (w_db w1) of
                  (db, DlqWritten) \<Rightarrow>
                    (case hit fp ''after_dlq_commit'' of
                       Inl e \<Rightarrow> (w1\<lparr>w_db := db\<rparr>, [StDlqPersisted], LoopError e)
                     | Inr _ \<Rightarrow>
                         (case finish_batch env cp (w1\<lparr>w_db := db\<rparr>) of
                            (w', st, Inl e) \<Rightarrow> (w', StDlqPersisted # st, LoopError e)
                          | (w', st, Inr _) \<Rightarrow>
                              (w'\<lparr>w_failures := 0\<rparr>, StDlqPersisted # st, LoopAgain 0)))
                | (db, DlqTransient) \<Rightarrow> (w1\<lparr>w_db := db\<rparr>, [], after_sleep env (wc_poll_interval cfg))
                | (db, DlqPermanent e) \<Rightarrow> (w1\<lparr>w_db := db\<rparr>, [], LoopError e)))
      | Shutdown e \<Rightarrow> (w, [], LoopError e))"

definition publish_batch ::
    "('env \<Rightarrow> relay_message list \<Rightarrow> 's \<Rightarrow> 's \<times> (relay_error + unit)) \<Rightarrow> worker_config \<Rightarrow> 'env iter_env \<Rightarrow>
       relay_message list \<Rightarrow> relay_message option \<Rightarrow> 's world \<Rightarrow> 's world \<times> stage list \<times> loop_result" where
  "publish_batch publish cfg env ms cp w =
     (let (s', cb', outcome) =
        (case validate_publish_limits (ie_encode env) (wc_pipeline cfg) ms of
           Inr _ \<Rightarrow> publish_with_circuit_breaker publish (ie_publish env) (ie_clock env) ms (w_sink w) (w_breaker w)
         | Inl e \<Rightarrow> (w_sink w, w_breaker w, PublishFailure e));
          (failures, directive) = handle_publish_outcome outcome (w_failures w) (wc_dlq cfg) (wc_poll_interval cfg);
          (w', st, r) = handle_directive cfg env ms cp outcome directive
                          (w\<lparr>w_sink := s', w_breaker := cb', w_failures := failures\<rparr>)
      in (w', StPublishStarted # st, r))"

definition process_batch ::
    "('env \<Rightarrow> relay_message list \<Rightarrow> 's \<Rightarrow> 's \<times> (relay_error + unit)) \<Rightarrow> worker_config \<Rightarrow> 'env iter_env \<Rightarrow>
       relay_message list \<Rightarrow> relay_message option \<Rightarrow> 's world \<Rightarrow> 's world \<times> stage list \<times> loop_result" where
  "process_batch publish cfg env ms cp w =
     (let fp = se_failpoint (ie_source env) in
      case hit fp ''after_poll_before_encode'' of
        Inl e \<Rightarrow> (w, [], LoopError e)
      | Inr _ \<Rightarrow>
          if ms = []
          then (case finish_batch env cp w of
                  (w', st, Inl e) \<Rightarrow> (w', StPolled # StFiltered # st, LoopError e)
                | (w', st, Inr _) \<Rightarrow> (w', StPolled # StFiltered # st, LoopAgain 0))
          else
            (case hit fp ''after_encode_before_publish'' of
               Inl e \<Rightarrow> (w, [StPolled], LoopError e)
             | Inr _ \<Rightarrow>
                 (case (if wc_replay cfg \<noteq> None then hit fp ''during_replay'' else Inr ()) of
                    Inl e \<Rightarrow> (w, [StPolled, StEncoded], LoopError e)
                  | Inr _ \<Rightarrow>
                      if wc_dry_run cfg
                      then (case finish_batch env cp w of
                              (w', st, Inl e) \<Rightarrow> (w', StPolled # StEncoded # StDryRun # st, LoopError e)
                            | (w', st, Inr _) \<Rightarrow> (w', StPolled # StEncoded # StDryRun # st, LoopAgain 0))
                      else
                        (case publish_batch publish cfg env ms cp w of
                           (w', st, r) \<Rightarrow> (w', StPolled # StEncoded # st, r)))))"

definition iteration ::
    "('env \<Rightarrow> relay_message list \<Rightarrow> 's \<Rightarrow> 's \<times> (relay_error + unit)) \<Rightarrow> worker_config \<Rightarrow> 'env iter_env \<Rightarrow>
       's world \<Rightarrow> 's world \<times> stage list \<times> loop_result" where
  "iteration publish cfg env w =
     (if ie_stop env
      then (w, [], case hit (se_failpoint (ie_source env)) ''during_shutdown'' of
                     Inl e \<Rightarrow> LoopError e | Inr _ \<Rightarrow> LoopBreak)
      else
        (case poll_and_decode (ie_source env) (wc_batch_size cfg) (wc_replay cfg) (w_source w) (w_db w) of
           (src, db, outcome) \<Rightarrow>
             (let w1 = w\<lparr>w_source := src, w_db := db\<rparr> in
              case outcome of
                PollBatch ms cp \<Rightarrow> process_batch publish cfg env ms cp (w1\<lparr>w_backoff := wc_poll_interval cfg\<rparr>)
              | PollEmpty \<Rightarrow>
                  (w1\<lparr>w_backoff := wc_poll_interval cfg\<rparr>, [], after_sleep env (wc_poll_interval cfg))
              | ReplayComplete \<Rightarrow> (w1, [], LoopBreak)
              | PollTransient e \<Rightarrow>
                  (let w2 = w1\<lparr>w_failures := w_failures w1 + 1\<rparr>;
                       sleep = backoff_sleep (w_backoff w1) (ie_jitter env)
                   in if ie_stop_sleep env then (w2, [], LoopBreak)
                      else (w2\<lparr>w_backoff := next_backoff (w_backoff w1) (wc_max_backoff cfg)\<rparr>, [], LoopAgain sleep))
              | PollPermanent e \<Rightarrow> (w1, [], LoopError e))))"

text \<open>The loop over a list of environments; it ends at a break, an error, or the end of the list.\<close>

fun worker_loop ::
    "('env \<Rightarrow> relay_message list \<Rightarrow> 's \<Rightarrow> 's \<times> (relay_error + unit)) \<Rightarrow> worker_config \<Rightarrow> 'env iter_env list \<Rightarrow>
       's world \<Rightarrow> 's world \<times> loop_result" where
  "worker_loop publish cfg [] w = (w, LoopAgain 0)"
| "worker_loop publish cfg (e # es) w =
     (case iteration publish cfg e w of
        (w', _, LoopAgain _) \<Rightarrow> worker_loop publish cfg es w'
      | (w', _, LoopBreak) \<Rightarrow> (w'\<lparr>w_healthy := False\<rparr>, LoopBreak)
      | (w', _, LoopError e') \<Rightarrow> (w'\<lparr>w_healthy := False\<rparr>, LoopError e'))"

definition start_world :: "worker_config \<Rightarrow> outbox_source \<Rightarrow> tide_db \<Rightarrow> 's \<Rightarrow> 's world" where
  "start_world cfg src db s =
     \<lparr> w_db = db, w_sink = s, w_source = src,
       w_breaker = cb_from_pipeline_config (pc_config (wc_pipeline cfg)),
       w_failures = 0, w_backoff = wc_poll_interval cfg, w_healthy = True, w_receipts = [] \<rparr>"

text \<open>
  A worker from its start: the configuration is read, the source is built (for a replay its
  cursor is set) and the loop runs.
\<close>

definition worker_inner ::
    "('env \<Rightarrow> relay_message list \<Rightarrow> 's \<Rightarrow> 's \<times> (relay_error + unit)) \<Rightarrow> (string \<Rightarrow> string option) \<Rightarrow>
       pg_error option \<Rightarrow> string \<Rightarrow> pipeline_config \<Rightarrow> string \<Rightarrow> string \<Rightarrow> int \<Rightarrow> (int \<times> int) option \<Rightarrow>
       relay_error + 's \<Rightarrow> 'env iter_env list \<Rightarrow> tide_db \<Rightarrow> relay_error + 's world \<times> loop_result" where
  "worker_inner publish set_role load_err worker p grp sink_name default_batch replay sink envs db =
     and_then (worker_config_of set_role p grp sink_name default_batch replay) (\<lambda>cfg.
     and_then (build_source load_err worker p grp db) (\<lambda>src0.
     and_then (case replay of None \<Rightarrow> Inr src0 | Some (f, _) \<Rightarrow> configure_replay f src0) (\<lambda>src.
     and_then sink (\<lambda>s.
       Inr (worker_loop publish cfg envs (start_world cfg src db s))))))"

section \<open>Properties\<close>



end
