(* ===== verification/Worker_Safety.thy ===== *)
theory Worker_Safety
  imports Worker
begin

text \<open>
  What one iteration of the worker does to the durable state, for any sink that meets the
  contract.  A polled row is settled when the destination holds its deduplication key or the
  dead-letter queue of the pipeline has a row for it.  The offset of the pipeline moves only
  over settled rows; a dry run is the one mode that moves it without settling, and a replay
  never moves it.  The stages logged on the way are runs of the delivery model.
\<close>

definition dead_letters :: "string \<Rightarrow> tide_db \<Rightarrow> string set" where
  "dead_letters p db = {d_dedup_key (entry r) | r. r \<in> set (dlq_table db) \<and> d_pipeline (entry r) = p}"

definition settled :: "('s \<Rightarrow> string set) \<Rightarrow> string \<Rightarrow> 's world \<Rightarrow> string set" where
  "settled holds p w = holds (w_sink w) \<union> dead_letters p (w_db w)"

definition row_key :: "string \<Rightarrow> int \<Rightarrow> string" where
  "row_key name i = forward_key (''outbox_'' @ name) i 0"

text \<open>Only the offset table and the dead-letter table of the database change; the latter grows.\<close>

definition db_progress :: "tide_db \<Rightarrow> tide_db \<Rightarrow> bool" where
  "db_progress db db' \<longleftrightarrow>
     db' = db\<lparr>relay_offsets := relay_offsets db', dlq_table := dlq_table db'\<rparr>
   \<and> set (dlq_table db) \<subseteq> set (dlq_table db')"

definition unmoved :: "'s world \<Rightarrow> 's world \<Rightarrow> bool" where
  "unmoved w w' \<longleftrightarrow> relay_offsets (w_db w') = relay_offsets (w_db w)
     \<and> s_last_offset (w_source w') = s_last_offset (w_source w)"

definition keeps :: "('s \<Rightarrow> string set) \<Rightarrow> 's world \<Rightarrow> 's world \<Rightarrow> bool" where
  "keeps holds w w' \<longleftrightarrow> holds (w_sink w) \<subseteq> holds (w_sink w') \<and> source_same (w_source w) (w_source w')
     \<and> db_progress (w_db w) (w_db w')"

definition moved_to :: "int \<Rightarrow> 's world \<Rightarrow> 's world \<Rightarrow> bool" where
  "moved_to off w w' \<longleftrightarrow> advanced off (w_source w) (w_db w) (w_source w') (w_db w')"

section \<open>Elementary facts\<close>

lemma db_progress_refl [simp]: "db_progress db db"
  by (simp add: db_progress_def)

lemma db_progress_iff:
  "db_progress db db' \<longleftrightarrow>
     outbox_configs db' = outbox_configs db \<and> outbox_messages db' = outbox_messages db
   \<and> next_id db' = next_id db \<and> consumer_groups db' = consumer_groups db
   \<and> consumer_offsets db' = consumer_offsets db \<and> consumer_leases db' = consumer_leases db
   \<and> publishers db' = publishers db \<and> cleanup_state db' = cleanup_state db
   \<and> relay_configs db' = relay_configs db \<and> relay_inbox_configs db' = relay_inbox_configs db
   \<and> notifications db' = notifications db \<and> set (dlq_table db) \<subseteq> set (dlq_table db')"
  by (cases db; cases db'; simp add: db_progress_def; blast)

lemma offsets_only_iff:
  "db' = db\<lparr>relay_offsets := relay_offsets db'\<rparr> \<longleftrightarrow>
     db_progress db db' \<and> dlq_table db' = dlq_table db"
  by (cases db; cases db') (auto simp: db_progress_def)

lemma db_progress_trans: "db_progress a b \<Longrightarrow> db_progress b c \<Longrightarrow> db_progress a c"
  by (auto simp: db_progress_iff)

lemma db_progress_simps:
  assumes "db_progress db db'"
  shows "outbox_messages db' = outbox_messages db" "next_id db' = next_id db"
    "relay_configs db' = relay_configs db" "outbox_configs db' = outbox_configs db"
  using assms by (simp_all add: db_progress_iff)

lemma dead_letters_mono: "db_progress db db' \<Longrightarrow> dead_letters p db \<subseteq> dead_letters p db'"
  by (auto simp: db_progress_def dead_letters_def)

lemma keeps_refl [simp]: "keeps holds w w"
  by (simp add: keeps_def)

lemma keeps_trans: "keeps holds a b \<Longrightarrow> keeps holds b c \<Longrightarrow> keeps holds a c"
  unfolding keeps_def using source_same_trans db_progress_trans by blast

lemma settled_mono: "keeps holds w w' \<Longrightarrow> settled holds p w \<subseteq> settled holds p w'"
  using dead_letters_mono [of "w_db w" "w_db w'" p] by (auto simp: keeps_def settled_def)

lemma unmoved_refl [simp]: "unmoved w w"
  by (simp add: unmoved_def)

lemma hit_eq_Inr: "hit fp n = Inr u \<longleftrightarrow> fp n = None"
  by (rule hit_Inr_iff)

section \<open>The checkpoint\<close>

definition live :: "outbox_source \<Rightarrow> bool" where
  "live s \<longleftrightarrow> s_consumer s = None \<and> \<not> s_replay s"

lemma commit_checkpoint_live:
  assumes "live src" and "ack_token m = OutboxOffset off"
    and "commit_checkpoint env (Some m) src db = (src', db', st, r)"
  shows "checkpoint_effect off src db src' db'"
proof (cases "hit (se_failpoint env) ''before_checkpoint_commit''")
  case (Inl e)
  with assms(3) show ?thesis by (simp add: commit_checkpoint_def checkpoint_effect_def)
next
  case (Inr u)
  obtain s1 d1 r1 where a: "acknowledge env m src db = (s1, d1, r1)" using prod_cases3 by blast
  have "src' = s1 \<and> db' = d1" using assms(3) Inr a by (cases r1) (simp_all add: commit_checkpoint_def)
  with acknowledge_live(1) [OF _ _ assms(2) a] assms(1) show ?thesis by (simp add: live_def)
qed

lemma finish_batch_effect:
  assumes "live (w_source w)" and "ack_token m = OutboxOffset off"
    and "finish_batch env (Some m) w = (w', st, r)"
  shows "w_sink w' = w_sink w" and "keeps holds w w'" and "unmoved w w' \<or> moved_to off w w'"
    and "dlq_table (w_db w') = dlq_table (w_db w)"
proof -
  obtain src db st0 r0 where c: "commit_checkpoint (ie_source env) (Some m) (w_source w) (w_db w) = (src, db, st0, r0)"
    using prod_cases4 by blast
  with assms(3) have w': "w' = w\<lparr>w_source := src, w_db := db\<rparr>" by (simp add: finish_batch_def)
  from commit_checkpoint_live [OF assms(1,2) c]
  have e: "checkpoint_effect off (w_source w) (w_db w) src db" .
  from w' show "w_sink w' = w_sink w" by simp
  from e have "db = (w_db w)\<lparr>relay_offsets := relay_offsets db\<rparr>" by (simp only: checkpoint_effect_def)
  then have d: "db_progress (w_db w) db" "dlq_table db = dlq_table (w_db w)"
    unfolding offsets_only_iff by blast+
  with w' show "dlq_table (w_db w') = dlq_table (w_db w)" by simp
  from d e w' show "keeps holds w w'" by (simp add: keeps_def checkpoint_effect_def)
  from e w' show "unmoved w w' \<or> moved_to off w w'"
    by (auto simp: checkpoint_effect_def unmoved_def moved_to_def)
qed

section \<open>The dead-letter route\<close>

lemma route_to_dlq_effect:
  assumes "route_to_dlq faults es db = (db', out)"
  shows "db_progress db db'" and "relay_offsets db' = relay_offsets db"
    and "out = DlqWritten \<Longrightarrow> e \<in> set es \<Longrightarrow> d_dedup_key e \<in> dead_letters (d_pipeline e) db'"
proof -
  obtain r t where b: "insert_batch show_relay_error faults es (dlq_table db) = (r, t)" by fastforce
  with assms have db': "db' = db\<lparr>dlq_table := t\<rparr>" by (simp add: route_to_dlq_def)
  then show "relay_offsets db' = relay_offsets db" by simp
  from insert_batch_keeps [of "dlq_table db" show_relay_error faults es] b db'
  show "db_progress db db'" by (simp add: db_progress_def)
  assume "out = DlqWritten" and e: "e \<in> set es"
  with assms b have "r = Inr ()" by (cases r) (auto simp: route_to_dlq_def split: if_splits)
  with b e have "active_key t (d_pipeline e) (d_dedup_key e)" using insert_batch_ok by blast
  then obtain x where "x \<in> set t" "d_pipeline (entry x) = d_pipeline e" "d_dedup_key (entry x) = d_dedup_key e"
    by (auto simp: active_key_def list_ex_iff)
  with db' show "d_dedup_key e \<in> dead_letters (d_pipeline e) db'"
    unfolding dead_letters_def by (intro CollectI exI [of _ x]) simp
qed

lemma dlq_entries_keys:
  "m \<in> set ms \<Longrightarrow> \<exists>e \<in> set (dlq_entries cfg reason kind ms).
     d_pipeline e = pc_name (wc_pipeline cfg) \<and> d_dedup_key e = dedup_key m"
  by (auto simp: dlq_entries_def from_message_def)

lemma handle_outcome_Continue:
  "handle_publish_outcome out n dlq iv = (n', Continue) \<longleftrightarrow> out = PublishOk \<and> n' = 0"
  by (cases out) (auto simp: handle_publish_outcome_def Let_def split: if_splits)

text \<open>
  An iteration's effect on the offset: it stays, or it moves to the checkpoint of a batch all
  of whose keys are settled afterwards.
\<close>

definition batch_effect ::
    "('s \<Rightarrow> string set) \<Rightarrow> string \<Rightarrow> int \<Rightarrow> relay_message list \<Rightarrow> 's world \<Rightarrow> 's world \<Rightarrow> bool" where
  "batch_effect holds p off ms w w' \<longleftrightarrow> keeps holds w w' \<and>
     (unmoved w w' \<or> (moved_to off w w' \<and> dedup_key ` set ms \<subseteq> settled holds p w'))"

lemma unmoved_update [simp]:
  "unmoved w (w'\<lparr>w_healthy := b\<rparr>) = unmoved w w'" "unmoved w (w'\<lparr>w_receipts := rs\<rparr>) = unmoved w w'"
  "unmoved w (w'\<lparr>w_failures := n\<rparr>) = unmoved w w'" "unmoved w (w'\<lparr>w_breaker := cb\<rparr>) = unmoved w w'"
  "unmoved w (w'\<lparr>w_sink := s\<rparr>) = unmoved w w'" "unmoved w (w'\<lparr>w_backoff := bo\<rparr>) = unmoved w w'"
  by (simp_all add: unmoved_def)

lemma moved_update [simp]:
  "moved_to off w (w'\<lparr>w_healthy := b\<rparr>) = moved_to off w w'" "moved_to off w (w'\<lparr>w_receipts := rs\<rparr>) = moved_to off w w'"
  "moved_to off w (w'\<lparr>w_failures := n\<rparr>) = moved_to off w w'"
  by (simp_all add: moved_to_def)

lemma keeps_update [simp]:
  "keeps holds w (w'\<lparr>w_healthy := b\<rparr>) = keeps holds w w'" "keeps holds w (w'\<lparr>w_receipts := rs\<rparr>) = keeps holds w w'"
  "keeps holds w (w'\<lparr>w_failures := n\<rparr>) = keeps holds w w'" "keeps holds w (w'\<lparr>w_breaker := cb\<rparr>) = keeps holds w w'"
  "keeps holds w (w'\<lparr>w_backoff := bo\<rparr>) = keeps holds w w'"
  by (simp_all add: keeps_def)

lemma settled_update [simp]:
  "settled holds p (w'\<lparr>w_healthy := b\<rparr>) = settled holds p w'" "settled holds p (w'\<lparr>w_receipts := rs\<rparr>) = settled holds p w'"
  "settled holds p (w'\<lparr>w_failures := n\<rparr>) = settled holds p w'"
  by (simp_all add: settled_def)

lemma batch_effect_updates [simp]:
  "batch_effect holds p off ms w (w'\<lparr>w_healthy := b\<rparr>) = batch_effect holds p off ms w w'"
  "batch_effect holds p off ms w (w'\<lparr>w_receipts := rs\<rparr>) = batch_effect holds p off ms w w'"
  "batch_effect holds p off ms w (w'\<lparr>w_failures := n\<rparr>) = batch_effect holds p off ms w w'"
  by (simp_all add: batch_effect_def)

lemma batch_effect_unmoved: "keeps holds w w' \<Longrightarrow> unmoved w w' \<Longrightarrow> batch_effect holds p off ms w w'"
  by (simp add: batch_effect_def)

text \<open>Committing the checkpoint once the batch is settled.\<close>

lemma finish_batch_settled:
  assumes "live (w_source w1)" and "ack_token m = OutboxOffset off"
    and "finish_batch env (Some m) w1 = (w', st, r)"
    and "keeps holds w w1" and "unmoved w w1" and "dedup_key ` set ms \<subseteq> settled holds p w1"
  shows "batch_effect holds p off ms w w'"
proof -
  have f2: "keeps holds w1 w'" by (rule finish_batch_effect(2) [OF assms(1-3)])
  note f3 = finish_batch_effect(3) [OF assms(1-3)]
  have k: "keeps holds w w'" using keeps_trans [OF assms(4) f2] .
  have st: "dedup_key ` set ms \<subseteq> settled holds p w'" using assms(6) settled_mono [OF f2] by blast
  have same: "source_key (w_source w1) = source_key (w_source w)"
    using assms(4) source_same_simps(4) by (auto simp: keeps_def)
  from f3 show ?thesis
  proof
    assume "unmoved w1 w'"
    with assms(5) k show ?thesis by (simp add: batch_effect_def unmoved_def)
  next
    assume "moved_to off w1 w'"
    then have "moved_to off w w'"
      using assms(5) same by (simp add: moved_to_def advanced_def unmoved_def)
    with k st show ?thesis by (simp add: batch_effect_def)
  qed
qed

lemma dlq_route_settles:
  assumes "route_to_dlq faults (dlq_entries cfg reason kind ms) db = (db', DlqWritten)"
  shows "dedup_key ` set ms \<subseteq> dead_letters (pc_name (wc_pipeline cfg)) db'"
proof
  fix k
  assume "k \<in> dedup_key ` set ms"
  then obtain m where m: "m \<in> set ms" "k = dedup_key m" by blast
  from dlq_entries_keys [OF m(1), of cfg reason kind] obtain e where
    e: "e \<in> set (dlq_entries cfg reason kind ms)" "d_pipeline e = pc_name (wc_pipeline cfg)" "d_dedup_key e = k"
    using m(2) by blast
  from route_to_dlq_effect(3) [OF assms refl e(1)] e show "k \<in> dead_letters (pc_name (wc_pipeline cfg)) db'"
    by simp
qed

lemma route_arm_effect:
  assumes "live (w_source w1)" and "ack_token m = OutboxOffset off"
    and "keeps holds w w1" and "unmoved w w1"
    and "route_to_dlq faults (dlq_entries cfg reason kind ms) (w_db w1) = (db, out)"
    and "w2 = w1\<lparr>w_db := db\<rparr>"
  shows "batch_effect holds p off ms w w2"
    and "out = DlqWritten \<Longrightarrow> finish_batch env (Some m) w2 = (w', st, r) \<Longrightarrow>
           batch_effect holds (pc_name (wc_pipeline cfg)) off ms w w'"
proof -
  from route_to_dlq_effect(1,2) [OF assms(5)] assms(6)
  have "keeps holds w1 w2" "unmoved w1 w2" by (simp_all add: keeps_def unmoved_def)
  then have k: "keeps holds w w2" "unmoved w w2"
    using assms(3,4) keeps_trans by (blast, simp add: unmoved_def)
  then show "batch_effect holds p off ms w w2" by (simp add: batch_effect_def)
  assume "out = DlqWritten" and f: "finish_batch env (Some m) w2 = (w', st, r)"
  with assms(5) have "dedup_key ` set ms \<subseteq> dead_letters (pc_name (wc_pipeline cfg)) db"
    by (intro dlq_route_settles) simp
  with assms(6) have "dedup_key ` set ms \<subseteq> settled holds (pc_name (wc_pipeline cfg)) w2"
    by (auto simp: settled_def)
  moreover have "live (w_source w2)" using assms(1,6) by simp
  ultimately show "batch_effect holds (pc_name (wc_pipeline cfg)) off ms w w'"
    using finish_batch_settled [OF _ assms(2) f k] by blast
qed

text \<open>The arms of the directive, for a batch that a success has put at the destination.\<close>

lemma handle_directive_effect:
  assumes "live (w_source w1)" and "ack_token m = OutboxOffset off"
    and "handle_directive cfg env ms (Some m) outcome d w1 = (w', st, r)"
    and "keeps holds w w1" and "unmoved w w1"
    and "d = Continue \<Longrightarrow> dedup_key ` set ms \<subseteq> holds (w_sink w1)"
  shows "batch_effect holds (pc_name (wc_pipeline cfg)) off ms w w'"
proof -
  define w2 where "w2 = (case outcome of PublishFailure _ \<Rightarrow> w1\<lparr>w_healthy := False\<rparr> | _ \<Rightarrow> w1)"
  have w2: "live (w_source w2)" "keeps holds w w2" "unmoved w w2"
    using assms(1,4,5) by (simp_all add: w2_def split: publish_outcome.splits)
  have none: "batch_effect holds (pc_name (wc_pipeline cfg)) off ms w w1"
    "batch_effect holds (pc_name (wc_pipeline cfg)) off ms w w2"
    using assms(4,5) w2 by (simp_all add: batch_effect_def)
  show ?thesis
  proof (cases d)
    case Continue
    show ?thesis
    proof (cases "hit (se_failpoint (ie_source env)) ''after_sink_ack''")
      case (Inl e)
      with Continue assms(3) none show ?thesis by (simp add: handle_directive_def)
    next
      case (Inr u)
      obtain wa sa ra where f: "finish_batch env (Some m) w1 = (wa, sa, ra)" using prod_cases3 by blast
      have "batch_effect holds (pc_name (wc_pipeline cfg)) off ms w wa"
        using finish_batch_settled [OF assms(1,2) f assms(4,5)] assms(6) [OF Continue]
        by (auto simp: settled_def)
      with Continue Inr f assms(3) show ?thesis
        by (cases ra) (auto simp: handle_directive_def)
    qed
  next
    case (BackoffMs k)
    with assms(3) none show ?thesis by (auto simp: handle_directive_def w2_def)
  next
    case (RouteToDlq reason kind)
    show ?thesis
    proof (cases "hit (se_failpoint (ie_source env)) ''during_dlq_write''")
      case (Inl e)
      with RouteToDlq assms(3) none show ?thesis by (auto simp: handle_directive_def w2_def)
    next
      case during: (Inr u)
      obtain db out where ro: "route_to_dlq (ie_dlq env) (dlq_entries cfg reason kind ms) (w_db w2) = (db, out)"
        by fastforce
      note arm = route_arm_effect [OF w2(1) assms(2) w2(2,3) ro refl]
      show ?thesis
      proof (cases out)
        case DlqWritten
        show ?thesis
        proof (cases "hit (se_failpoint (ie_source env)) ''after_dlq_commit''")
          case (Inl e)
          with RouteToDlq during ro DlqWritten assms(3) arm(1) show ?thesis
            by (auto simp: handle_directive_def w2_def)
        next
          case (Inr u')
          obtain wa sa ra where f: "finish_batch env (Some m) (w2\<lparr>w_db := db\<rparr>) = (wa, sa, ra)"
            using prod_cases3 by blast
          from arm(2) [OF DlqWritten f] RouteToDlq during ro DlqWritten Inr f assms(3) show ?thesis
            by (cases ra) (auto simp: handle_directive_def w2_def)
        qed
      next
        case DlqTransient
        with RouteToDlq during ro assms(3) arm(1) show ?thesis
          by (auto simp: handle_directive_def w2_def)
      next
        case (DlqPermanent e)
        with RouteToDlq during ro assms(3) arm(1) show ?thesis
          by (auto simp: handle_directive_def w2_def)
      qed
    qed
  next
    case (Shutdown e)
    with assms(3) none show ?thesis by (simp add: handle_directive_def)
  qed
qed

section \<open>One iteration over a sink that meets the contract\<close>

text \<open>The effect of one live iteration on a pipeline: nothing, or the polled rows are settled and the
  offset moves to the last of them.\<close>

definition iteration_safe ::
    "('s \<Rightarrow> string set) \<Rightarrow> worker_config \<Rightarrow> 's world \<Rightarrow> 's world \<Rightarrow> bool" where
  "iteration_safe holds cfg w w' \<longleftrightarrow>
     keeps holds w w' \<and>
     (unmoved w w' \<or>
      (let rows = polled_rows (wc_batch_size cfg) (w_source w) (w_db w) in
         rows \<noteq> [] \<and> moved_to (row_id (last rows)) w w'
       \<and> (\<forall>r \<in> set rows. row_key (s_outbox (w_source w)) (row_id r)
              \<in> settled holds (pc_name (wc_pipeline cfg)) w')))"

lemma iteration_safe_idle: "keeps holds w w' \<Longrightarrow> unmoved w w' \<Longrightarrow> iteration_safe holds cfg w w'"
  by (simp add: iteration_safe_def)

lemma message_keys:
  "list_all2 (message_of name) rows ms \<Longrightarrow> dedup_key ` set ms = (\<lambda>r. row_key name (row_id r)) ` set rows"
  by (induction rule: list_all2_induct) (auto simp: message_of_def row_key_def)

lemma poll_unmoved:
  assumes "live (w_source w)" and "poll env n (w_source w) (w_db w) = (src, db, r)"
  shows "keeps holds w (w\<lparr>w_source := src, w_db := db\<rparr>)" and "unmoved w (w\<lparr>w_source := src, w_db := db\<rparr>)"
    and "live src"
proof -
  from poll_state [OF _ assms(2)] assms(1) obtain p where "db = w_db w" "src = (w_source w)\<lparr>s_pending := p\<rparr>"
    by (auto simp: live_def)
  with assms(1) show "keeps holds w (w\<lparr>w_source := src, w_db := db\<rparr>)"
    "unmoved w (w\<lparr>w_source := src, w_db := db\<rparr>)" "live src"
    by (simp_all add: keeps_def unmoved_def source_same_def live_def)
qed

lemma poll_batch_facts:
  assumes "live (w_source w)" and "poll env n (w_source w) (w_db w) = (src, db, Inr ms)" and "ms \<noteq> []"
  shows "polled_rows n (w_source w) (w_db w) \<noteq> []"
    and "ack_token (last ms) = OutboxOffset (row_id (last (polled_rows n (w_source w) (w_db w))))"
    and "dedup_key ` set ms =
      (\<lambda>r. row_key (s_outbox (w_source w)) (row_id r)) ` set (polled_rows n (w_source w) (w_db w))"
proof -
  from assms(1) have c: "s_consumer (w_source w) = None" by (simp add: live_def)
  from poll_last_ack [OF c assms(2,3)] show "polled_rows n (w_source w) (w_db w) \<noteq> []"
    "ack_token (last ms) = OutboxOffset (row_id (last (polled_rows n (w_source w) (w_db w))))" by blast+
  from message_keys [OF poll_simple(3) [OF c assms(2)]]
  show "dedup_key ` set ms =
      (\<lambda>r. row_key (s_outbox (w_source w)) (row_id r)) ` set (polled_rows n (w_source w) (w_db w))" .
qed

context sink_contract
begin

lemma breaker_publish_effect:
  assumes "publish_with_circuit_breaker publish env clock ms s cb = (s', cb', out)"
  shows "holds s \<subseteq> holds s'" and "out = PublishOk \<Longrightarrow> dedup_key ` set ms \<subseteq> holds s'"
    and "holds s' \<subseteq> holds s \<union> dedup_key ` set ms"
proof -
  obtain allow cb1 where a: "should_allow (fst clock) cb = (allow, cb1)" by fastforce
  obtain s1 r where p: "publish env ms s = (s1, r)" by fastforce
  show "holds s \<subseteq> holds s'"
    using assms a p publish_keeps [OF p]
    by (cases allow; cases r) (auto simp: publish_with_circuit_breaker_def)
  show "out = PublishOk \<Longrightarrow> dedup_key ` set ms \<subseteq> holds s'"
    using assms a p publish_ok [of env ms s s1]
    by (cases allow; cases r) (auto simp: publish_with_circuit_breaker_def)
  show "holds s' \<subseteq> holds s \<union> dedup_key ` set ms"
    using assms a p publish_only [OF p]
    by (cases allow; cases r) (auto simp: publish_with_circuit_breaker_def)
qed

lemma publish_batch_effect:
  assumes "live (w_source w1)" and "ack_token m = OutboxOffset off"
    and "publish_batch publish cfg env ms (Some m) w1 = (w', st, r)"
    and "keeps holds w w1" and "unmoved w w1"
  shows "batch_effect holds (pc_name (wc_pipeline cfg)) off ms w w'"
proof -
  obtain s' cb' out where p:
    "(case validate_publish_limits (ie_encode env) (wc_pipeline cfg) ms of
        Inr _ \<Rightarrow> publish_with_circuit_breaker publish (ie_publish env) (ie_clock env) ms (w_sink w1) (w_breaker w1)
      | Inl e \<Rightarrow> (w_sink w1, w_breaker w1, PublishFailure e)) = (s', cb', out)" using prod_cases3 by blast
  obtain n d where h: "handle_publish_outcome out (w_failures w1) (wc_dlq cfg) (wc_poll_interval cfg) = (n, d)"
    by fastforce
  define w2 where "w2 = w1\<lparr>w_sink := s', w_breaker := cb', w_failures := n\<rparr>"
  obtain wa sa ra where d: "handle_directive cfg env ms (Some m) out d w2 = (wa, sa, ra)" using prod_cases3 by blast
  from assms(3) p h d have w': "w' = wa" by (simp add: publish_batch_def w2_def)
  have mono: "holds (w_sink w1) \<subseteq> holds s'" and ok: "out = PublishOk \<Longrightarrow> dedup_key ` set ms \<subseteq> holds s'"
    using p breaker_publish_effect by (auto split: sum.splits)
  have k: "keeps holds w w2" using assms(4) mono by (auto simp: keeps_def w2_def)
  have u: "unmoved w w2" using assms(5) by (simp add: w2_def unmoved_def)
  have l: "live (w_source w2)" using assms(1) by (simp add: w2_def)
  have c: "d = Continue \<Longrightarrow> dedup_key ` set ms \<subseteq> holds (w_sink w2)"
    using handle_outcome_Continue h ok by (simp add: w2_def)
  from handle_directive_effect [OF l assms(2) d k u c] w' show ?thesis by simp
qed

lemma process_batch_effect:
  assumes "live (w_source w1)" and "ack_token m = OutboxOffset off" and "ms \<noteq> []" and "\<not> wc_dry_run cfg"
    and "process_batch publish cfg env ms (Some m) w1 = (w', st, r)"
    and "keeps holds w w1" and "unmoved w w1"
  shows "batch_effect holds (pc_name (wc_pipeline cfg)) off ms w w'"
proof -
  obtain wa sa ra where b: "publish_batch publish cfg env ms (Some m) w1 = (wa, sa, ra)" using prod_cases3 by blast
  have "w' = w1 \<or> w' = wa"
    using assms(3-5) b by (auto simp: process_batch_def Let_def split: sum.splits)
  then show ?thesis
    using publish_batch_effect [OF assms(1,2) b assms(6,7)] batch_effect_unmoved [OF assms(6,7)] by blast
qed

lemma iteration_effect:
  assumes "live (w_source w)" and "\<not> wc_dry_run cfg" and "wc_replay cfg = None"
    and "iteration publish cfg env w = (w', st, r)"
  shows "iteration_safe holds cfg w w'"
proof (cases "ie_stop env")
  case True
  with assms(4) have "w' = w" by (auto simp: iteration_def split: sum.splits)
  then show ?thesis by (simp add: iteration_safe_idle)
next
  case False
  obtain src db pr where p: "poll (ie_source env) (wc_batch_size cfg) (w_source w) (w_db w) = (src, db, pr)"
    using prod_cases3 by blast
  define w1 where "w1 = w\<lparr>w_source := src, w_db := db\<rparr>"
  note u = poll_unmoved [OF assms(1) p, folded w1_def]
  have ku: "keeps holds w w1" "unmoved w w1" using u(1,2) by blast+
  show ?thesis
  proof (cases pr)
    case (Inl e)
    with False p assms(4) have "keeps holds w w' \<and> unmoved w w'"
      using ku by (auto simp: iteration_def poll_and_decode_def w1_def [symmetric] Let_def split: if_splits)
    then show ?thesis by (simp add: iteration_safe_idle)
  next
    case (Inr ms)
    show ?thesis
    proof (cases "ms = []")
      case True
      with Inr False p assms(3,4) have "keeps holds w w' \<and> unmoved w w'"
        using ku by (auto simp: iteration_def poll_and_decode_def w1_def [symmetric] Let_def)
      then show ?thesis by (simp add: iteration_safe_idle)
    next
      case ne: False
      define w2 where "w2 = w1\<lparr>w_backoff := wc_poll_interval cfg\<rparr>"
      from Inr ne False p assms(3,4) have pb: "process_batch publish cfg env ms (Some (last ms)) w2 = (w', st, r)"
        by (simp add: iteration_def poll_and_decode_def w1_def [symmetric] w2_def Let_def)
      note pf = poll_batch_facts [OF assms(1) p [unfolded Inr] ne]
      have "live (w_source w2)" using u(3) by (simp add: w2_def w1_def)
      from process_batch_effect [OF this pf(2) ne assms(2) pb, of w] ku
      have be: "batch_effect holds (pc_name (wc_pipeline cfg))
          (row_id (last (polled_rows (wc_batch_size cfg) (w_source w) (w_db w)))) ms w w'"
        by (simp add: w2_def)
      then show ?thesis
        unfolding batch_effect_def iteration_safe_def Let_def using pf(1,3) by blast
    qed
  qed
qed

end

section \<open>The stages follow the delivery model\<close>

text \<open>
  The events of the model a stage stands for.  A dead letter is written after a publish that did
  not succeed, which the worker does not log as a stage of its own.
\<close>

fun events_of :: "u64 \<Rightarrow> stage \<Rightarrow> delivery_event list" where
  "events_of c StPolled = []"
| "events_of c StEncoded = [EvEncoded]"
| "events_of c StFiltered = [EvIntentionallyFiltered]"
| "events_of c StDryRun = [EvDryRunObserved]"
| "events_of c StPublishStarted = [EvPublishStarted]"
| "events_of c StSinkAcknowledged = [EvSinkAcknowledged c]"
| "events_of c StDlqPersisted = [EvPublishFailed False, EvDlqPersisted]"
| "events_of c StCheckpointCommitted = [EvCheckpointCommitted]"

definition model_run :: "u64 \<Rightarrow> stage list \<Rightarrow> (delivery_state \<times> delivery_event) + delivery_facts" where
  "model_run c st = run_delivery (facts_polled c) (concat (map (events_of c) st))"

lemma finish_batch_stages:
  "finish_batch env cp w = (w', st, r) \<Longrightarrow> st = [] \<or> st = [StCheckpointCommitted]"
  by (auto simp: finish_batch_def commit_checkpoint_def split: prod.splits option.splits sum.splits)

lemma handle_directive_stages:
  "handle_directive cfg env ms cp out d w = (w', st, r) \<Longrightarrow>
     st \<in> {[], [StSinkAcknowledged], [StSinkAcknowledged, StCheckpointCommitted],
           [StDlqPersisted], [StDlqPersisted, StCheckpointCommitted]}"
  by (auto simp: handle_directive_def Let_def split: worker_directive.splits sum.splits prod.splits dlq_outcome.splits
      dest!: finish_batch_stages)

lemma publish_batch_stages:
  "publish_batch publish cfg env ms cp w = (w', st, r) \<Longrightarrow>
     \<exists>st'. st = StPublishStarted # st' \<and>
       st' \<in> {[], [StSinkAcknowledged], [StSinkAcknowledged, StCheckpointCommitted],
              [StDlqPersisted], [StDlqPersisted, StCheckpointCommitted]}"
  using handle_directive_stages unfolding publish_batch_def Let_def by (fastforce split: prod.splits)

lemma process_batch_stages:
  assumes "process_batch publish cfg env ms cp w = (w', st, r)" and "ms \<noteq> []"
  shows "st \<in> {[], [StPolled], [StPolled, StEncoded], [StPolled, StEncoded, StDryRun],
      [StPolled, StEncoded, StDryRun, StCheckpointCommitted]} \<or>
    (\<exists>w1 st'. publish_batch publish cfg env ms cp w = (w1, st', r) \<and> st = StPolled # StEncoded # st')"
  using assms
  by (auto simp: process_batch_def Let_def split: sum.splits prod.splits if_splits dest!: finish_batch_stages)

text \<open>
  C6: The worker implements the repository's delivery model: the stages of every batch it processes,
  whatever fails on the way, are a run of the model from the polled state, and the model is in
  the state of a committed checkpoint when the worker has committed one.
\<close>

theorem worker_refines_delivery_model:
  assumes "process_batch publish cfg env ms cp w = (w', st, r)" and "ms \<noteq> []"
  shows "\<exists>f. model_run c st = Inr f \<and> facts_inv f \<and>
    (StCheckpointCommitted \<in> set st \<longleftrightarrow> df_state f = CheckpointCommitted)"
proof -
  have "\<exists>f. model_run c st = Inr f \<and> (StCheckpointCommitted \<in> set st \<longleftrightarrow> df_state f = CheckpointCommitted)"
    using process_batch_stages [OF assms]
    by (auto simp: model_run_def facts_polled_def transition_def sink_acknowledge_def dest!: publish_batch_stages)
  then show ?thesis using facts_inv_run [OF facts_inv_polled] unfolding model_run_def by blast
qed

end
