(* ===== verification/Tide_System.thy ===== *)
theory Tide_System
  imports Worker_Safety
begin

text \<open>
  The extension and one pipeline's worker as a system of interleaved steps: applications
  publish rows, the retention sweep deletes delivered ones, the worker polls a batch and
  processes it as two steps between which anything may happen, it may crash at any point (the
  failpoints inside a step included) and another relay may take over.  The invariant: a row
  once published is in the table or settled, and the durable offset is only ever past settled
  rows.  So no interleaving loses a row, whatever the sink and the statements do.
\<close>

record 's system =
  sy_world :: "'s world"
  sy_running :: bool
  sy_flight :: "(relay_message list \<times> relay_message option) option"
  sy_history :: "outbox_row list"

definition pipeline_name :: "worker_config \<Rightarrow> string" where
  "pipeline_name cfg = pc_name (wc_pipeline cfg)"

definition pipeline_key :: "worker_config \<Rightarrow> string \<Rightarrow> string \<times> string \<times> string" where
  "pipeline_key cfg ob = (wc_group cfg, pipeline_name cfg, ob)"

definition durable :: "worker_config \<Rightarrow> string \<Rightarrow> tide_db \<Rightarrow> int" where
  "durable cfg ob db = unwrap_or (find_offset (pipeline_key cfg ob) (relay_offsets db)) 0"

text \<open>A live native pipeline on the outbox \<open>ob\<close>: no consumer group, no replay, no dry run.\<close>

definition native_pipeline :: "worker_config \<Rightarrow> string \<Rightarrow> bool" where
  "native_pipeline cfg ob \<longleftrightarrow>
     require_str (wc_pipeline cfg) [''source'', ''outbox''] = Inr ob
   \<and> opt_str (wc_pipeline cfg) [''source'', ''consumer_group''] = None
   \<and> wc_replay cfg = None \<and> \<not> wc_dry_run cfg"

definition with_db :: "tide_db \<Rightarrow> 's system \<Rightarrow> 's system" where
  "with_db db s = s\<lparr>sy_world := (sy_world s)\<lparr>w_db := db\<rparr>\<rparr>"

definition goes_on :: "loop_result \<Rightarrow> bool" where
  "goes_on r \<longleftrightarrow> (case r of LoopAgain _ \<Rightarrow> True | _ \<Rightarrow> False)"

section \<open>The steps\<close>

inductive sys_step ::
    "('env \<Rightarrow> relay_message list \<Rightarrow> 's \<Rightarrow> 's \<times> (relay_error + unit)) \<Rightarrow> worker_config \<Rightarrow> string \<Rightarrow>
       's system \<Rightarrow> 's system \<Rightarrow> bool"
  for publish cfg ob where
  publish_row:
    "outbox_publish f env now name pl hs (w_db (sy_world s)) = Inr db' \<Longrightarrow>
     sys_step publish cfg ob s ((with_db db' s)\<lparr>sy_history :=
       (if name = ob then sy_history s @ [last (outbox_messages db')] else sy_history s)\<rparr>)"
| sweep:
    "sweep_one f locked now name n dry (w_db (sy_world s)) = Inr (res, db') \<Longrightarrow>
     sys_step publish cfg ob s (with_db db' s)"
| poll_batch:
    "sy_running s \<Longrightarrow> sy_flight s = None \<Longrightarrow>
     poll_and_decode senv (wc_batch_size cfg) (wc_replay cfg) (w_source (sy_world s)) (w_db (sy_world s))
       = (src, db', PollBatch ms cp) \<Longrightarrow>
     sys_step publish cfg ob s (s\<lparr>sy_world := (sy_world s)\<lparr>w_source := src, w_db := db',
        w_backoff := wc_poll_interval cfg\<rparr>, sy_flight := Some (ms, cp)\<rparr>)"
| process:
    "sy_running s \<Longrightarrow> sy_flight s = Some (ms, cp) \<Longrightarrow>
     process_batch publish cfg env ms cp (sy_world s) = (w', st, r) \<Longrightarrow>
     sys_step publish cfg ob s (s\<lparr>sy_world := w', sy_flight := None, sy_running := goes_on r\<rparr>)"
| iterate:
    "sy_running s \<Longrightarrow> sy_flight s = None \<Longrightarrow> iteration publish cfg env (sy_world s) = (w', st, r) \<Longrightarrow>
     sys_step publish cfg ob s (s\<lparr>sy_world := w', sy_running := goes_on r\<rparr>)"
| crash:
    "sys_step publish cfg ob s (s\<lparr>sy_running := False, sy_flight := None\<rparr>)"
| restart:
    "\<not> sy_running s \<Longrightarrow>
     build_source None worker (wc_pipeline cfg) (wc_group cfg) (w_db (sy_world s)) = Inr src \<Longrightarrow>
     sys_step publish cfg ob s
       (s\<lparr>sy_world := (start_world cfg src (w_db (sy_world s)) (w_sink (sy_world s)))
                       \<lparr>w_receipts := w_receipts (sy_world s)\<rparr>,
          sy_running := True, sy_flight := None\<rparr>)"

inductive sys_reach ::
    "('env \<Rightarrow> relay_message list \<Rightarrow> 's \<Rightarrow> 's \<times> (relay_error + unit)) \<Rightarrow> worker_config \<Rightarrow> string \<Rightarrow>
       's system \<Rightarrow> 's system \<Rightarrow> bool"
  for publish cfg ob s0 where
  reach_refl: "sys_reach publish cfg ob s0 s0"
| reach_step: "sys_reach publish cfg ob s0 s \<Longrightarrow> sys_step publish cfg ob s s' \<Longrightarrow> sys_reach publish cfg ob s0 s'"

section \<open>The invariant\<close>

definition accounted :: "('s \<Rightarrow> string set) \<Rightarrow> worker_config \<Rightarrow> string \<Rightarrow> 's world \<Rightarrow> outbox_row \<Rightarrow> bool" where
  "accounted holds cfg ob w h \<longleftrightarrow> row_key ob (row_id h) \<in> settled holds (pipeline_name cfg) w"

text \<open>Every row ever published is still there or accounted for, and those up to \<open>off\<close> are.\<close>

definition rows_safe :: "('s \<Rightarrow> string set) \<Rightarrow> worker_config \<Rightarrow> string \<Rightarrow> 's world \<Rightarrow> outbox_row list \<Rightarrow> bool" where
  "rows_safe holds cfg ob w hist \<longleftrightarrow>
     (\<forall>h \<in> set hist. h \<in> set (outbox_messages (w_db w)) \<or> accounted holds cfg ob w h)"

definition safe_upto :: "('s \<Rightarrow> string set) \<Rightarrow> worker_config \<Rightarrow> string \<Rightarrow> 's world \<Rightarrow> outbox_row list \<Rightarrow> int \<Rightarrow> bool" where
  "safe_upto holds cfg ob w hist off \<longleftrightarrow>
     (\<forall>h \<in> set hist. row_id h \<le> off \<longrightarrow> accounted holds cfg ob w h)"

definition ids_ok :: "tide_db \<Rightarrow> string \<Rightarrow> outbox_row list \<Rightarrow> bool" where
  "ids_ok db ob hist \<longleftrightarrow>
     1 \<le> next_id db
   \<and> (\<forall>r \<in> set (outbox_messages db). row_id r < next_id db)
   \<and> inj_on row_id (set (outbox_messages db))
   \<and> (\<forall>h \<in> set hist. 1 \<le> row_id h \<and> row_id h < next_id db \<and> row_outbox h = ob)"

definition registered :: "worker_config \<Rightarrow> string \<Rightarrow> tide_db \<Rightarrow> bool" where
  "registered cfg ob db \<longleftrightarrow>
     (\<exists>rc. (pipeline_name cfg, rc) \<in> set (relay_configs db) \<and> names_outbox ob rc)
   \<and> (\<forall>k \<in> offset_key ` set (relay_offsets db). fst (snd k) = pipeline_name cfg \<and> snd (snd k) = ob
        \<longrightarrow> fst k = wc_group cfg)"

definition source_ok :: "('s \<Rightarrow> string set) \<Rightarrow> worker_config \<Rightarrow> string \<Rightarrow> 's world \<Rightarrow> outbox_row list \<Rightarrow> bool" where
  "source_ok holds cfg ob w hist \<longleftrightarrow>
     live (w_source w) \<and> source_key (w_source w) = pipeline_key cfg ob
   \<and> s_last_offset (w_source w) < next_id (w_db w)
   \<and> safe_upto holds cfg ob w hist (s_last_offset (w_source w))"

definition flight_ok ::
    "('s \<Rightarrow> string set) \<Rightarrow> worker_config \<Rightarrow> string \<Rightarrow> 's world \<Rightarrow> outbox_row list \<Rightarrow>
       relay_message list \<Rightarrow> relay_message option \<Rightarrow> bool" where
  "flight_ok holds cfg ob w hist ms cp \<longleftrightarrow>
     (\<exists>rows. rows \<noteq> [] \<and> list_all2 (message_of ob) rows ms \<and> cp = Some (last ms)
        \<and> row_id (last rows) < next_id (w_db w)
        \<and> (\<forall>h \<in> set hist. row_id h \<le> row_id (last rows) \<longrightarrow>
             accounted holds cfg ob w h \<or> row_id h \<in> row_id ` set rows))"

definition sys_inv :: "('s \<Rightarrow> string set) \<Rightarrow> worker_config \<Rightarrow> string \<Rightarrow> 's system \<Rightarrow> bool" where
  "sys_inv holds cfg ob s \<longleftrightarrow>
     rows_safe holds cfg ob (sy_world s) (sy_history s)
   \<and> safe_upto holds cfg ob (sy_world s) (sy_history s) (durable cfg ob (w_db (sy_world s)))
   \<and> durable cfg ob (w_db (sy_world s)) < next_id (w_db (sy_world s))
   \<and> ids_ok (w_db (sy_world s)) ob (sy_history s)
   \<and> registered cfg ob (w_db (sy_world s))
   \<and> (sy_running s \<longrightarrow> source_ok holds cfg ob (sy_world s) (sy_history s))
   \<and> (\<forall>ms cp. sy_flight s = Some (ms, cp) \<longrightarrow>
        sy_running s \<and> flight_ok holds cfg ob (sy_world s) (sy_history s) ms cp)"

section \<open>Preservation: the worker's steps\<close>

lemma accounted_mono: "keeps holds w w' \<Longrightarrow> accounted holds cfg ob w h \<Longrightarrow> accounted holds cfg ob w' h"
  using settled_mono [of holds w w' "pipeline_name cfg"] by (auto simp: accounted_def)

lemma keeps_db:
  assumes "keeps holds w w'"
  shows "outbox_messages (w_db w') = outbox_messages (w_db w)" "next_id (w_db w') = next_id (w_db w)"
    "relay_configs (w_db w') = relay_configs (w_db w)"
  using assms db_progress_simps [of "w_db w" "w_db w'"] by (auto simp: keeps_def)

lemma rows_safe_keeps: "keeps holds w w' \<Longrightarrow> rows_safe holds cfg ob w hist \<Longrightarrow> rows_safe holds cfg ob w' hist"
  using accounted_mono keeps_db(1) by (fastforce simp: rows_safe_def)

lemma safe_upto_keeps: "keeps holds w w' \<Longrightarrow> safe_upto holds cfg ob w hist off \<Longrightarrow> safe_upto holds cfg ob w' hist off"
  using accounted_mono by (fastforce simp: safe_upto_def)

lemma ids_ok_keeps: "keeps holds w w' \<Longrightarrow> ids_ok (w_db w) ob hist \<Longrightarrow> ids_ok (w_db w') ob hist"
  by (simp add: ids_ok_def keeps_db)

lemma keeps_source:
  "keeps holds w w' \<Longrightarrow> live (w_source w') = live (w_source w)"
  "keeps holds w w' \<Longrightarrow> source_key (w_source w') = source_key (w_source w)"
  using source_same_simps(1,2,4) by (auto simp: keeps_def live_def)

lemma ball_insert_subset: "\<forall>x \<in> A. P x \<Longrightarrow> B \<subseteq> insert a A \<Longrightarrow> P a \<Longrightarrow> \<forall>x \<in> B. P x"
  by blast

lemma registered_moved:
  assumes "keeps holds w w'" and "registered cfg ob (w_db w)"
    and "unmoved w w' \<or> (moved_to off w w' \<and> source_key (w_source w) = pipeline_key cfg ob)"
  shows "registered cfg ob (w_db w')"
proof -
  let ?A = "offset_key ` set (relay_offsets (w_db w))"
  have sub: "offset_key ` set (relay_offsets (w_db w')) \<subseteq> insert (pipeline_key cfg ob) ?A"
    using assms(3)
  proof
    assume "unmoved w w'"
    then have "relay_offsets (w_db w') = relay_offsets (w_db w)" by (simp add: unmoved_def)
    then show ?thesis by (simp only: subset_insertI)
  next
    assume "moved_to off w w' \<and> source_key (w_source w) = pipeline_key cfg ob"
    then show ?thesis by (simp only: moved_to_def advanced_def subset_refl)
  qed
  have all: "\<forall>k \<in> ?A. fst (snd k) = pipeline_name cfg \<and> snd (snd k) = ob \<longrightarrow> fst k = wc_group cfg"
    using assms(2) unfolding registered_def by blast
  have "fst (pipeline_key cfg ob) = wc_group cfg" by (simp add: pipeline_key_def)
  then have "\<forall>k \<in> offset_key ` set (relay_offsets (w_db w')).
      fst (snd k) = pipeline_name cfg \<and> snd (snd k) = ob \<longrightarrow> fst k = wc_group cfg"
    by (intro ball_insert_subset [OF all sub]) simp
  then show ?thesis
    using assms(2) keeps_db(3) [OF assms(1)] unfolding registered_def by simp
qed

lemma durable_moved:
  "source_key (w_source w) = pipeline_key cfg ob \<Longrightarrow> moved_to off w w' \<Longrightarrow>
     durable cfg ob (w_db w') = max (durable cfg ob (w_db w)) off"
  by (auto simp: durable_def moved_to_def advanced_def split: option.splits)

lemma durable_unmoved: "unmoved w w' \<Longrightarrow> durable cfg ob (w_db w') = durable cfg ob (w_db w)"
  by (simp add: durable_def unmoved_def)

text \<open>A step of the worker that has the effect of one batch preserves the invariant.\<close>

lemma inv_worker_step:
  assumes inv: "sys_inv holds cfg ob s" and run: "sy_running s"
    and k: "keeps holds (sy_world s) w'"
    and e: "unmoved (sy_world s) w' \<or>
      (moved_to off (sy_world s) w' \<and> off < next_id (w_db (sy_world s)) \<and> safe_upto holds cfg ob w' (sy_history s) off)"
  shows "sys_inv holds cfg ob (s\<lparr>sy_world := w', sy_flight := None, sy_running := b\<rparr>)"
proof -
  let ?w = "sy_world s" and ?h = "sy_history s"
  from inv run have so: "source_ok holds cfg ob ?w ?h" by (simp add: sys_inv_def)
  then have key: "source_key (w_source ?w) = pipeline_key cfg ob" by (simp add: source_ok_def)
  have dur: "safe_upto holds cfg ob w' ?h (durable cfg ob (w_db w')) \<and> durable cfg ob (w_db w') < next_id (w_db w')"
  proof -
    have old: "safe_upto holds cfg ob w' ?h (durable cfg ob (w_db ?w))" "durable cfg ob (w_db ?w) < next_id (w_db w')"
      using inv safe_upto_keeps [OF k] keeps_db(2) [OF k] by (simp_all add: sys_inv_def)
    from e show ?thesis
    proof
      assume "unmoved ?w w'"
      with old show ?thesis by (simp add: durable_unmoved)
    next
      assume m: "moved_to off ?w w' \<and> off < next_id (w_db ?w) \<and> safe_upto holds cfg ob w' ?h off"
      with durable_moved [OF key] have "durable cfg ob (w_db w') = max (durable cfg ob (w_db ?w)) off" by blast
      with m old keeps_db(2) [OF k] show ?thesis by (auto simp: max_def)
    qed
  qed
  have src: "source_ok holds cfg ob w' ?h"
  proof -
    have old: "safe_upto holds cfg ob w' ?h (s_last_offset (w_source ?w))" "s_last_offset (w_source ?w) < next_id (w_db w')"
      using so safe_upto_keeps [OF k] keeps_db(2) [OF k] by (simp_all add: source_ok_def)
    have ls: "live (w_source w') \<and> source_key (w_source w') = pipeline_key cfg ob"
      using so keeps_source [OF k] by (simp add: source_ok_def)
    from e show ?thesis
    proof
      assume "unmoved ?w w'"
      with old ls show ?thesis by (simp add: source_ok_def unmoved_def)
    next
      assume m: "moved_to off ?w w' \<and> off < next_id (w_db ?w) \<and> safe_upto holds cfg ob w' ?h off"
      then have "s_last_offset (w_source w') = s_last_offset (w_source ?w)
          \<or> s_last_offset (w_source w') = max (s_last_offset (w_source ?w)) off"
        by (simp add: moved_to_def advanced_def)
      with m old ls keeps_db(2) [OF k] show ?thesis by (auto simp: source_ok_def max_def)
    qed
  qed
  have "registered cfg ob (w_db w')"
    using registered_moved [OF k] inv e key by (auto simp: sys_inv_def)
  with dur src rows_safe_keeps [OF k] ids_ok_keeps [OF k] inv show ?thesis
    by (simp add: sys_inv_def)
qed

text \<open>What lies up to the last polled row is accounted for or polled.\<close>

lemma polled_covers:
  assumes inv: "sys_inv holds cfg ob s" and run: "sy_running s"
    and rows: "rows = polled_rows n (w_source (sy_world s)) (w_db (sy_world s))" "rows \<noteq> []"
    and h: "h \<in> set (sy_history s)" "row_id h \<le> row_id (last rows)"
  shows "accounted holds cfg ob (sy_world s) h \<or> row_id h \<in> row_id ` set rows"
proof (rule disjCI)
  assume out: "row_id h \<notin> row_id ` set rows"
  let ?w = "sy_world s"
  from inv run have so: "source_ok holds cfg ob ?w (sy_history s)" by (simp add: sys_inv_def)
  then have name: "s_outbox (w_source ?w) = ob" by (simp add: source_ok_def source_key_def pipeline_key_def)
  show "accounted holds cfg ob ?w h"
  proof (rule ccontr)
    assume na: "\<not> accounted holds cfg ob ?w h"
    with inv h(1) have tab: "h \<in> set (outbox_messages (w_db ?w))" by (auto simp: sys_inv_def rows_safe_def)
    from na so h(1) have "s_last_offset (w_source ?w) < row_id h"
      by (auto simp: source_ok_def safe_upto_def not_le [symmetric])
    moreover have "row_outbox h = ob" using inv h(1) by (auto simp: sys_inv_def ids_ok_def)
    ultimately have "h \<in> set (rows_after (s_outbox (w_source ?w)) (s_last_offset (w_source ?w)) (w_db ?w))"
      using tab name by simp
    moreover have "last rows \<in> set (take (nat n) (rows_after (s_outbox (w_source ?w)) (s_last_offset (w_source ?w)) (w_db ?w)))"
      using rows by (simp add: polled_rows_def)
    ultimately have "\<exists>q \<in> set rows. row_id q = row_id h"
      using rows_after_prefix h(2) rows(1) unfolding polled_rows_def by blast
    with out show False by (metis image_eqI)
  qed
qed

lemma polled_last_id:
  assumes "sys_inv holds cfg ob s"
    and "rows = polled_rows n (w_source (sy_world s)) (w_db (sy_world s))" "rows \<noteq> []"
  shows "row_id (last rows) < next_id (w_db (sy_world s))"
proof -
  have "last rows \<in> set (outbox_messages (w_db (sy_world s)))"
  proof -
    have "last rows \<in> set rows" using assms(3) by simp
    then have "last rows \<in> set (rows_after (s_outbox (w_source (sy_world s))) (s_last_offset (w_source (sy_world s))) (w_db (sy_world s)))"
      using assms(2) unfolding polled_rows_def by (blast dest: in_set_takeD)
    then show ?thesis by simp
  qed
  with assms(1) show ?thesis by (auto simp: sys_inv_def ids_ok_def)
qed

text \<open>Once the keys of the batch are settled, everything up to its last row is.\<close>

lemma settled_upto:
  assumes "\<And>h. h \<in> set hist \<Longrightarrow> row_id h \<le> off \<Longrightarrow> accounted holds cfg ob w h \<or> row_id h \<in> row_id ` set rows"
    and "keeps holds w w'"
    and "\<forall>r \<in> set rows. row_key ob (row_id r) \<in> settled holds (pipeline_name cfg) w'"
  shows "safe_upto holds cfg ob w' hist off"
  unfolding safe_upto_def
proof (intro ballI impI)
  fix h
  assume "h \<in> set hist" "row_id h \<le> off"
  from assms(1) [OF this] show "accounted holds cfg ob w' h"
  proof
    assume "accounted holds cfg ob w h"
    with assms(2) show ?thesis by (rule accounted_mono)
  next
    assume "row_id h \<in> row_id ` set rows"
    with assms(3) show ?thesis by (auto simp: accounted_def)
  qed
qed

section \<open>Preservation: the database's steps\<close>

lemma with_db_simps [simp]:
  "sy_running (with_db db s) = sy_running s" "sy_flight (with_db db s) = sy_flight s"
  "sy_history (with_db db s) = sy_history s" "w_db (sy_world (with_db db s)) = db"
  "w_source (sy_world (with_db db s)) = w_source (sy_world s)"
  "w_sink (sy_world (with_db db s)) = w_sink (sy_world s)"
  by (simp_all add: with_db_def)

text \<open>A change of the database that leaves the offsets and the dead letters as they are.\<close>

definition same_delivery :: "'s world \<Rightarrow> 's world \<Rightarrow> bool" where
  "same_delivery w w' \<longleftrightarrow>
     w_sink w' = w_sink w \<and> w_source w' = w_source w \<and> dlq_table (w_db w') = dlq_table (w_db w)
   \<and> relay_offsets (w_db w') = relay_offsets (w_db w) \<and> relay_configs (w_db w') = relay_configs (w_db w)
   \<and> next_id (w_db w) \<le> next_id (w_db w')"

lemma same_accounted: "same_delivery w w' \<Longrightarrow> accounted holds cfg ob w' h = accounted holds cfg ob w h"
  by (simp add: same_delivery_def accounted_def settled_def dead_letters_def)

lemma same_delivery_parts:
  assumes "same_delivery w w'"
  shows "durable cfg ob (w_db w') = durable cfg ob (w_db w)"
    and "registered cfg ob (w_db w') = registered cfg ob (w_db w)"
    and "safe_upto holds cfg ob w' hist off = safe_upto holds cfg ob w hist off"
    and "source_ok holds cfg ob w hist \<Longrightarrow> source_ok holds cfg ob w' hist"
    and "flight_ok holds cfg ob w hist ms cp \<Longrightarrow> flight_ok holds cfg ob w' hist ms cp"
  using assms same_accounted [OF assms]
  by (auto simp: same_delivery_def durable_def registered_def safe_upto_def source_ok_def flight_ok_def)

lemma inv_sweep:
  assumes inv: "sys_inv holds cfg ob s"
    and sw: "sweep_one f locked now name n dry (w_db (sy_world s)) = Inr (res, db')"
  shows "sys_inv holds cfg ob (with_db db' s)"
proof -
  let ?db = "w_db (sy_world s)" and ?h = "sy_history s"
  let ?gone = "swept_rows locked now name n dry ?db"
  note eff = sweep_one_effect [OF sw]
  have same: "same_delivery (sy_world s) (sy_world (with_db db' s))"
    using eff(2) by (simp add: same_delivery_def)
  have ids: "ids_ok ?db ob ?h" and reg: "registered cfg ob ?db" and safe: "rows_safe holds cfg ob (sy_world s) ?h"
    and upto: "safe_upto holds cfg ob (sy_world s) ?h (durable cfg ob ?db)"
    using inv by (simp_all add: sys_inv_def)
  have gone: "accounted holds cfg ob (sy_world s) h"
    if h: "h \<in> set ?h" "h \<in> set (outbox_messages ?db)" "row_id h \<in> row_id ` set ?gone" for h
  proof -
    obtain m where m: "m \<in> set ?gone" "row_id m = row_id h" using h(3) by auto
    note el = swept_row_eligible [OF m(1)]
    have "m = h" using ids el m(2) h(2) unfolding ids_ok_def inj_on_def by blast
    with ids el h(1) have ob: "name = ob" unfolding ids_ok_def by blast
    obtain rc where rc: "(pipeline_name cfg, rc) \<in> set (relay_configs ?db)" "names_outbox ob rc"
      using reg unfolding registered_def by blast
    have "\<exists>q \<in> set (participants ob ?db). p_safe_offset q \<le> durable cfg ob ?db"
    proof (cases "find_offset (pipeline_key cfg ob) (relay_offsets ?db)")
      case None
      have "\<forall>row \<in> set (relay_offsets ?db). \<not> (ro_pipeline row = pipeline_name cfg \<and> ro_outbox row = ob)"
      proof (intro ballI notI)
        fix row
        assume row: "row \<in> set (relay_offsets ?db)" "ro_pipeline row = pipeline_name cfg \<and> ro_outbox row = ob"
        then have "fst (offset_key row) = wc_group cfg"
          using reg by (auto simp: registered_def offset_key_def)
        with row(2) have "offset_key row = pipeline_key cfg ob" by (simp add: offset_key_def pipeline_key_def)
        with row(1) have "pipeline_key cfg ob \<in> offset_key ` set (relay_offsets ?db)" by (metis imageI)
        with None find_offset_None_iff [of "pipeline_key cfg ob"] show False by blast
      qed
      moreover have "durable cfg ob ?db = 0" using None by (simp add: durable_def)
      ultimately show ?thesis using relay_participant_none [OF rc] by (metis order_refl)
    next
      case (Some v)
      then obtain row where row: "row \<in> set (relay_offsets ?db)" "offset_key row = pipeline_key cfg ob" "last_change_id row = v"
        using find_offset_in by blast
      then have "ro_pipeline row = pipeline_name cfg" "ro_outbox row = ob"
        by (simp_all add: offset_key_def pipeline_key_def)
      moreover have "durable cfg ob ?db = last_change_id row" using Some row(3) by (simp add: durable_def)
      ultimately show ?thesis using relay_participant_offset [OF rc row(1)] by metis
    qed
    with el ob m(2) have "row_id h \<le> durable cfg ob ?db" by fastforce
    with upto h(1) show ?thesis unfolding safe_upto_def by blast
  qed
  have "rows_safe holds cfg ob (sy_world (with_db db' s)) ?h"
    using safe gone same_accounted [OF same] eff(1) unfolding rows_safe_def by auto
  moreover have "ids_ok db' ob ?h"
    using ids eff by (auto simp: ids_ok_def inj_on_def)
  ultimately show ?thesis
    using inv same_delivery_parts [OF same] eff(2) by (auto simp: sys_inv_def)
qed

lemma inv_publish_row:
  assumes inv: "sys_inv holds cfg ob s"
    and pb: "outbox_publish f env now name pl hs (w_db (sy_world s)) = Inr db'"
  shows "sys_inv holds cfg ob ((with_db db' s)\<lparr>sy_history :=
       (if name = ob then sy_history s @ [last (outbox_messages db')] else sy_history s)\<rparr>)"
proof -
  let ?db = "w_db (sy_world s)" and ?h = "sy_history s"
  let ?row = "\<lparr> row_id = next_id ?db, row_outbox = name, row_payload = pl, row_headers = hs, row_created_at = now \<rparr>"
  let ?h' = "if name = ob then ?h @ [?row] else ?h"
  note d = outbox_publish_Inr(3) [OF pb]
  have same: "same_delivery (sy_world s) (sy_world (with_db db' s))"
    unfolding same_delivery_def using d by simp
  note parts = same_delivery_parts [OF same]
  have dur: "durable cfg ob ?db < next_id ?db" and ids: "ids_ok ?db ob ?h"
    using inv by (simp_all add: sys_inv_def)
  have more: "safe_upto holds cfg ob w ?h' off = safe_upto holds cfg ob w ?h off" if "off < next_id ?db" for w off
    using that by (auto simp: safe_upto_def)
  have "rows_safe holds cfg ob (sy_world (with_db db' s)) ?h'"
    using inv same_accounted [OF same] d by (auto simp: sys_inv_def rows_safe_def)
  moreover have "ids_ok db' ob ?h'"
    using ids d by (fastforce simp: ids_ok_def inj_on_def)
  moreover have "source_ok holds cfg ob (sy_world (with_db db' s)) ?h'" if "sy_running s"
    using inv that parts(4) more [of "s_last_offset (w_source (sy_world s))"]
    by (auto simp: sys_inv_def source_ok_def)
  moreover have "sy_running s \<and> flight_ok holds cfg ob (sy_world (with_db db' s)) ?h' ms cp"
    if "sy_flight s = Some (ms, cp)" for ms cp
  proof -
    from inv that have r: "sy_running s" and f: "flight_ok holds cfg ob (sy_world s) ?h ms cp"
      by (simp_all add: sys_inv_def)
    then obtain rows where rows: "rows \<noteq> []" "list_all2 (message_of ob) rows ms" "cp = Some (last ms)"
      "row_id (last rows) < next_id ?db"
      "\<forall>h \<in> set ?h. row_id h \<le> row_id (last rows) \<longrightarrow>
         accounted holds cfg ob (sy_world s) h \<or> row_id h \<in> row_id ` set rows"
      unfolding flight_ok_def by blast
    moreover have "next_id ?db \<le> next_id db'" using d by simp
    ultimately have "flight_ok holds cfg ob (sy_world (with_db db' s)) ?h' ms cp"
      unfolding flight_ok_def using same_accounted [OF same]
      by (intro exI [of _ rows]) auto
    with r show ?thesis by simp
  qed
  ultimately show ?thesis
    using inv parts(1,2,3) more [OF dur] dur d
    by (auto simp: sys_inv_def)
qed

section \<open>Preservation: polling, crashing and restarting\<close>

lemma inv_crash:
  "sys_inv holds cfg ob s \<Longrightarrow> sys_inv holds cfg ob (s\<lparr>sy_running := False, sy_flight := None\<rparr>)"
  by (simp add: sys_inv_def)

lemma restarted_source:
  assumes "native_pipeline cfg ob"
    and "build_source None worker (wc_pipeline cfg) (wc_group cfg) db = Inr src"
  shows "live src" "source_key src = pipeline_key cfg ob" "s_last_offset src = durable cfg ob db"
  using assms
  by (auto simp: build_source_def native_pipeline_def new_simple_native_def load_offset_def stmt_def
      live_def source_key_def pipeline_key_def pipeline_name_def durable_def and_then_Inr_iff Let_def)

lemma inv_restart:
  assumes inv: "sys_inv holds cfg ob s" and nat: "native_pipeline cfg ob"
    and b: "build_source None worker (wc_pipeline cfg) (wc_group cfg) (w_db (sy_world s)) = Inr src"
  shows "sys_inv holds cfg ob
       (s\<lparr>sy_world := (start_world cfg src (w_db (sy_world s)) (w_sink (sy_world s)))
                       \<lparr>w_receipts := w_receipts (sy_world s)\<rparr>,
          sy_running := True, sy_flight := None\<rparr>)"
    (is "sys_inv _ _ _ (s\<lparr>sy_world := ?w, sy_running := _, sy_flight := _\<rparr>)")
proof -
  have w: "w_db ?w = w_db (sy_world s)" "w_sink ?w = w_sink (sy_world s)" "w_source ?w = src"
    by (simp_all add: start_world_def)
  then have acc: "accounted holds cfg ob ?w h = accounted holds cfg ob (sy_world s) h" for h
    by (simp add: accounted_def settled_def)
  with inv w restarted_source [OF nat b] show ?thesis
    by (simp add: sys_inv_def rows_safe_def safe_upto_def source_ok_def)
qed

lemma inv_with_flight:
  assumes "sys_inv holds cfg ob (s\<lparr>sy_world := w', sy_flight := None, sy_running := True\<rparr>)"
    and "flight_ok holds cfg ob w' (sy_history s) ms cp" and "sy_running s"
  shows "sys_inv holds cfg ob (s\<lparr>sy_world := w', sy_flight := Some (ms, cp)\<rparr>)"
  using assms by (simp add: sys_inv_def)

lemma poll_and_decode_batch:
  assumes "poll_and_decode senv n None src db = (src', db', PollBatch ms cp)"
  shows "poll senv n src db = (src', db', Inr ms)" and "ms \<noteq> []" and "cp = Some (last ms)"
  using assms by (auto simp: poll_and_decode_def split: prod.splits sum.splits if_splits)

lemma inv_poll_batch:
  assumes inv: "sys_inv holds cfg ob s" and nat: "native_pipeline cfg ob" and run: "sy_running s"
    and p: "poll_and_decode senv (wc_batch_size cfg) (wc_replay cfg) (w_source (sy_world s)) (w_db (sy_world s))
       = (src, db', PollBatch ms cp)"
  shows "sys_inv holds cfg ob (s\<lparr>sy_world := (sy_world s)\<lparr>w_source := src, w_db := db',
        w_backoff := wc_poll_interval cfg\<rparr>, sy_flight := Some (ms, cp)\<rparr>)"
    (is "sys_inv _ _ _ (s\<lparr>sy_world := ?w', sy_flight := _\<rparr>)")
proof -
  let ?w = "sy_world s"
  define rows where "rows = polled_rows (wc_batch_size cfg) (w_source ?w) (w_db ?w)"
  from nat have "wc_replay cfg = None" by (simp add: native_pipeline_def)
  note pd = poll_and_decode_batch [OF p [unfolded this]]
  from inv run have so: "source_ok holds cfg ob ?w (sy_history s)" by (simp add: sys_inv_def)
  then have l: "live (w_source ?w)" and name: "s_outbox (w_source ?w) = ob"
    by (simp_all add: source_ok_def source_key_def pipeline_key_def)
  note pu = poll_unmoved [OF l pd(1)]
  have k: "keeps holds ?w ?w'" "unmoved ?w ?w'" using pu(1) [of holds] pu(2) by (simp_all add: keeps_def unmoved_def)
  have rows: "rows \<noteq> []" "list_all2 (message_of ob) rows ms"
    using poll_batch_facts(1) [OF l pd(1,2)] poll_simple(3) [OF _ pd(1)] l name
    by (simp_all add: rows_def live_def)
  have "flight_ok holds cfg ob ?w' (sy_history s) ms cp"
    unfolding flight_ok_def
  proof (intro exI conjI ballI impI)
    show "rows \<noteq> []" "list_all2 (message_of ob) rows ms" "cp = Some (last ms)"
      using rows pd(3) by simp_all
    show "row_id (last rows) < next_id (w_db ?w')"
      using polled_last_id [OF inv rows_def rows(1)] keeps_db(2) [OF k(1)] by simp
    fix h
    assume "h \<in> set (sy_history s)" "row_id h \<le> row_id (last rows)"
    from polled_covers [OF inv run rows_def rows(1) this] accounted_mono [OF k(1)]
    show "accounted holds cfg ob ?w' h \<or> row_id h \<in> row_id ` set rows" by blast
  qed
  moreover have "sys_inv holds cfg ob (s\<lparr>sy_world := ?w', sy_flight := None, sy_running := True\<rparr>)"
    using inv_worker_step [OF inv run k(1)] k(2) by blast
  ultimately show ?thesis using inv_with_flight run by blast
qed

section \<open>Every reachable state, for any sink that meets the contract\<close>

context sink_contract
begin

lemma inv_process:
  assumes inv: "sys_inv holds cfg ob s" and nat: "native_pipeline cfg ob" and run: "sy_running s"
    and fl: "sy_flight s = Some (ms, cp)"
    and p: "process_batch publish cfg env ms cp (sy_world s) = (w', st, r)"
  shows "sys_inv holds cfg ob (s\<lparr>sy_world := w', sy_flight := None, sy_running := goes_on r\<rparr>)"
proof -
  let ?w = "sy_world s"
  from inv fl have "flight_ok holds cfg ob ?w (sy_history s) ms cp" by (simp add: sys_inv_def)
  then obtain rows where rows: "rows \<noteq> []" "list_all2 (message_of ob) rows ms" "cp = Some (last ms)"
    "row_id (last rows) < next_id (w_db ?w)"
    and cov: "\<And>h. h \<in> set (sy_history s) \<Longrightarrow> row_id h \<le> row_id (last rows) \<Longrightarrow>
         accounted holds cfg ob ?w h \<or> row_id h \<in> row_id ` set rows"
    unfolding flight_ok_def by blast
  have ne: "ms \<noteq> []" using rows(1,2) by auto
  then have "message_of ob (last rows) (last ms)"
    using rows(1,2) by (simp add: last_conv_nth list_all2_conv_all_nth)
  then have ack: "ack_token (last ms) = OutboxOffset (row_id (last rows))" by (simp add: message_of_def)
  from inv run have l: "live (w_source ?w)" by (simp add: sys_inv_def source_ok_def)
  have dry: "\<not> wc_dry_run cfg" using nat by (simp add: native_pipeline_def)
  from process_batch_effect [OF l ack ne dry p [unfolded rows(3)] keeps_refl unmoved_refl]
  have k: "keeps holds ?w w'" and e: "unmoved ?w w' \<or> (moved_to (row_id (last rows)) ?w w' \<and>
      dedup_key ` set ms \<subseteq> settled holds (pipeline_name cfg) w')"
    by (simp_all add: batch_effect_def pipeline_name_def)
  have "safe_upto holds cfg ob w' (sy_history s) (row_id (last rows))"
    if "dedup_key ` set ms \<subseteq> settled holds (pipeline_name cfg) w'"
  proof (rule settled_upto [OF cov k])
    show "\<forall>q \<in> set rows. row_key ob (row_id q) \<in> settled holds (pipeline_name cfg) w'"
      using that message_keys [OF rows(2)] by blast
  qed
  with e rows(4) show ?thesis using inv_worker_step [OF inv run k] by blast
qed

lemma inv_iterate:
  assumes inv: "sys_inv holds cfg ob s" and nat: "native_pipeline cfg ob" and run: "sy_running s"
    and fl: "sy_flight s = None"
    and it: "iteration publish cfg env (sy_world s) = (w', st, r)"
  shows "sys_inv holds cfg ob (s\<lparr>sy_world := w', sy_running := goes_on r\<rparr>)"
proof -
  let ?w = "sy_world s"
  define rows where "rows = polled_rows (wc_batch_size cfg) (w_source ?w) (w_db ?w)"
  from inv run have so: "source_ok holds cfg ob ?w (sy_history s)" by (simp add: sys_inv_def)
  then have l: "live (w_source ?w)" and name: "s_outbox (w_source ?w) = ob"
    by (simp_all add: source_ok_def source_key_def pipeline_key_def)
  have "\<not> wc_dry_run cfg" "wc_replay cfg = None" using nat by (simp_all add: native_pipeline_def)
  from iteration_effect [OF l this it]
  have k: "keeps holds ?w w'" and e: "unmoved ?w w' \<or> (rows \<noteq> [] \<and> moved_to (row_id (last rows)) ?w w' \<and>
      (\<forall>q \<in> set rows. row_key ob (row_id q) \<in> settled holds (pipeline_name cfg) w'))"
    by (simp_all add: iteration_safe_def rows_def [symmetric] Let_def name pipeline_name_def)
  have "safe_upto holds cfg ob w' (sy_history s) (row_id (last rows)) \<and> row_id (last rows) < next_id (w_db ?w)"
    if "rows \<noteq> []" "\<forall>q \<in> set rows. row_key ob (row_id q) \<in> settled holds (pipeline_name cfg) w'"
    using settled_upto [OF polled_covers [OF inv run rows_def that(1)] k that(2)]
      polled_last_id [OF inv rows_def that(1)] by blast
  with e have "sys_inv holds cfg ob (s\<lparr>sy_world := w', sy_flight := None, sy_running := goes_on r\<rparr>)"
    using inv_worker_step [OF inv run k] by blast
  moreover have "s\<lparr>sy_world := w', sy_flight := None, sy_running := goes_on r\<rparr> = s\<lparr>sy_world := w', sy_running := goes_on r\<rparr>"
    using fl by (cases s) simp
  ultimately show ?thesis by simp
qed

lemma inv_step:
  assumes "native_pipeline cfg ob" and "sys_inv holds cfg ob s" and "sys_step publish cfg ob s s'"
  shows "sys_inv holds cfg ob s'"
  using assms(3)
proof cases
  case publish_row
  then show ?thesis using inv_publish_row [OF assms(2)] by blast
next
  case sweep
  then show ?thesis using inv_sweep [OF assms(2)] by blast
next
  case poll_batch
  then show ?thesis using inv_poll_batch [OF assms(2,1)] by blast
next
  case process
  then show ?thesis using inv_process [OF assms(2,1)] by blast
next
  case iterate
  then show ?thesis using inv_iterate [OF assms(2,1)] by blast
next
  case crash
  then show ?thesis using inv_crash [OF assms(2)] by blast
next
  case restart
  then show ?thesis using inv_restart [OF assms(2,1)] by blast
qed

lemma inv_reach:
  assumes "sys_reach publish cfg ob s0 s" and "native_pipeline cfg ob" and "sys_inv holds cfg ob s0"
  shows "sys_inv holds cfg ob s"
  using assms(1,3) by induction (auto intro: inv_step [OF assms(2)])

end

text \<open>The state the invariant starts from: no worker, nothing published, no dead letters assumed.\<close>

definition sys_start :: "worker_config \<Rightarrow> string \<Rightarrow> 's system \<Rightarrow> bool" where
  "sys_start cfg ob s \<longleftrightarrow>
     \<not> sy_running s \<and> sy_flight s = None \<and> sy_history s = []
   \<and> outbox_messages (w_db (sy_world s)) = [] \<and> relay_offsets (w_db (sy_world s)) = []
   \<and> 1 \<le> next_id (w_db (sy_world s))
   \<and> (\<exists>rc. (pipeline_name cfg, rc) \<in> set (relay_configs (w_db (sy_world s))) \<and> names_outbox ob rc)"

lemma inv_start: "sys_start cfg ob s \<Longrightarrow> sys_inv holds cfg ob s"
  by (auto simp: sys_start_def sys_inv_def rows_safe_def safe_upto_def durable_def ids_ok_def registered_def)

text \<open>What the invariant says to an operator of the outbox.\<close>

lemma inv_no_loss:
  assumes "sys_inv holds cfg ob s" and "h \<in> set (sy_history s)"
    and "row_key ob (row_id h) \<notin> holds (w_sink (sy_world s))"
    and "row_key ob (row_id h) \<notin> dead_letters (pipeline_name cfg) (w_db (sy_world s))"
  shows "h \<in> set (outbox_messages (w_db (sy_world s)))"
    and "durable cfg ob (w_db (sy_world s)) < row_id h"
    and "sy_running s \<Longrightarrow> s_last_offset (w_source (sy_world s)) < row_id h"
  using assms
  by (auto simp: sys_inv_def rows_safe_def safe_upto_def source_ok_def accounted_def settled_def not_le [symmetric])

end
