(* ===== verification/Fence.thy ===== *)
theory Fence
  imports Outbox_Source
begin

text \<open>
  The publication fence.  Rows get their identifiers when they are inserted but become visible when
  their transactions commit, in any order, so a reader could move its cursor past a row that is not yet
  visible.  Publishers (\<open>pg-tide-ext/src/outbox.rs\<close>) hold a shared advisory lock of the outbox until
  they end; the poller (\<open>pg-tide-relay/src/source/outbox.rs\<close>) reads under the exclusive one.  The
  system below lets any number of publishing transactions interleave with polls, and its property is
  that no row is ever passed over.
\<close>

section \<open>Shared and exclusive locks of transactions\<close>

locale xact_fence =
  fixes readers :: "'l \<Rightarrow> 'k \<Rightarrow> 't \<Rightarrow> bool"
    and writer :: "'l \<Rightarrow> 'k \<Rightarrow> 't \<Rightarrow> bool"
    and read_lock :: "'t \<Rightarrow> 'k \<Rightarrow> 'l \<Rightarrow> 'l option"
    and write_lock :: "'t \<Rightarrow> 'k \<Rightarrow> 'l \<Rightarrow> 'l option"
    and release :: "'t \<Rightarrow> 'l \<Rightarrow> 'l"
  assumes read_lock_readers: "read_lock t k l = Some l' \<Longrightarrow> readers l' k' t' \<longleftrightarrow> readers l k' t' \<or> (k' = k \<and> t' = t)"
    and read_lock_writer: "read_lock t k l = Some l' \<Longrightarrow> writer l' k' t' \<longleftrightarrow> writer l k' t'"
    and read_lock_free: "read_lock t k l = Some l' \<Longrightarrow> writer l k t' \<Longrightarrow> t' = t"
    and write_lock_writer: "write_lock t k l = Some l' \<Longrightarrow> writer l' k' t' \<longleftrightarrow> writer l k' t' \<or> (k' = k \<and> t' = t)"
    and write_lock_readers: "write_lock t k l = Some l' \<Longrightarrow> readers l' k' t' \<longleftrightarrow> readers l k' t'"
    and write_lock_free: "write_lock t k l = Some l' \<Longrightarrow> readers l k t' \<Longrightarrow> t' = t"
    and release_readers: "readers (release t l) k t' \<longleftrightarrow> readers l k t' \<and> t' \<noteq> t"
    and release_writer: "writer (release t l) k t' \<longleftrightarrow> writer l k t' \<and> t' \<noteq> t"
begin

text \<open>A transaction that holds the exclusive lock shares it with nobody.\<close>

definition fenced :: "'l \<Rightarrow> bool" where
  "fenced l \<longleftrightarrow> (\<forall>k t t'. writer l k t \<longrightarrow> readers l k t' \<longrightarrow> t' = t)"

lemma fenced_alone: "fenced l \<Longrightarrow> writer l k t \<Longrightarrow> readers l k t' \<Longrightarrow> t' = t"
  unfolding fenced_def by blast

lemma fenced_read_lock: "fenced l \<Longrightarrow> read_lock t k l = Some l' \<Longrightarrow> fenced l'"
  unfolding fenced_def by (metis read_lock_readers read_lock_writer read_lock_free)

lemma fenced_write_lock: "fenced l \<Longrightarrow> write_lock t k l = Some l' \<Longrightarrow> fenced l'"
  unfolding fenced_def by (metis write_lock_writer write_lock_readers write_lock_free)

lemma fenced_release: "fenced l \<Longrightarrow> fenced (release t l)"
  unfolding fenced_def release_readers release_writer by blast

end

text \<open>The server's table of advisory locks, held by numbered transactions on 64-bit keys.\<close>

record advisory_locks =
  shared_held :: "(nat \<times> int) list"
  exclusive_held :: "(nat \<times> int) list"

definition no_locks :: advisory_locks where
  "no_locks = \<lparr> shared_held = [], exclusive_held = [] \<rparr>"

definition holds_shared :: "advisory_locks \<Rightarrow> int \<Rightarrow> nat \<Rightarrow> bool" where
  "holds_shared l k t \<longleftrightarrow> (t, k) \<in> set (shared_held l)"

definition holds_exclusive :: "advisory_locks \<Rightarrow> int \<Rightarrow> nat \<Rightarrow> bool" where
  "holds_exclusive l k t \<longleftrightarrow> (t, k) \<in> set (exclusive_held l)"

text \<open>A request that is not granted blocks: there is no step.\<close>

definition xact_lock_shared :: "nat \<Rightarrow> int \<Rightarrow> advisory_locks \<Rightarrow> advisory_locks option" where
  "xact_lock_shared t k l =
     (if list_ex (\<lambda>(t', k'). k' = k \<and> t' \<noteq> t) (exclusive_held l) then None
      else Some (l\<lparr>shared_held := (t, k) # shared_held l\<rparr>))"

definition xact_lock :: "nat \<Rightarrow> int \<Rightarrow> advisory_locks \<Rightarrow> advisory_locks option" where
  "xact_lock t k l =
     (if list_ex (\<lambda>(t', k'). k' = k \<and> t' \<noteq> t) (exclusive_held l @ shared_held l) then None
      else Some (l\<lparr>exclusive_held := (t, k) # exclusive_held l\<rparr>))"

definition end_xact :: "nat \<Rightarrow> advisory_locks \<Rightarrow> advisory_locks" where
  "end_xact t l = \<lparr> shared_held = filter (\<lambda>(t', k). t' \<noteq> t) (shared_held l),
                    exclusive_held = filter (\<lambda>(t', k). t' \<noteq> t) (exclusive_held l) \<rparr>"

interpretation adv: xact_fence holds_shared holds_exclusive xact_lock_shared xact_lock end_xact
  by unfold_locales
    (auto simp: holds_shared_def holds_exclusive_def xact_lock_shared_def xact_lock_def end_xact_def list_ex_iff
      split: if_splits)

section \<open>Publishers and a poller\<close>

text \<open>
  The keys both programs build for an outbox; \<open>hash\<close> is PostgreSQL's \<open>hashtextextended(.., 0)\<close>.  A
  message row that is inserted but not committed is kept with its transaction; its identifier is taken
  from the sequence at once.
\<close>

definition lock_outbox_key :: "string \<Rightarrow> string" where
  "lock_outbox_key name = ''pg_tide:outbox:'' @ name"

record fence_world =
  fw_db :: tide_db
  fw_locks :: advisory_locks
  fw_pending :: "(nat \<times> outbox_row) list"
  fw_cursor :: int
  fw_read :: "outbox_row set"

definition in_xact :: "nat \<Rightarrow> (nat \<times> outbox_row) list \<Rightarrow> outbox_row list" where
  "in_xact t pending = map snd (filter (\<lambda>(t', r). t' = t) pending)"

definition not_in_xact :: "nat \<Rightarrow> (nat \<times> outbox_row) list \<Rightarrow> (nat \<times> outbox_row) list" where
  "not_in_xact t pending = filter (\<lambda>(t', r). t' \<noteq> t) pending"

text \<open>\<open>outbox_publish\<close> inside transaction \<open>t\<close>: the shared lock first, then the insertion.\<close>

definition publish_in ::
    "(string \<Rightarrow> int) \<Rightarrow> spi_fate \<Rightarrow> auth_env \<Rightarrow> int \<Rightarrow> nat \<Rightarrow> string \<Rightarrow> json \<Rightarrow> json \<Rightarrow> fence_world \<Rightarrow> fence_world option" where
  "publish_in hash f auth now t name pl hs w =
     (case xact_lock_shared t (hash (lock_outbox_key name)) (fw_locks w) of
        None \<Rightarrow> None
      | Some l \<Rightarrow>
          (case outbox_publish f auth now name pl hs (fw_db w) of
             Inl e \<Rightarrow> None
           | Inr db' \<Rightarrow>
               Some (w\<lparr>fw_db := (fw_db w)\<lparr>next_id := next_id db'\<rparr>, fw_locks := l,
                       fw_pending := fw_pending w @ [(t, last (outbox_messages db'))]\<rparr>)))"

definition commit_xact :: "nat \<Rightarrow> fence_world \<Rightarrow> fence_world" where
  "commit_xact t w =
     w\<lparr>fw_db := (fw_db w)\<lparr>outbox_messages := outbox_messages (fw_db w) @ in_xact t (fw_pending w)\<rparr>,
       fw_locks := end_xact t (fw_locks w), fw_pending := not_in_xact t (fw_pending w)\<rparr>"

definition rollback_xact :: "nat \<Rightarrow> fence_world \<Rightarrow> fence_world" where
  "rollback_xact t w = w\<lparr>fw_locks := end_xact t (fw_locks w), fw_pending := not_in_xact t (fw_pending w)\<rparr>"

text \<open>The poll of transaction \<open>p\<close> waits for the exclusive lock, reads what is committed then, and ends.\<close>

definition poll_lock :: "(string \<Rightarrow> int) \<Rightarrow> nat \<Rightarrow> string \<Rightarrow> fence_world \<Rightarrow> fence_world option" where
  "poll_lock hash p name w =
     map_option (\<lambda>l. w\<lparr>fw_locks := l\<rparr>) (xact_lock p (hash (outbox_fence_lock_key name)) (fw_locks w))"

definition poll_read :: "source_env \<Rightarrow> nat \<Rightarrow> string \<Rightarrow> int \<Rightarrow> fence_world \<Rightarrow> fence_world" where
  "poll_read env p name n w =
     (let w' = w\<lparr>fw_locks := end_xact p (fw_locks w)\<rparr>
      in case fenced_native_rows env name (fw_cursor w) n (fw_db w) of
           Inl e \<Rightarrow> w'
         | Inr rows \<Rightarrow>
             w'\<lparr>fw_cursor := (if rows = [] then fw_cursor w else row_id (last rows)), fw_read := fw_read w \<union> set rows\<rparr>)"

text \<open>Anything else, the sweep included, may change the catalog and delete rows, but inserts none.\<close>

definition only_deletes :: "tide_db \<Rightarrow> tide_db \<Rightarrow> bool" where
  "only_deletes db db' \<longleftrightarrow>
     next_id db' = next_id db \<and> (\<exists>keep. outbox_messages db' = filter keep (outbox_messages db))"

inductive fence_step :: "(string \<Rightarrow> int) \<Rightarrow> string \<Rightarrow> nat \<Rightarrow> fence_world \<Rightarrow> fence_world \<Rightarrow> bool"
  for hash :: "string \<Rightarrow> int" and name :: string and p :: nat where
    publish: "t \<noteq> p \<Longrightarrow> publish_in hash f auth now t ob pl hs w = Some w' \<Longrightarrow> fence_step hash name p w w'"
  | commit: "t \<noteq> p \<Longrightarrow> fence_step hash name p w (commit_xact t w)"
  | rollback: "t \<noteq> p \<Longrightarrow> fence_step hash name p w (rollback_xact t w)"
  | lock: "poll_lock hash p name w = Some w' \<Longrightarrow> fence_step hash name p w w'"
  | read: "holds_exclusive (fw_locks w) (hash (outbox_fence_lock_key name)) p \<Longrightarrow>
             fence_step hash name p w (poll_read env p name n w)"
  | other: "only_deletes (fw_db w) db' \<Longrightarrow> fence_step hash name p w (w\<lparr>fw_db := db'\<rparr>)"

definition fence_start :: "fence_world \<Rightarrow> bool" where
  "fence_start w \<longleftrightarrow> fw_locks w = no_locks \<and> fw_pending w = [] \<and> outbox_messages (fw_db w) = []
     \<and> fw_cursor w < next_id (fw_db w)"

inductive fence_reachable :: "(string \<Rightarrow> int) \<Rightarrow> string \<Rightarrow> nat \<Rightarrow> fence_world \<Rightarrow> bool"
  for hash :: "string \<Rightarrow> int" and name :: string and p :: nat where
    start: "fence_start w \<Longrightarrow> fence_reachable hash name p w"
  | step: "fence_reachable hash name p w \<Longrightarrow> fence_step hash name p w w' \<Longrightarrow> fence_reachable hash name p w'"

section \<open>The invariant\<close>

text \<open>
  An uncommitted row is covered by the shared lock of its transaction; identifiers are unique and below
  the sequence; uncommitted rows are above the cursor, and the committed ones below it have been read.
\<close>

definition rows_of :: "fence_world \<Rightarrow> outbox_row set" where
  "rows_of w = set (outbox_messages (fw_db w)) \<union> snd ` set (fw_pending w)"

definition locks_ok :: "(string \<Rightarrow> int) \<Rightarrow> nat \<Rightarrow> fence_world \<Rightarrow> bool" where
  "locks_ok hash p w \<longleftrightarrow> adv.fenced (fw_locks w) \<and> (\<forall>k. \<not> holds_shared (fw_locks w) k p)
   \<and> (\<forall>(t, r) \<in> set (fw_pending w). t \<noteq> p \<and> holds_shared (fw_locks w) (hash (lock_outbox_key (row_outbox r))) t)"

definition ids_ok :: "fence_world \<Rightarrow> bool" where
  "ids_ok w \<longleftrightarrow> (\<forall>r \<in> rows_of w. row_id r < next_id (fw_db w)) \<and> inj_on row_id (rows_of w)
   \<and> fw_cursor w < next_id (fw_db w)"

definition cursor_ok :: "string \<Rightarrow> fence_world \<Rightarrow> bool" where
  "cursor_ok name w \<longleftrightarrow>
     (\<forall>(t, r) \<in> set (fw_pending w). row_outbox r = name \<longrightarrow> fw_cursor w < row_id r)
   \<and> (\<forall>r \<in> set (outbox_messages (fw_db w)). row_outbox r = name \<longrightarrow> row_id r \<le> fw_cursor w \<longrightarrow> r \<in> fw_read w)"

definition fence_inv :: "(string \<Rightarrow> int) \<Rightarrow> string \<Rightarrow> nat \<Rightarrow> fence_world \<Rightarrow> bool" where
  "fence_inv hash name p w \<longleftrightarrow> locks_ok hash p w \<and> ids_ok w \<and> cursor_ok name w"

lemma fence_inv_start: "fence_start w \<Longrightarrow> fence_inv hash name p w"
  by (simp add: fence_inv_def fence_start_def locks_ok_def ids_ok_def cursor_ok_def rows_of_def no_locks_def
      adv.fenced_def holds_shared_def holds_exclusive_def)

lemma ids_ok_subset:
  "ids_ok w \<Longrightarrow> rows_of w' \<subseteq> rows_of w \<Longrightarrow> next_id (fw_db w') = next_id (fw_db w) \<Longrightarrow>
   fw_cursor w' = fw_cursor w \<Longrightarrow> ids_ok w'"
  unfolding ids_ok_def by (metis inj_on_subset subsetD)

lemma published_row:
  "outbox_publish f auth now name pl hs db = Inr db' \<Longrightarrow>
   next_id db' = next_id db + 1 \<and> row_id (last (outbox_messages db')) = next_id db
   \<and> row_outbox (last (outbox_messages db')) = name"
  by (auto simp: outbox_publish_def and_then_Inr_iff split: option.splits if_splits)

lemma fence_inv_publish:
  assumes "fence_inv hash name p w" "t \<noteq> p" "publish_in hash f auth now t ob pl hs w = Some w'"
  shows "fence_inv hash name p w'"
proof -
  from assms(3) obtain l db' where l: "xact_lock_shared t (hash (lock_outbox_key ob)) (fw_locks w) = Some l"
    and db': "outbox_publish f auth now ob pl hs (fw_db w) = Inr db'"
    and w': "w' = w\<lparr>fw_db := (fw_db w)\<lparr>next_id := next_id db'\<rparr>, fw_locks := l,
                    fw_pending := fw_pending w @ [(t, last (outbox_messages db'))]\<rparr>"
    by (auto simp: publish_in_def split: option.splits sum.splits)
  define r where "r = last (outbox_messages db')"
  have row: "next_id db' = next_id (fw_db w) + 1" "row_id r = next_id (fw_db w)" "row_outbox r = ob"
    using published_row [OF db'] by (simp_all add: r_def)
  have fields: "rows_of w' = insert r (rows_of w)" "next_id (fw_db w') = next_id (fw_db w) + 1"
    "fw_cursor w' = fw_cursor w" "set (fw_pending w') = insert (t, r) (set (fw_pending w))" "fw_locks w' = l"
    "outbox_messages (fw_db w') = outbox_messages (fw_db w)" "fw_read w' = fw_read w"
    by (auto simp: w' rows_of_def row(1) r_def)
  have inv: "locks_ok hash p w" "ids_ok w" "cursor_ok name w" using assms(1) by (simp_all add: fence_inv_def)
  have "locks_ok hash p w'"
    using inv(1) assms(2) row(3) adv.fenced_read_lock [OF _ l]
    by (auto simp: locks_ok_def fields adv.read_lock_readers [OF l])
  moreover have "ids_ok w'"
  proof -
    have "\<forall>q \<in> rows_of w. row_id q < row_id r" using inv(2) by (simp add: ids_ok_def row(2))
    then show ?thesis using inv(2) row(2) by (fastforce simp: ids_ok_def fields inj_on_def)
  qed
  moreover have "cursor_ok name w'"
    using inv(2,3) row(2) by (auto simp: cursor_ok_def ids_ok_def fields)
  ultimately show ?thesis by (simp add: fence_inv_def)
qed

lemma set_in_xact: "r \<in> set (in_xact t ps) \<longleftrightarrow> (t, r) \<in> set ps"
  by (force simp: in_xact_def)

lemma set_not_in_xact: "x \<in> set (not_in_xact t ps) \<longleftrightarrow> x \<in> set ps \<and> fst x \<noteq> t"
  by (cases x) (simp add: not_in_xact_def)

lemma locks_ok_end:
  "locks_ok hash p w \<Longrightarrow> locks_ok hash p (w\<lparr>fw_db := d, fw_locks := end_xact t (fw_locks w), fw_pending := not_in_xact t (fw_pending w)\<rparr>)"
  unfolding locks_ok_def
  by (auto simp: adv.fenced_release adv.release_readers set_not_in_xact)

lemma fence_inv_commit: "fence_inv hash name p w \<Longrightarrow> fence_inv hash name p (commit_xact t w)"
proof -
  assume inv: "fence_inv hash name p w"
  let ?w = "commit_xact t w"
  have "rows_of ?w \<subseteq> rows_of w"
    by (force simp: rows_of_def commit_xact_def set_in_xact set_not_in_xact)
  moreover have "cursor_ok name ?w"
    using inv by (force simp: fence_inv_def cursor_ok_def commit_xact_def set_in_xact set_not_in_xact)
  moreover have "locks_ok hash p ?w"
    using inv locks_ok_end by (simp add: fence_inv_def commit_xact_def)
  ultimately show ?thesis using inv ids_ok_subset [of w ?w] by (simp add: fence_inv_def commit_xact_def)
qed

lemma fence_inv_rollback: "fence_inv hash name p w \<Longrightarrow> fence_inv hash name p (rollback_xact t w)"
proof -
  assume inv: "fence_inv hash name p w"
  let ?w = "rollback_xact t w"
  have "rows_of ?w \<subseteq> rows_of w"
    by (auto simp: rows_of_def rollback_xact_def set_not_in_xact)
  moreover have "cursor_ok name ?w"
    using inv by (auto simp: fence_inv_def cursor_ok_def rollback_xact_def set_not_in_xact)
  moreover have "locks_ok hash p ?w"
    using inv locks_ok_end [of hash p w t "fw_db w"] by (simp add: fence_inv_def rollback_xact_def)
  ultimately show ?thesis using inv ids_ok_subset [of w ?w] by (simp add: fence_inv_def rollback_xact_def)
qed

lemma fence_inv_lock: "fence_inv hash name p w \<Longrightarrow> poll_lock hash p name w = Some w' \<Longrightarrow> fence_inv hash name p w'"
proof -
  assume inv: "fence_inv hash name p w" and s: "poll_lock hash p name w = Some w'"
  from s obtain l where l: "xact_lock p (hash (outbox_fence_lock_key name)) (fw_locks w) = Some l"
    and w': "w' = w\<lparr>fw_locks := l\<rparr>" by (auto simp: poll_lock_def)
  have "ids_ok w'" using inv ids_ok_subset [of w w'] by (simp add: fence_inv_def rows_of_def w')
  moreover have "locks_ok hash p w'"
    using inv adv.fenced_write_lock [OF _ l] by (simp add: fence_inv_def locks_ok_def w' adv.write_lock_readers [OF l])
  moreover have "cursor_ok name w'" using inv by (simp add: fence_inv_def cursor_ok_def w')
  ultimately show ?thesis by (simp add: fence_inv_def)
qed

lemma fence_inv_other: "fence_inv hash name p w \<Longrightarrow> only_deletes (fw_db w) db' \<Longrightarrow> fence_inv hash name p (w\<lparr>fw_db := db'\<rparr>)"
proof -
  assume inv: "fence_inv hash name p w" and d: "only_deletes (fw_db w) db'"
  have "rows_of (w\<lparr>fw_db := db'\<rparr>) \<subseteq> rows_of w" "next_id db' = next_id (fw_db w)"
    "set (outbox_messages db') \<subseteq> set (outbox_messages (fw_db w))"
    using d by (auto simp: only_deletes_def rows_of_def)
  then show ?thesis using inv ids_ok_subset [of w "w\<lparr>fw_db := db'\<rparr>"]
    by (auto simp: fence_inv_def locks_ok_def cursor_ok_def)
qed

text \<open>The two programs build the same key, so the poller's lock excludes every pending row of the outbox.\<close>

lemma same_key: "outbox_fence_lock_key name = lock_outbox_key name"
  by (simp add: outbox_fence_lock_key_def lock_outbox_key_def)

lemma nothing_pending:
  assumes "locks_ok hash p w" "holds_exclusive (fw_locks w) (hash (outbox_fence_lock_key name)) p"
    and "(t, r) \<in> set (fw_pending w)"
  shows "row_outbox r \<noteq> name"
proof
  assume "row_outbox r = name"
  with assms have "holds_shared (fw_locks w) (hash (outbox_fence_lock_key name)) t" "t \<noteq> p" "adv.fenced (fw_locks w)"
    unfolding same_key by (auto simp: locks_ok_def)
  with adv.fenced_alone [OF _ assms(2)] show False by blast
qed

lemma fence_inv_read:
  assumes inv: "fence_inv hash name p w" and x: "holds_exclusive (fw_locks w) (hash (outbox_fence_lock_key name)) p"
  shows "fence_inv hash name p (poll_read env p name n w)"
proof -
  let ?w = "poll_read env p name n w"
  have parts: "locks_ok hash p w" "ids_ok w" "cursor_ok name w" using inv by (simp_all add: fence_inv_def)
  have same: "fw_db ?w = fw_db w" "fw_pending ?w = fw_pending w" "fw_locks ?w = end_xact p (fw_locks w)"
    by (simp_all add: poll_read_def Let_def split: sum.splits)
  have none: "row_outbox r \<noteq> name" if "(t, r) \<in> set (fw_pending w)" for t r
    using nothing_pending [OF parts(1) x that] .
  have "locks_ok hash p ?w"
    using parts(1) by (auto simp: locks_ok_def same adv.fenced_release adv.release_readers)
  moreover have "ids_ok ?w \<and> cursor_ok name ?w"
  proof (cases "fenced_native_rows env name (fw_cursor w) n (fw_db w)")
    case (Inl e)
    then have "fw_cursor ?w = fw_cursor w" "fw_read ?w = fw_read w" by (simp_all add: poll_read_def)
    with parts(2,3) show ?thesis by (simp add: ids_ok_def cursor_ok_def rows_of_def same)
  next
    case (Inr rows)
    have rows: "rows = take (nat n) (rows_after name (fw_cursor w) (fw_db w))"
      using fenced_native_rows_Inr [OF Inr] by simp
    have after: "fw_cursor ?w = (if rows = [] then fw_cursor w else row_id (last rows))" "fw_read ?w = fw_read w \<union> set rows"
      by (simp_all add: poll_read_def Inr)
    have sub: "set rows \<subseteq> set (outbox_messages (fw_db w))"
      using set_take_subset [of "nat n" "rows_after name (fw_cursor w) (fw_db w)"] by (auto simp: rows)
    have "row_id (last rows) < next_id (fw_db w)" if "rows \<noteq> []"
    proof -
      have "last rows \<in> rows_of w" using sub last_in_set [OF that] by (auto simp: rows_of_def)
      with parts(2) show ?thesis by (simp add: ids_ok_def)
    qed
    then have "ids_ok ?w" using parts(2) by (simp add: ids_ok_def rows_of_def same after)
    moreover have "r \<in> fw_read ?w" if r: "r \<in> set (outbox_messages (fw_db w))" "row_outbox r = name" "row_id r \<le> fw_cursor ?w" for r
    proof (cases "row_id r \<le> fw_cursor w")
      case True
      then show ?thesis using parts(3) r by (simp add: cursor_ok_def after)
    next
      case False
      with r(3) have ne: "rows \<noteq> []" "row_id r \<le> row_id (last rows)" by (auto simp: after split: if_splits)
      have "\<exists>q \<in> set rows. row_id q = row_id r"
        unfolding rows using r False ne by (intro rows_after_prefix [OF last_in_set]) (simp_all add: rows)
      then obtain q where q: "q \<in> set rows" "row_id q = row_id r" by blast
      have "inj_on row_id (rows_of w)" "q \<in> rows_of w" "r \<in> rows_of w"
        using parts(2) sub q(1) r(1) by (auto simp: ids_ok_def rows_of_def)
      with q(2) have "q = r" by (simp add: inj_on_eq_iff)
      with q(1) show ?thesis by (simp add: after)
    qed
    ultimately show ?thesis using none by (auto simp: cursor_ok_def same)
  qed
  ultimately show ?thesis by (simp add: fence_inv_def)
qed

lemma fence_inv_reachable: "fence_reachable hash name p w \<Longrightarrow> fence_inv hash name p w"
proof (induction rule: fence_reachable.induct)
  case (start w)
  then show ?case by (rule fence_inv_start)
next
  case (step w w')
  from step.hyps(2) step.IH show ?case
    by cases (auto intro: fence_inv_publish fence_inv_commit fence_inv_rollback fence_inv_lock fence_inv_read fence_inv_other)
qed

text \<open>
  C4: However publishing transactions and polls interleave, commit out of order or roll back, the poller
  passes no row over: every committed row of its outbox at or below its cursor has been read, and every
  row still uncommitted will get a place above the cursor.
\<close>

theorem fence_passes_no_row:
  assumes "fence_reachable hash name p w"
  shows "(\<forall>r \<in> set (outbox_messages (fw_db w)). row_outbox r = name \<longrightarrow> row_id r \<le> fw_cursor w \<longrightarrow> r \<in> fw_read w)
    \<and> (\<forall>(t, r) \<in> set (fw_pending w). row_outbox r = name \<longrightarrow> fw_cursor w < row_id r)"
  using fence_inv_reachable [OF assms] by (simp add: fence_inv_def cursor_ok_def)

end
