(* ===== verification/Demo_Run.thy ===== *)
theory Demo_Run
  imports Tide_System Fence
begin

text \<open>
  A concrete deployment that the witnesses of the properties evaluate: an outbox \<open>orders\<close>
  delivered by the pipeline \<open>orders-inbox\<close> of the relay group \<open>relay-a\<close> to an inbox.  One row is
  published by a superuser, a worker is started and one iteration is run; the facts at the end
  are the states these steps reach, computed by the simplifier.
\<close>

definition demo_document :: json where
  "demo_document = JObj [(''source_type'', JStr ''outbox''), (''source'', JObj [(''outbox'', JStr ''orders'')]),
     (''sink_type'', JStr ''inbox''), (''sink'', JObj [(''inbox'', JStr ''billing'')])]"

definition demo_pipeline :: pipeline_config where
  "demo_pipeline = \<lparr> pc_name = ''orders-inbox'', pc_direction = Forward, pc_enabled = True,
     pc_config = demo_document, pc_tenant = ''default'' \<rparr>"

definition demo_cfg :: worker_config where
  "demo_cfg = \<lparr> wc_pipeline = demo_pipeline, wc_group = ''relay-a'', wc_batch_size = 100,
     wc_poll_interval = 1000, wc_max_backoff = 60000, wc_max_inflight = 0, wc_dry_run = False,
     wc_dlq = dlq_config_default, wc_limiter = build_rate_limiter demo_document, wc_wire = Native,
     wc_replay = None, wc_receipt_outbox = ''orders'', wc_sink_name = ''inbox'' \<rparr>"

definition demo_db :: tide_db where
  "demo_db = empty_db\<lparr>outbox_configs := [(''orders'', \<lparr> oc_enabled = True, oc_retention_hours = 24,
       oc_inline_threshold = 10000, oc_partition_strategy = ''none'' \<rparr>)],
     relay_configs := [(''orders-inbox'', \<lparr> rc_enabled = True, rc_config = demo_document, rc_tenant = ''default'' \<rparr>)]\<rparr>"

definition demo_auth :: auth_env where
  "demo_auth = \<lparr> session_user = Some ''postgres'', rolsuper = \<lambda>_. Some True, extension_owner = \<lambda>_. True,
     role_exists = \<lambda>_. True, has_role = \<lambda>_ _. Some True \<rparr>"

definition demo_senv :: source_env where
  "demo_senv = \<lparr> se_begin = None, se_lock = None, se_query = None, se_commit = None, se_offset = None,
     se_failpoint = \<lambda>_. None, lo_get = \<lambda>_. Inl negative_limit, parse_bytes = \<lambda>_. Inl ''none'',
     poll_outbox = \<lambda>_ _ _ _ db. Inr ([], db), se_now = 0 \<rparr>"

definition demo_env :: "pg_error option iter_env" where
  "demo_env = \<lparr> ie_source = demo_senv, ie_stop = False, ie_stop_sleep = False, ie_clock = (0, 0),
     ie_publish = None, ie_dlq = \<lparr> f_begin = None, f_insert = \<lambda>_. None, f_rollback = None, f_commit = None \<rparr>,
     ie_encode = \<lambda>_. Inr ''{}'', ie_jitter = 0, ie_receipts = None \<rparr>"

definition demo_source :: outbox_source where
  "demo_source = \<lparr> s_outbox = ''orders'', s_template = ''{outbox}.{op}'', s_group = ''relay-a'',
     s_pipeline = ''orders-inbox'', s_worker = ''w1'', s_consumer = None, s_last_offset = 0,
     s_pending = [], s_replay = False \<rparr>"

definition demo_sink :: inbox_sink where
  "demo_sink = \<lparr> is_name = ''billing'', is_relation = ''tide.billing_inbox'', is_dedup = 0, is_table = [] \<rparr>"

definition demo_row :: outbox_row where
  "demo_row = \<lparr> row_id = 1, row_outbox = ''orders'', row_payload = JInt 42, row_headers = JObj [], row_created_at = 5 \<rparr>"

definition demo_published :: tide_db where
  "demo_published = demo_db\<lparr>outbox_messages := [demo_row], next_id := 2,
     notifications := [(''tide_outbox_new'', ''orders'')]\<rparr>"

definition demo_start :: "inbox_sink system" where
  "demo_start = \<lparr> sy_world = start_world demo_cfg demo_source demo_db demo_sink, sy_running = False,
     sy_flight = None, sy_history = [] \<rparr>"

definition demo_world :: "inbox_sink world" where
  "demo_world = start_world demo_cfg demo_source demo_published demo_sink"

lemma demo_publish:
  "outbox_publish (\<lambda>_. None) demo_auth 5 ''orders'' (JInt 42) (JObj []) demo_db = Inr demo_published"
  by code_simp

lemma demo_native: "native_pipeline demo_cfg ''orders''"
  by code_simp

lemma demo_build_source: "build_source None ''w1'' demo_pipeline ''relay-a'' demo_published = Inr demo_source"
  by code_simp

definition demo_message :: relay_message where
  "demo_message = hd (stamp_native ''orders'' demo_row
     (into_messages \<lparr> b_outbox_id = 1, b_refresh_id = None, b_full_refresh = False, b_inserted = [JInt 42], b_deleted = [] \<rparr>
        ''outbox_orders'' ''{outbox}.{op}''))"

lemma demo_poll:
  "poll_and_decode demo_senv 100 None demo_source demo_published =
     (demo_source, demo_published, PollBatch [demo_message] (Some demo_message))"
  by code_simp

lemma demo_limits: "validate_publish_limits (\<lambda>_. Inr ''{}'') demo_pipeline [demo_message] = Inr ()"
proof -
  have "require_str demo_pipeline [''sink_type''] = Inr ''inbox''" by code_simp
  then show ?thesis
    by (simp add: validate_publish_limits_def sink_descriptor_cases inbox_connector_def u64_max_def)
qed

lemma demo_key: "dedup_key demo_message = ''outbox_orders:1:0'' \<and> ack_token demo_message = OutboxOffset 1"
  by code_simp

lemma demo_id: "outbox_id demo_message = Some 1"
  by code_simp

lemma demo_insert: "insert_new (map inbox_row_of [demo_message]) [] = (1, [inbox_row_of demo_message])"
  by code_simp


lemma demo_publish_step:
  "publish_inbox None [demo_message] demo_sink = (demo_sink\<lparr>is_table := [inbox_row_of demo_message]\<rparr>, Inr ())"
  by (simp add: publish_inbox_def demo_insert demo_sink_def del: list.map)

definition demo_breaker :: circuit_breaker where
  "demo_breaker = cb_from_pipeline_config demo_document"

definition demo_done :: "inbox_sink world" where
  "demo_done = demo_world\<lparr>w_sink := demo_sink\<lparr>is_table := [inbox_row_of demo_message]\<rparr>,
     w_source := demo_source\<lparr>s_last_offset := 1\<rparr>,
     w_db := demo_published\<lparr>relay_offsets := [\<lparr> ro_group = ''relay-a'', ro_pipeline = ''orders-inbox'',
        ro_outbox = ''orders'', last_change_id = 1, ro_worker = ''w1'', ro_tenant = ''default'' \<rparr>]\<rparr>,
     w_receipts := [\<lparr> rt_pipeline = ''orders-inbox'', rt_outbox = ''orders'', rt_message_id = 1,
        rt_dedup_key = ''outbox_orders:1:0'', rt_sink = ''inbox'', rt_tenant = ''default'' \<rparr>]\<rparr>"

lemma demo_breaker_publish:
  "publish_with_circuit_breaker publish_inbox None (0, 0) [demo_message] demo_sink (w_breaker demo_world) =
     (demo_sink\<lparr>is_table := [inbox_row_of demo_message]\<rparr>, w_breaker demo_world, PublishOk)"
proof -
  have "cb_enabled (cb_config (w_breaker demo_world)) = False" by code_simp
  then show ?thesis
    by (simp add: publish_with_circuit_breaker_def should_allow_def record_success_def demo_publish_step)
qed

lemma demo_acknowledge:
  "acknowledge demo_senv demo_message demo_source demo_published = (w_source demo_done, w_db demo_done, Inr [])"
  using demo_key by (simp add: acknowledge_def update_simple_offset_def demo_source_def demo_senv_def demo_done_def
    demo_published_def demo_db_def empty_db_def offset_key_def hit_def)

lemma demo_env_simps [simp]:
  "ie_source demo_env = demo_senv" "ie_stop demo_env = False" "ie_clock demo_env = (0, 0)"
  "ie_publish demo_env = None" "ie_encode demo_env = (\<lambda>_. Inr ''{}'')" "ie_receipts demo_env = None"
  "se_failpoint demo_senv = (\<lambda>_. None)" "hit (\<lambda>_. None) n = Inr ()"
  by (simp_all add: demo_env_def demo_senv_def hit_def)

lemma demo_cfg_simps [simp]:
  "wc_pipeline demo_cfg = demo_pipeline" "wc_group demo_cfg = ''relay-a''" "wc_batch_size demo_cfg = 100"
  "wc_replay demo_cfg = None" "wc_dry_run demo_cfg = False" "wc_poll_interval demo_cfg = 1000"
  "wc_dlq demo_cfg = dlq_config_default" "wc_receipt_outbox demo_cfg = ''orders''"
  "wc_sink_name demo_cfg = ''inbox''" "pc_name demo_pipeline = ''orders-inbox''" "pc_tenant demo_pipeline = ''default''"
  by (simp_all add: demo_cfg_def demo_pipeline_def)

lemma demo_world_simps [simp]:
  "w_db demo_world = demo_published" "w_sink demo_world = demo_sink" "w_source demo_world = demo_source"
  "w_failures demo_world = 0" "w_receipts demo_world = []" "w_healthy demo_world = True" "w_backoff demo_world = 1000"
  by (simp_all add: demo_world_def start_world_def)

lemma demo_iteration:
  "iteration publish_inbox demo_cfg demo_env demo_world =
     (demo_done, [StPolled, StEncoded, StPublishStarted, StSinkAcknowledged, StCheckpointCommitted], LoopAgain 0)"
proof -
  have k: "dedup_key demo_message = ''outbox_orders:1:0''" "outbox_id demo_message = Some 1"
    using demo_key by (simp_all add: demo_id)
  have poll: "poll_and_decode demo_senv 100 None demo_source demo_published =
     (demo_source, demo_published, PollBatch [demo_message] (Some demo_message))" by (rule demo_poll)
  show ?thesis
    by (simp add: iteration_def poll process_batch_def publish_batch_def demo_limits demo_breaker_publish Let_def
        handle_publish_outcome_def handle_directive_def finish_batch_def commit_checkpoint_def demo_acknowledge
        write_receipts_def k demo_done_def)
qed

section \<open>A publisher against a poller\<close>

text \<open>
  The poller is blocked while transaction 1 is open, and reads the row after its commit.
\<close>

definition fence_empty :: fence_world where
  "fence_empty = \<lparr> fw_db = demo_db, fw_locks = no_locks, fw_pending = [], fw_cursor = 0, fw_read = {} \<rparr>"

definition fence_open :: fence_world where
  "fence_open = \<lparr> fw_db = demo_db\<lparr>next_id := 2\<rparr>, fw_locks = \<lparr> shared_held = [(1, 7)], exclusive_held = [] \<rparr>,
     fw_pending = [(1, demo_row)], fw_cursor = 0, fw_read = {} \<rparr>"

definition fence_locked :: fence_world where
  "fence_locked = \<lparr> fw_db = demo_db\<lparr>next_id := 2, outbox_messages := [demo_row]\<rparr>,
     fw_locks = \<lparr> shared_held = [], exclusive_held = [(0, 7)] \<rparr>, fw_pending = [], fw_cursor = 0, fw_read = {} \<rparr>"

definition fence_done :: fence_world where
  "fence_done = \<lparr> fw_db = demo_db\<lparr>next_id := 2, outbox_messages := [demo_row]\<rparr>,
     fw_locks = no_locks, fw_pending = [], fw_cursor = 1, fw_read = {demo_row} \<rparr>"

lemma fence_publish_demo:
  "publish_in (\<lambda>_. 7) (\<lambda>_. None) demo_auth 5 1 ''orders'' (JInt 42) (JObj []) fence_empty = Some fence_open"
  by (simp add: publish_in_def fence_empty_def fence_open_def demo_publish xact_lock_shared_def no_locks_def
      demo_published_def)

lemma fence_blocked_demo: "poll_lock (\<lambda>_. 7) 0 ''orders'' fence_open = None"
  by (simp add: poll_lock_def fence_open_def xact_lock_def)

lemma fence_lock_demo: "poll_lock (\<lambda>_. 7) 0 ''orders'' (commit_xact 1 fence_open) = Some fence_locked"
  by (simp add: poll_lock_def commit_xact_def fence_open_def fence_locked_def end_xact_def xact_lock_def in_xact_def
      not_in_xact_def demo_db_def empty_db_def)

lemma fence_read_demo: "poll_read demo_senv 0 ''orders'' 100 fence_locked = fence_done"
proof -
  have "rows_after ''orders'' 0 (demo_db\<lparr>next_id := 2, outbox_messages := [demo_row]\<rparr>) = [demo_row]"
    by (simp add: rows_after_def demo_row_def)
  then show ?thesis
    by (simp add: poll_read_def fence_locked_def fence_done_def fenced_native_rows_def demo_senv_def stmt_def end_xact_def
        no_locks_def demo_row_def)
qed

lemma fence_done_reachable: "fence_reachable (\<lambda>_. 7) ''orders'' 0 fence_done"
proof -
  have "fence_reachable (\<lambda>_. 7) ''orders'' 0 fence_empty"
    by (rule fence_reachable.start) (simp add: fence_start_def fence_empty_def demo_db_def empty_db_def)
  moreover have "fence_step (\<lambda>_. 7) ''orders'' 0 fence_empty fence_open"
    by (rule fence_step.publish [OF _ fence_publish_demo]) simp
  moreover have "fence_step (\<lambda>_. 7) ''orders'' 0 fence_open (commit_xact 1 fence_open)"
    by (rule fence_step.commit) simp
  moreover have "fence_step (\<lambda>_. 7) ''orders'' 0 (commit_xact 1 fence_open) fence_locked"
    by (rule fence_step.lock [OF fence_lock_demo])
  moreover have "fence_step (\<lambda>_. 7) ''orders'' 0 fence_locked fence_done"
    using fence_step.read [of fence_locked "\<lambda>_. 7" "''orders''" 0 demo_senv 100] fence_read_demo
    by (simp add: holds_exclusive_def fence_locked_def)
  ultimately show ?thesis by (meson fence_reachable.step)
qed

theorem fence_passes_no_row_witness: "demo_row \<in> fw_read fence_done"
  using fence_passes_no_row [OF fence_done_reachable] by (simp add: fence_done_def demo_row_def)

end
