(* ===== verification/Delivery_Integrity.thy ===== *)
theory Delivery_Integrity
  imports Tide_System
begin

text \<open>
  The other half of delivery: nothing is made up.  For a sink whose items are each made from a
  message of a published batch, every item at the destination comes from a row that was
  published to the outbox, in every interleaving of the system.  The locale extends the sink
  contract; the inbox is its interpretation, for which an item carries the payload of its row.
\<close>

section \<open>The interface\<close>

locale faithful_sink = sink_contract publish holds
  for publish :: "'env \<Rightarrow> relay_message list \<Rightarrow> 's \<Rightarrow> 's \<times> (relay_error + unit)"
    and holds :: "'s \<Rightarrow> string set" +
  fixes items :: "'s \<Rightarrow> 'x set"
    and made :: "'x \<Rightarrow> relay_message \<Rightarrow> bool"
  assumes publish_made:
    "publish env ms s = (s', r) \<Longrightarrow> x \<in> items s' \<Longrightarrow> x \<in> items s \<or> (\<exists>m \<in> set ms. made x m)"

definition from_history :: "string \<Rightarrow> outbox_row list \<Rightarrow> relay_message \<Rightarrow> bool" where
  "from_history ob hist m \<longleftrightarrow> (\<exists>h \<in> set hist. message_of ob h m)"

definition integrity ::
    "('s \<Rightarrow> 'x set) \<Rightarrow> ('x \<Rightarrow> relay_message \<Rightarrow> bool) \<Rightarrow> string \<Rightarrow> 's system \<Rightarrow> bool" where
  "integrity items made ob s \<longleftrightarrow>
     (\<forall>x \<in> items (w_sink (sy_world s)). \<exists>m. from_history ob (sy_history s) m \<and> made x m)
   \<and> (\<forall>r \<in> set (outbox_messages (w_db (sy_world s))). row_outbox r = ob \<longrightarrow> r \<in> set (sy_history s))
   \<and> (\<forall>ms cp. sy_flight s = Some (ms, cp) \<longrightarrow> (\<forall>m \<in> set ms. from_history ob (sy_history s) m))"

section \<open>The worker hands the sink nothing but its batch\<close>

lemma finish_batch_sink: "finish_batch env cp w = (w', st, r) \<Longrightarrow> w_sink w' = w_sink w"
  by (auto simp: finish_batch_def split: prod.splits)

lemma flight_ack:
  assumes "flight_ok holds cfg ob w hist ms cp"
  shows "\<exists>off. cp = Some (last ms) \<and> ack_token (last ms) = OutboxOffset off \<and> ms \<noteq> []"
proof -
  obtain rows where r: "rows \<noteq> []" "list_all2 (message_of ob) rows ms" "cp = Some (last ms)"
    using assms unfolding flight_ok_def by blast
  then have ne: "ms \<noteq> []" by auto
  with r(1,2) have "message_of ob (last rows) (last ms)" by (simp add: last_conv_nth list_all2_conv_all_nth)
  with r(3) ne show ?thesis by (simp add: message_of_def)
qed

lemma handle_directive_sink: "handle_directive cfg env ms cp out d w = (w', st, r) \<Longrightarrow> w_sink w' = w_sink w"
  by (auto simp: handle_directive_def Let_def split: worker_directive.splits sum.splits prod.splits dlq_outcome.splits
      publish_outcome.splits dest!: finish_batch_sink)

lemma polled_from_table:
  assumes "s_consumer src = None" and "poll_and_decode env n None src db = (src', db', PollBatch ms cp)" and "m \<in> set ms"
  shows "\<exists>r \<in> set (outbox_messages db). row_outbox r = s_outbox src \<and> message_of (s_outbox src) r m"
proof -
  have "list_all2 (message_of (s_outbox src)) (polled_rows n src db) ms"
    using poll_simple(3) [OF assms(1) poll_and_decode_batch(1) [OF assms(2)]] .
  then obtain r where r: "r \<in> set (polled_rows n src db)" "message_of (s_outbox src) r m"
    using assms(3) by (metis in_set_conv_nth list_all2_conv_all_nth)
  from r(1) have "r \<in> set (rows_after (s_outbox src) (s_last_offset src) db)"
    unfolding polled_rows_def by (rule in_set_takeD)
  with r(2) show ?thesis by auto
qed

text \<open>
  Whatever a step of the worker does, the sink afterwards is the sink before or the result of one
  publish of the batch.
\<close>

lemma breaker_sink:
  assumes "publish_with_circuit_breaker publish env clock ms s cb = (s', cb', out)"
  shows "s' = s \<or> s' = fst (publish env ms s)"
  using assms by (auto simp: publish_with_circuit_breaker_def Let_def split: prod.splits if_splits sum.splits)

lemma publish_batch_sink:
  assumes "publish_batch publish cfg env ms cp w = (w', st, r)"
  shows "w_sink w' = w_sink w \<or> w_sink w' = fst (publish (ie_publish env) ms (w_sink w))"
proof (cases "validate_publish_limits (ie_encode env) (wc_pipeline cfg) ms")
  case (Inl e)
  with assms handle_directive_sink show ?thesis
    unfolding publish_batch_def Let_def by (fastforce split: prod.splits)
next
  case (Inr u)
  obtain s1 cb1 out where b:
    "publish_with_circuit_breaker publish (ie_publish env) (ie_clock env) ms (w_sink w) (w_breaker w) = (s1, cb1, out)"
    by (rule prod_cases3)
  with assms Inr handle_directive_sink have "w_sink w' = s1"
    unfolding publish_batch_def Let_def by (fastforce split: prod.splits)
  with breaker_sink [OF b] show ?thesis by simp
qed

lemma process_batch_sink:
  assumes "process_batch publish cfg env ms cp w = (w', st, r)"
  shows "w_sink w' = w_sink w \<or> w_sink w' = fst (publish (ie_publish env) ms (w_sink w))"
proof -
  obtain w1 st1 r1 where b: "publish_batch publish cfg env ms cp w = (w1, st1, r1)" by (rule prod_cases3)
  obtain w2 st2 r2 where f: "finish_batch env cp w = (w2, st2, r2)" by (rule prod_cases3)
  have "w' \<in> {w, w1, w2}"
    using assms unfolding process_batch_def Let_def b f by (simp split: sum.splits if_splits)
  then show ?thesis using finish_batch_sink [OF f] publish_batch_sink [OF b] by auto
qed

lemma iteration_sink:
  assumes "wc_replay cfg = None" and it: "iteration publish cfg env w = (w', st, r)"
  shows "w_sink w' = w_sink w \<or>
    (\<exists>src db ms cp. poll_and_decode (ie_source env) (wc_batch_size cfg) None (w_source w) (w_db w) = (src, db, PollBatch ms cp)
       \<and> w_sink w' = fst (publish (ie_publish env) ms (w_sink w)))"
proof (rule disjCI)
  assume chg: "\<not> (\<exists>src db ms cp. poll_and_decode (ie_source env) (wc_batch_size cfg) None (w_source w) (w_db w) = (src, db, PollBatch ms cp)
       \<and> w_sink w' = fst (publish (ie_publish env) ms (w_sink w)))"
  obtain src db out where p:
    "poll_and_decode (ie_source env) (wc_batch_size cfg) None (w_source w) (w_db w) = (src, db, out)"
    by (rule prod_cases3)
  show "w_sink w' = w_sink w"
  proof (cases "ie_stop env")
    case True
    with it show ?thesis by (simp add: iteration_def)
  next
    case False
    show ?thesis
    proof (cases out)
      case (PollBatch ms cp)
      then have "process_batch publish cfg env ms cp (w\<lparr>w_source := src, w_db := db, w_backoff := wc_poll_interval cfg\<rparr>) = (w', st, r)"
        using it False p assms(1) by (simp add: iteration_def)
      from process_batch_sink [OF this] chg p PollBatch show ?thesis by auto
    qed (use it False p assms(1) in \<open>auto simp: iteration_def Let_def split: if_splits\<close>)
  qed
qed

context faithful_sink
begin

lemma fst_publish_made: "x \<in> items (fst (publish env ms s)) \<Longrightarrow> x \<in> items s \<or> (\<exists>m \<in> set ms. made x m)"
  by (rule publish_made [OF surjective_pairing])

lemma process_batch_made:
  assumes "process_batch publish cfg env ms cp w = (w', st, r)" and "x \<in> items (w_sink w')"
  shows "x \<in> items (w_sink w) \<or> (\<exists>m \<in> set ms. made x m)"
  using process_batch_sink [OF assms(1)] assms(2) fst_publish_made by metis

lemma iteration_made:
  assumes l: "live (w_source w)" and "wc_replay cfg = None"
    and it: "iteration publish cfg env w = (w', st, r)" and x: "x \<in> items (w_sink w')"
  shows "x \<in> items (w_sink w) \<or>
    (\<exists>m q. q \<in> set (outbox_messages (w_db w)) \<and> row_outbox q = s_outbox (w_source w)
       \<and> message_of (s_outbox (w_source w)) q m \<and> made x m)"
  using iteration_sink [OF assms(2) it]
proof (elim disjE exE conjE)
  assume "w_sink w' = w_sink w"
  with x show ?thesis by simp
next
  fix src db ms cp
  assume p: "poll_and_decode (ie_source env) (wc_batch_size cfg) None (w_source w) (w_db w) = (src, db, PollBatch ms cp)"
    and "w_sink w' = fst (publish (ie_publish env) ms (w_sink w))"
  with x fst_publish_made have "x \<in> items (w_sink w) \<or> (\<exists>m \<in> set ms. made x m)" by metis
  with polled_from_table [OF _ p] l show ?thesis unfolding live_def by blast
qed

section \<open>The invariant\<close>

lemma integrity_step:
  assumes inv: "sys_inv holds cfg ob s" and nat: "native_pipeline cfg ob" and "sys_step publish cfg ob s s'"
    and int: "integrity items made ob s"
  shows "integrity items made ob s'"
  using assms(3)
proof cases
  case (publish_row f env now name pl hs db')
  from outbox_publish_Inr(3) [OF publish_row(2)] int show ?thesis
    unfolding publish_row(1) integrity_def from_history_def by auto blast+
next
  case (sweep f locked now name n dry res db')
  from sweep_one_effect(1) [OF sweep(2)] int show ?thesis
    unfolding sweep(1) integrity_def by auto
next
  case (poll_batch senv src db' ms cp)
  have "wc_replay cfg = None" using nat by (simp add: native_pipeline_def)
  note p = poll_batch(4) [unfolded this]
  from inv poll_batch(2) have l: "live (w_source (sy_world s))" and name: "s_outbox (w_source (sy_world s)) = ob"
    by (simp_all add: sys_inv_def source_ok_def source_key_def pipeline_key_def)
  have db: "db' = w_db (sy_world s)"
    using poll_simple(1) [OF _ poll_and_decode_batch(1) [OF p]] l by (simp add: live_def)
  have "\<forall>m \<in> set ms. from_history ob (sy_history s) m"
    using polled_from_table [OF _ p] l name int unfolding live_def integrity_def from_history_def by blast
  with int db show ?thesis unfolding poll_batch(1) integrity_def by simp
next
  case (process ms cp env w' st r)
  have "outbox_messages (w_db w') = outbox_messages (w_db (sy_world s))"
  proof -
    from inv process(3) have fo: "flight_ok holds cfg ob (sy_world s) (sy_history s) ms cp" by (simp add: sys_inv_def)
    from inv process(2) have l: "live (w_source (sy_world s))" by (simp add: sys_inv_def source_ok_def)
    from flight_ack [OF fo] obtain off where ack: "cp = Some (last ms)" "ack_token (last ms) = OutboxOffset off" "ms \<noteq> []"
      by blast
    have dry: "\<not> wc_dry_run cfg" using nat by (simp add: native_pipeline_def)
    from process_batch_effect [OF l ack(2,3) dry process(4) [unfolded ack(1)] keeps_refl unmoved_refl]
    show ?thesis using keeps_db(1) by (auto simp: batch_effect_def)
  qed
  moreover have "\<exists>m. from_history ob (sy_history s) m \<and> made x m" if "x \<in> items (w_sink w')" for x
    using process_batch_made [OF process(4) that] int process(3) unfolding integrity_def by blast
  ultimately show ?thesis using int unfolding process(1) integrity_def by simp
next
  case (iterate env w' st r)
  from inv iterate(2) have l: "live (w_source (sy_world s))" and name: "s_outbox (w_source (sy_world s)) = ob"
    by (simp_all add: sys_inv_def source_ok_def source_key_def pipeline_key_def)
  have c: "\<not> wc_dry_run cfg" "wc_replay cfg = None" using nat by (simp_all add: native_pipeline_def)
  have "outbox_messages (w_db w') = outbox_messages (w_db (sy_world s))"
    using iteration_effect [OF l c iterate(4)] keeps_db(1) by (auto simp: iteration_safe_def)
  moreover have "\<exists>m. from_history ob (sy_history s) m \<and> made x m" if "x \<in> items (w_sink w')" for x
    using iteration_made [OF l c(2) iterate(4) that] int name unfolding integrity_def from_history_def by blast
  ultimately show ?thesis using int unfolding iterate(1) integrity_def by simp
next
  case crash
  with int show ?thesis by (simp add: integrity_def)
next
  case (restart worker src)
  with int show ?thesis by (simp add: integrity_def start_world_def)
qed

lemma integrity_reach:
  assumes "sys_reach publish cfg ob s0 s" and nat: "native_pipeline cfg ob"
    and "sys_inv holds cfg ob s0" and "integrity items made ob s0"
  shows "integrity items made ob s"
  using assms(1,3,4)
proof induction
  case (reach_step s s')
  with inv_reach [OF reach_step.hyps(1) nat] integrity_step [OF _ nat] show ?case by blast
qed

end

section \<open>Invariants of the destination\<close>

text \<open>What every publish keeps of the sink's state, every run of the system keeps.\<close>

locale stable_sink =
  fixes publish :: "'env \<Rightarrow> relay_message list \<Rightarrow> 's \<Rightarrow> 's \<times> (relay_error + unit)"
    and stable :: "'s \<Rightarrow> bool"
  assumes publish_stable: "publish env ms s = (s', r) \<Longrightarrow> stable s \<Longrightarrow> stable s'"
begin

lemma stable_step:
  assumes "native_pipeline cfg ob" and "sys_step publish cfg ob s s'" and "stable (w_sink (sy_world s))"
  shows "stable (w_sink (sy_world s'))"
proof -
  have p: "stable (fst (publish env ms s))" if "stable s" for env ms s
    using publish_stable [OF surjective_pairing that] .
  have "wc_replay cfg = None" using assms(1) by (simp add: native_pipeline_def)
  note it = iteration_sink [OF \<open>wc_replay cfg = None\<close>]
  from assms(2) show ?thesis
  proof cases
    case (process ms cp env w' st r)
    with p assms(3) process_batch_sink [OF process(4)] show ?thesis by auto
  next
    case (iterate env w' st r)
    with p assms(3) it [OF iterate(4)] show ?thesis by auto
  qed (use assms(3) in \<open>simp_all add: start_world_def\<close>)
qed

lemma stable_reach:
  "sys_reach publish cfg ob s0 s \<Longrightarrow> native_pipeline cfg ob \<Longrightarrow> stable (w_sink (sy_world s0)) \<Longrightarrow> stable (w_sink (sy_world s))"
  by (induction rule: sys_reach.induct) (auto intro: stable_step)

end

section \<open>The inbox\<close>

interpretation inbox_distinct: stable_sink publish_inbox "\<lambda>s. distinct (map ib_event_id (is_table s))"
proof
  fix env ms s s' r
  assume p: "publish_inbox env ms s = (s', r)" and d: "distinct (map ib_event_id (is_table s))"
  obtain n t' where i: "insert_new (map inbox_row_of ms) (is_table s) = (n, t')" by fastforce
  from publish_inbox_cases [OF p] insert_new_distinct [OF i d] d i show "distinct (map ib_event_id (is_table s'))" by auto
qed


lemma insert_new_items: "insert_new rs t = (n, t') \<Longrightarrow> x \<in> set t' \<Longrightarrow> x \<in> set t \<or> x \<in> set rs"
  by (induction rs arbitrary: t n) (fastforce simp: Let_def split: if_splits prod.splits)+

interpretation inbox_items: faithful_sink publish_inbox inbox_holds "\<lambda>s. set (is_table s)" "\<lambda>x m. x = inbox_row_of m"
proof
  fix env ms s s' r x
  assume p: "publish_inbox env ms s = (s', r)" and x: "x \<in> set (is_table s')"
  from publish_inbox_cases [OF p] show "x \<in> set (is_table s) \<or> (\<exists>m \<in> set ms. x = inbox_row_of m)"
  proof
    assume "s' = s \<and> (ms = [] \<or> r \<noteq> Inr ())"
    with x show ?thesis by simp
  next
    assume t: "r = Inr () \<and> is_table s' = snd (insert_new (map inbox_row_of ms) (is_table s))"
    obtain n t' where i: "insert_new (map inbox_row_of ms) (is_table s) = (n, t')" by fastforce
    with insert_new_items [OF i] t x show ?thesis by auto
  qed
qed

end
