(* ===== verification/Worker_Liveness.thy ===== *)
theory Worker_Liveness
  imports Worker_Safety
begin

text \<open>
  Progress: when nothing fails, iterations of the worker deliver what is pending, one batch each,
  until nothing is.  The measure is the number of rows of the outbox above the cursor.
\<close>

section \<open>What a clean iteration meets\<close>

definition clean_source :: "source_env \<Rightarrow> bool" where
  "clean_source env \<longleftrightarrow> se_begin env = None \<and> se_lock env = None \<and> se_query env = None \<and> se_commit env = None
     \<and> se_offset env = None \<and> se_failpoint env = (\<lambda>_. None)"

definition fault_free ::
    "('env \<Rightarrow> relay_message list \<Rightarrow> 's \<Rightarrow> 's \<times> (relay_error + unit)) \<Rightarrow> worker_config \<Rightarrow> 'env iter_env \<Rightarrow> bool" where
  "fault_free publish cfg env \<longleftrightarrow>
     \<not> ie_stop env \<and> \<not> ie_stop_sleep env \<and> clean_source (ie_source env)
   \<and> (\<forall>ms s. snd (publish (ie_publish env) ms s) = Inr ())
   \<and> (\<forall>ms. length ms \<le> nat (wc_batch_size cfg) \<longrightarrow> validate_publish_limits (ie_encode env) (wc_pipeline cfg) ms = Inr ())"

definition pending :: "'s world \<Rightarrow> outbox_row list" where
  "pending w = rows_after (s_outbox (w_source w)) (s_last_offset (w_source w)) (w_db w)"

text \<open>A live worker with its breaker off over rows that are whole (no claim checks).\<close>

definition deliverable :: "worker_config \<Rightarrow> 's world \<Rightarrow> bool" where
  "deliverable cfg w \<longleftrightarrow>
     live (w_source w) \<and> 0 < wc_batch_size cfg \<and> wc_replay cfg = None \<and> \<not> wc_dry_run cfg
   \<and> \<not> cb_enabled (cb_config (w_breaker w))
   \<and> distinct (map row_id (outbox_messages (w_db w)))
   \<and> (\<forall>r \<in> set (outbox_messages (w_db w)). 0 \<le> row_id r \<and> \<not> is_claim_check (row_payload r))"

lemma decode_plain_rows:
  "\<forall>row \<in> set rows. \<not> is_claim_check (row_payload row) \<Longrightarrow>
     \<exists>q ms. decode_native_rows env name t rows p = (q, Inr ms)"
proof (induction rows arbitrary: p)
  case (Cons row rows)
  obtain b where b: "decode_payload env (row_payload row) (row_id row) = Inr b"
    using decode_payload_plain [of "row_payload row" env "row_id row"] Cons.prems by auto
  obtain q ms where "decode_native_rows env name t rows (p @ pending_oid (row_payload row)) = (q, Inr ms)"
    using Cons by (metis list.set_intros(2))
  with b show ?case by (simp add: Let_def)
qed simp

lemma clean_poll:
  assumes "s_consumer s = None" and "clean_source env" and "0 < n"
    and "\<forall>r \<in> set (polled_rows n s db). \<not> is_claim_check (row_payload r)"
  shows "\<exists>q ms. poll env n s db = (s\<lparr>s_pending := q\<rparr>, db, Inr ms) \<and> list_all2 (message_of (s_outbox s)) (polled_rows n s db) ms"
proof -
  have f: "fenced_native_rows env (s_outbox s) (s_last_offset s) n db = Inr (polled_rows n s db)"
    using assms(2,3) by (simp add: fenced_native_rows_def clean_source_def stmt_def polled_rows_def)
  obtain q ms where "decode_native_rows env (s_outbox s) (s_template s) (polled_rows n s db) [] = (q, Inr ms)"
    using decode_plain_rows [OF assms(4)] by blast
  with f assms(1) have p: "poll env n s db = (s\<lparr>s_pending := q\<rparr>, db, Inr ms)"
    by (simp add: poll_def poll_simple_native_def)
  with poll_simple(3) [OF assms(1) p] show ?thesis by auto
qed

lemma clean_acknowledge:
  assumes "live s" and "clean_source env" and "ack_token m = OutboxOffset off" and "0 \<le> off"
  shows "\<exists>db' oids. acknowledge env m s db = (s\<lparr>s_last_offset := max (s_last_offset s) off, s_pending := []\<rparr>, db', Inr oids)
     \<and> advanced off s db (s\<lparr>s_last_offset := max (s_last_offset s) off, s_pending := []\<rparr>) db' \<and> db' = db\<lparr>relay_offsets := relay_offsets db'\<rparr>"
proof -
  obtain db' r where u: "update_simple_offset env (s_group s) (s_pipeline s) (s_outbox s) off (s_worker s) db = (db', r)"
    by fastforce
  from update_simple_offset_ok [OF u] assms(2,4) have "r = Inr ()"
    by (auto simp: clean_source_def hit_def)
  with u assms(1,3) have a: "acknowledge env m s db = (s\<lparr>s_last_offset := max (s_last_offset s) off, s_pending := []\<rparr>, db', Inr (s_pending s))"
    by (simp add: acknowledge_def live_def)
  have l: "s_consumer s = None" "\<not> s_replay s" using assms(1) by (simp_all add: live_def)
  from acknowledge_live [OF l assms(3) a] a show ?thesis by (auto simp: checkpoint_effect_def)
qed

lemma pending_after:
  assumes "distinct (map row_id (outbox_messages db))" and "rows = take k (rows_after name off db)" and "rows \<noteq> []"
  shows "length (rows_after name (row_id (last rows)) db) + length rows \<le> length (rows_after name off db)"
proof -
  have d: "distinct (rows_after name o' db)" for o'
    using assms(1) by (auto simp: rows_after_def distinct_map)
  have sorted: "sorted (map row_id rows)"
    using sorted_rows_after [of name off db] assms(2) by (metis sorted_wrt_take take_map)
  then have le: "row_id r \<le> row_id (last rows)" if "r \<in> set rows" for r
    using that assms(3) sorted_last_ge [of "map row_id rows"] by (auto simp: last_map)
  have "last rows \<in> set (rows_after name off db)" using assms(2,3) by (metis in_set_takeD last_in_set)
  then have off: "off < row_id (last rows)" by simp
  have sub: "set rows \<subseteq> set (rows_after name off db)" using assms(2) by (auto dest: in_set_takeD simp del: set_rows_after)
  have "set (rows_after name (row_id (last rows)) db) \<inter> set rows = {}" using le by fastforce
  moreover have "set (rows_after name (row_id (last rows)) db) \<union> set rows \<subseteq> set (rows_after name off db)"
    using off sub by auto
  moreover have "distinct rows" using d assms(2) by (simp add: distinct_take)
  ultimately have "length (rows_after name (row_id (last rows)) db) + length rows =
      card (set (rows_after name (row_id (last rows)) db) \<union> set rows)"
    using d by (simp add: card_Un_disjoint distinct_card del: set_rows_after)
  also have "\<dots> \<le> card (set (rows_after name off db))"
    using \<open>set (rows_after name (row_id (last rows)) db) \<union> set rows \<subseteq> set (rows_after name off db)\<close>
    by (intro card_mono) (simp_all only: finite_set)
  finally show ?thesis using d by (simp only: distinct_card)
qed

section \<open>One clean iteration\<close>

lemma deliverable_update:
  assumes "deliverable cfg w" and "w_db w' = (w_db w)\<lparr>relay_offsets := offs\<rparr>"
    and "w_source w' = (w_source w)\<lparr>s_last_offset := k, s_pending := q\<rparr>" and "w_breaker w' = w_breaker w"
  shows "deliverable cfg w'"
  using assms by (simp add: deliverable_def live_def)

context sink_contract
begin

lemma clean_publish_batch:
  assumes d: "deliverable cfg w" and ff: "fault_free publish cfg env"
    and n: "length ms \<le> nat (wc_batch_size cfg)"
    and ack: "ack_token (last ms) = OutboxOffset off" "0 \<le> off"
  shows "\<exists>w' st offs. publish_batch publish cfg env ms (Some (last ms)) w = (w', st, LoopAgain 0)
    \<and> w_db w' = (w_db w)\<lparr>relay_offsets := offs\<rparr>
    \<and> w_source w' = (w_source w)\<lparr>s_last_offset := max (s_last_offset (w_source w)) off, s_pending := []\<rparr>
    \<and> advanced off (w_source w) (w_db w) (w_source w') (w_db w')
    \<and> w_breaker w' = w_breaker w \<and> dedup_key ` set ms \<subseteq> holds (w_sink w') \<and> holds (w_sink w) \<subseteq> holds (w_sink w')"
proof -
  obtain s1 r1 where p: "publish (ie_publish env) ms (w_sink w) = (s1, r1)" by fastforce
  with ff have "r1 = Inr ()" unfolding fault_free_def by (metis snd_conv)
  with p have p: "publish (ie_publish env) ms (w_sink w) = (s1, Inr ())" by simp
  have off_breaker: "\<not> cb_enabled (cb_config (w_breaker w))" and l: "live (w_source w)"
    using d by (simp_all add: deliverable_def)
  have b: "publish_with_circuit_breaker publish (ie_publish env) (ie_clock env) ms (w_sink w) (w_breaker w)
      = (s1, w_breaker w, PublishOk)"
    using off_breaker p by (simp add: publish_with_circuit_breaker_def should_allow_def record_success_def)
  have lim: "validate_publish_limits (ie_encode env) (wc_pipeline cfg) ms = Inr ()"
    and cs: "clean_source (ie_source env)" using ff n by (simp_all add: fault_free_def)
  from clean_acknowledge [OF l cs ack, of "w_db w"] obtain db' oids where
    a: "acknowledge (ie_source env) (last ms) (w_source w) (w_db w) =
         ((w_source w)\<lparr>s_last_offset := max (s_last_offset (w_source w)) off, s_pending := []\<rparr>, db', Inr oids)"
      "advanced off (w_source w) (w_db w) ((w_source w)\<lparr>s_last_offset := max (s_last_offset (w_source w)) off, s_pending := []\<rparr>) db'"
      "db' = (w_db w)\<lparr>relay_offsets := relay_offsets db'\<rparr>" by blast
  have h: "hit (se_failpoint (ie_source env)) x = Inr ()" for x using cs by (simp add: clean_source_def hit_def)
  let ?w1 = "w\<lparr>w_sink := s1, w_breaker := w_breaker w, w_failures := 0\<rparr>"
  let ?w2 = "?w1\<lparr>w_source := (w_source w)\<lparr>s_last_offset := max (s_last_offset (w_source w)) off, s_pending := []\<rparr>, w_db := db'\<rparr>"
  have f: "finish_batch env (Some (last ms)) ?w1 = (?w2, [StCheckpointCommitted], Inr ())"
    using a(1) by (simp add: finish_batch_def commit_checkpoint_def h)
  have "publish_batch publish cfg env ms (Some (last ms)) w =
      (?w2\<lparr>w_healthy := True, w_receipts := write_receipts cfg (ie_receipts env) ms (w_receipts ?w2)\<rparr>,
       [StPublishStarted, StSinkAcknowledged, StCheckpointCommitted], LoopAgain 0)"
    using f by (simp add: publish_batch_def lim b handle_publish_outcome_def handle_directive_def h)
  moreover have "dedup_key ` set ms \<subseteq> holds s1" "holds (w_sink w) \<subseteq> holds s1"
    using publish_ok [OF p] publish_keeps [OF p] .
  ultimately show ?thesis using a(2,3) by (intro exI conjI) (assumption | simp)+
qed

text \<open>
  A clean iteration settles the whole polled batch and leaves at most the rest pending; with
  nothing pending it changes nothing that matters.
\<close>

lemma clean_iteration:
  assumes d: "deliverable cfg w" and ff: "fault_free publish cfg env"
  shows "\<exists>w' st k. iteration publish cfg env w = (w', st, LoopAgain k) \<and> deliverable cfg w'
    \<and> s_outbox (w_source w') = s_outbox (w_source w)
    \<and> length (pending w') \<le> length (pending w) - nat (wc_batch_size cfg)
    \<and> set (pending w) \<subseteq> set (pending w') \<union> {r. row_key (s_outbox (w_source w)) (row_id r) \<in> holds (w_sink w')}
    \<and> holds (w_sink w) \<subseteq> holds (w_sink w')"
proof -
  let ?n = "wc_batch_size cfg" and ?s = "w_source w" and ?name = "s_outbox (w_source w)"
  define rows where "rows = polled_rows ?n ?s (w_db w)"
  have l: "live ?s" and n: "0 < ?n" and c: "wc_replay cfg = None" "\<not> wc_dry_run cfg"
    using d by (simp_all add: deliverable_def)
  have cs: "clean_source (ie_source env)" and st: "\<not> ie_stop env" "\<not> ie_stop_sleep env"
    using ff by (simp_all add: fault_free_def)
  have rows_in: "set rows \<subseteq> set (rows_after ?name (s_last_offset ?s) (w_db w))"
    unfolding rows_def polled_rows_def by (auto dest: in_set_takeD simp del: set_rows_after)
  then have plain: "\<forall>r \<in> set rows. \<not> is_claim_check (row_payload r) \<and> 0 \<le> row_id r"
    using d by (auto simp: deliverable_def)
  obtain q ms where poll: "poll (ie_source env) ?n ?s (w_db w) = (?s\<lparr>s_pending := q\<rparr>, w_db w, Inr ms)"
    and ms: "list_all2 (message_of ?name) rows ms"
    using clean_poll [OF l [unfolded live_def, THEN conjunct1] cs n, of "w_db w"] plain unfolding rows_def by blast
  have len: "length ms = length rows" "length rows \<le> nat ?n"
    using list_all2_lengthD [OF ms] by (simp_all add: rows_def polled_rows_def)
  show ?thesis
  proof (cases "rows = []")
    case True
    then have "pending w = []" using n by (simp add: rows_def polled_rows_def pending_def)
    let ?w1 = "w\<lparr>w_source := ?s\<lparr>s_pending := q\<rparr>, w_backoff := wc_poll_interval cfg\<rparr>"
    have "iteration publish cfg env w = (?w1, [], LoopAgain (wc_poll_interval cfg))"
      using True len poll c st by (simp add: iteration_def poll_and_decode_def after_sleep_def)
    moreover have "deliverable cfg ?w1" using d by (simp add: deliverable_def live_def)
    moreover have "pending ?w1 = []" using \<open>pending w = []\<close> by (simp add: pending_def)
    ultimately show ?thesis using \<open>pending w = []\<close> by (intro exI conjI) (assumption | simp)+
  next
    case False
    with len have ne: "ms \<noteq> []" by auto
    have "message_of ?name (last rows) (last ms)"
      using ms False ne by (simp add: last_conv_nth list_all2_conv_all_nth)
    then have ack: "ack_token (last ms) = OutboxOffset (row_id (last rows))" by (simp add: message_of_def)
    have pos: "0 \<le> row_id (last rows)" using plain False by simp
    have up: "s_last_offset ?s < row_id (last rows)" using rows_in False by (auto dest!: subsetD [OF _ last_in_set])
    let ?w1 = "w\<lparr>w_source := ?s\<lparr>s_pending := q\<rparr>, w_backoff := wc_poll_interval cfg\<rparr>"
    have d1: "deliverable cfg ?w1" using d by (simp add: deliverable_def live_def)
    from clean_publish_batch [OF d1 ff _ ack pos] len obtain w' st offs where
      pb: "publish_batch publish cfg env ms (Some (last ms)) ?w1 = (w', st, LoopAgain 0)"
      and db: "w_db w' = (w_db w)\<lparr>relay_offsets := offs\<rparr>"
      and src: "w_source w' = ?s\<lparr>s_last_offset := max (s_last_offset ?s) (row_id (last rows)), s_pending := []\<rparr>"
      and br: "w_breaker w' = w_breaker w" and keys: "dedup_key ` set ms \<subseteq> holds (w_sink w')"
      and mono: "holds (w_sink w) \<subseteq> holds (w_sink w')"
      by auto
    have h: "hit (se_failpoint (ie_source env)) x = Inr ()" for x using cs by (simp add: clean_source_def hit_def)
    have it: "iteration publish cfg env w = (w', StPolled # StEncoded # st, LoopAgain 0)"
      using poll ne c st pb by (simp add: iteration_def poll_and_decode_def process_batch_def h)
    have pw: "pending w' = rows_after ?name (row_id (last rows)) (w_db w)"
      using src db up by (simp add: pending_def rows_after_def max_def)
    have "distinct (map row_id (outbox_messages (w_db w)))" using d by (simp add: deliverable_def)
    from pending_after [OF this rows_def [unfolded polled_rows_def] False]
    have fewer: "length (pending w') + length rows \<le> length (pending w)"
      unfolding pw by (simp only: pending_def)
    have "length rows = min (nat ?n) (length (pending w))" by (simp add: rows_def polled_rows_def pending_def)
    with fewer have "length (pending w') \<le> length (pending w) - nat ?n" by auto
    moreover have "set (pending w) \<subseteq> set (pending w') \<union> {r. row_key ?name (row_id r) \<in> holds (w_sink w')}"
    proof
      fix r
      assume r: "r \<in> set (pending w)"
      have rk: "(\<lambda>r. row_key ?name (row_id r)) ` set rows \<subseteq> holds (w_sink w')" using keys message_keys [OF ms] by simp
      show "r \<in> set (pending w') \<union> {r. row_key ?name (row_id r) \<in> holds (w_sink w')}"
      proof (cases "row_id r \<le> row_id (last rows)")
        case True
        have "\<exists>q \<in> set rows. row_id q = row_id r"
          unfolding rows_def polled_rows_def
          by (rule rows_after_prefix [OF last_in_set]) (use False True r in \<open>simp_all add: rows_def polled_rows_def pending_def\<close>)
        with rk show ?thesis by force
      next
        case False
        with r show ?thesis by (simp add: pw) (simp add: pending_def)
      qed
    qed
    moreover have "deliverable cfg w'" using deliverable_update [OF d db src br] .
    moreover have "s_outbox (w_source w') = ?name" using src by simp
    ultimately show ?thesis using it mono by blast
  qed
qed

lemma clean_loop_drains:
  assumes "deliverable cfg w" and "\<forall>env \<in> set envs. fault_free publish cfg env"
    and "length (pending w) \<le> length envs * nat (wc_batch_size cfg)"
  shows "\<exists>w'. worker_loop publish cfg envs w = (w', LoopAgain 0) \<and> pending w' = []
    \<and> (\<forall>r \<in> set (pending w). row_key (s_outbox (w_source w)) (row_id r) \<in> holds (w_sink w'))
    \<and> holds (w_sink w) \<subseteq> holds (w_sink w')"
  using assms
proof (induction envs arbitrary: w)
  case (Cons e es)
  from clean_iteration [OF Cons.prems(1), of e] Cons.prems(2) obtain w1 st k where
    it: "iteration publish cfg e w = (w1, st, LoopAgain k)" and d1: "deliverable cfg w1"
    and name: "s_outbox (w_source w1) = s_outbox (w_source w)"
    and len: "length (pending w1) \<le> length (pending w) - nat (wc_batch_size cfg)"
    and sub: "set (pending w) \<subseteq> set (pending w1) \<union> {r. row_key (s_outbox (w_source w)) (row_id r) \<in> holds (w_sink w1)}"
    and mono: "holds (w_sink w) \<subseteq> holds (w_sink w1)" by auto
  have "length (pending w1) \<le> length es * nat (wc_batch_size cfg)" using len Cons.prems(3) by simp
  from Cons.IH [OF d1 _ this] Cons.prems(2) obtain w' where
    w': "worker_loop publish cfg es w1 = (w', LoopAgain 0)" "pending w' = []"
      "\<forall>r \<in> set (pending w1). row_key (s_outbox (w_source w1)) (row_id r) \<in> holds (w_sink w')"
      "holds (w_sink w1) \<subseteq> holds (w_sink w')" by auto
  with it name sub mono show ?case by (intro exI [of _ w']) auto
qed simp

end

end
