(* ===== verification/Relay_Catalog.thy ===== *)
theory Relay_Catalog
  imports Outbox
begin

text \<open>
  \<open>pg-tide-ext/src/relay.rs\<close>: the pipelines the relay reads from the database.  Each SQL
  function is one definition over \<open>tide_db\<close>; the tenant grants are a table of their own.  The
  lemmas connect the catalog to the retention sweep: a configured pipeline takes part in the
  retention of its outbox, disabling it keeps its claim on the rows and deleting it gives the
  claim up.
\<close>

section \<open>Checks\<close>

definition relay_exists :: "spi_fate \<Rightarrow> nat \<Rightarrow> string \<Rightarrow> tide_db \<Rightarrow> pg_tide_error + bool" where
  "relay_exists f k name db =
     and_then (spi f k ''relay_exists outbox SPI error: '') (\<lambda>_.
     and_then (spi f (k + 1) ''relay_exists inbox SPI error: '') (\<lambda>_.
       Inr (has_key name (relay_configs db) \<or> has_key name (relay_inbox_configs db))))"

definition supported_sinks :: "string list" where
  "supported_sinks = [''inbox'', ''pg_outbox'', ''nats'', ''kafka'', ''webhook'', ''stdout'', ''file'']"

definition removed_sinks :: "string list" where
  "removed_sinks =
     [''redis'', ''rabbitmq'', ''sqs'', ''kinesis'', ''pubsub'', ''servicebus'', ''eventhubs'', ''mqtt'',
      ''elasticsearch'', ''object-storage'', ''slack'', ''discord'', ''pagerduty'', ''arrow-flight'',
      ''singer'', ''airbyte'', ''clickhouse'', ''mongodb'', ''bigquery'', ''snowflake'', ''delta'',
      ''iceberg'', ''ducklake'', ''rocklake'']"

definition removed_wire_formats :: "string list" where
  "removed_wire_formats = [''debezium'', ''maxwell'', ''canal'', ''cdc_json'']"

definition validate_outbox_surface ::
    "string \<Rightarrow> string option \<Rightarrow> string option \<Rightarrow> string option \<Rightarrow> pg_tide_error + unit" where
  "validate_outbox_surface pipeline source_type sink_type wire_format = checks
     [case source_type of None \<Rightarrow> Inr () | Some st \<Rightarrow>
        if st = ''pg_trickle_outbox''
        then Inl (ExtUnsupportedSurface st (''relay pipeline '' @ quoted pipeline @ '' source'') ''source_type=outbox'')
        else ensure (st = ''outbox'') (InvalidArgument (''relay_set_outbox_v2: unknown source_type '' @ quoted st)),
      case sink_type of None \<Rightarrow> Inr () | Some st \<Rightarrow>
        if st \<in> set removed_sinks
        then Inl (ExtUnsupportedSurface st (''relay pipeline '' @ quoted pipeline @ '' sink'')
                    ''inbox, nats, kafka, webhook, stdout, or file'')
        else ensure (st \<in> set supported_sinks)
               (InvalidArgument (''relay_set_outbox_v2: unknown sink_type '' @ quoted st)),
      case wire_format of None \<Rightarrow> Inr () | Some fmt \<Rightarrow>
        if fmt \<in> set removed_wire_formats
        then Inl (ExtUnsupportedSurface fmt (''relay pipeline '' @ quoted pipeline @ '' wire format'')
                    ''wire_format=native or wire_format=cloudevents'')
        else ensure (fmt \<in> {''native'', ''cloudevents''})
               (InvalidArgument (''relay_set_outbox_v2: unknown wire_format '' @ quoted fmt))]"

section \<open>Configuring a pipeline\<close>

text \<open>\<open>obj[key].as_str().filter(|s| !s.is_empty())\<close>.\<close>

definition required_key :: "json \<Rightarrow> string \<Rightarrow> pg_tide_error + string" where
  "required_key obj key =
     (case as_str (json_index obj key) of
        Some s \<Rightarrow> if s = [] then
            Inl (InvalidArgument (''relay_set_outbox_v2: config must include a non-empty '' @
                   CHR 0x22 # key @ CHR 0x22 # '' key''))
          else Inr s
      | None \<Rightarrow> Inl (InvalidArgument (''relay_set_outbox_v2: config must include a non-empty '' @
                   CHR 0x22 # key @ CHR 0x22 # '' key'')))"

definition check_source_mode :: "json \<Rightarrow> string \<Rightarrow> pg_tide_error + unit" where
  "check_source_mode obj name =
     (case Option.bind (json_get obj ''source_mode'') as_str of
        None \<Rightarrow> Inr ()
      | Some m \<Rightarrow>
          if m = ''pg_trickle''
          then Inl (ExtUnsupportedSurface ''source_mode=pg_trickle''
                      (''relay pipeline '' @ quoted name @ '' source mode'')
                      ''omit source_mode and use the native outbox'')
          else ensure (m = ''native'') (InvalidArgument (''relay_set_outbox_v2: unknown source_mode '' @ quoted m)))"

text \<open>The stored document; serde keeps the keys of an object in byte order.\<close>

definition full_config :: "string \<Rightarrow> string \<Rightarrow> json \<Rightarrow> int \<Rightarrow> string \<Rightarrow> json" where
  "full_config ob sink_type sink_config batch_size wire_format =
     JObj [(''batch_size'', JInt batch_size), (''sink'', sink_config), (''sink_type'', JStr sink_type),
           (''source'', JObj [(''outbox'', JStr ob)]), (''source_type'', JStr ''outbox''),
           (''wire_format'', JStr wire_format)]"

text \<open>\<open>INSERT .. ON CONFLICT (name) DO UPDATE SET enabled, config\<close>: the tenant of a row stays.\<close>

definition upsert_relay :: "string \<Rightarrow> bool \<Rightarrow> json \<Rightarrow> tide_db \<Rightarrow> tide_db" where
  "upsert_relay name enabled config db =
     db\<lparr>relay_configs := map_insert name
          (case map_of (relay_configs db) name of
             None \<Rightarrow> \<lparr> rc_enabled = enabled, rc_config = config, rc_tenant = ''default'' \<rparr>
           | Some c \<Rightarrow> c\<lparr>rc_enabled := enabled, rc_config := config\<rparr>) (relay_configs db)\<rparr>"

definition notify_relay :: "string \<Rightarrow> tide_db \<Rightarrow> tide_db" where
  "notify_relay name db = db\<lparr>notifications := notifications db @ [(''tide_relay_config'', name)]\<rparr>"

definition relay_set_outbox_v2 :: "spi_fate \<Rightarrow> json \<Rightarrow> tide_db \<Rightarrow> pg_tide_error + tide_db" where
  "relay_set_outbox_v2 f obj db =
     and_then (required_key obj ''name'') (\<lambda>name.
     and_then (required_key obj ''outbox'') (\<lambda>ob.
     and_then (required_key obj ''sink_type'') (\<lambda>sink_type.
     and_then (check_source_mode obj name) (\<lambda>_.
       let sink_config = unwrap_or (json_get obj ''config'') (JObj []);
           batch_size = as_i32 (unwrap_or (as_i64 (json_index obj ''batch_size'')) 100);
           enabled = unwrap_or (as_bool (json_index obj ''enabled'')) True;
           wire_format = unwrap_or (Option.bind (json_get obj ''wire_format'') as_str) ''native''
       in
         and_then (ensure (1 \<le> batch_size \<and> batch_size \<le> 10000)
            (InvalidArgument ''relay_set_outbox_v2: batch_size must be between 1 and 10000'')) (\<lambda>_.
         and_then (validate_identifier name) (\<lambda>_.
         and_then (validate_identifier ob) (\<lambda>_.
         and_then (validate_outbox_surface name (Some ''outbox'') (Some sink_type) (Some wire_format)) (\<lambda>_.
         and_then (outbox_exists f 0 ob db) (\<lambda>ex.
         and_then (ensure ex (OutboxNotFound ob)) (\<lambda>_.
         and_then (spi f 1 ''UPSERT relay_outbox_config: '') (\<lambda>_.
         and_then (spi f 2 (''notify relay config '' @ quoted name @ '': '')) (\<lambda>_.
           Inr (notify_relay name
                 (upsert_relay name enabled (full_config ob sink_type sink_config batch_size wire_format) db))))))))))))))"

section \<open>Enable, disable, delete\<close>

definition set_relay_enabled :: "bool \<Rightarrow> string \<Rightarrow> (string \<times> relay_config_row) list \<Rightarrow> (string \<times> relay_config_row) list" where
  "set_relay_enabled b name rs = map (\<lambda>(n, c). (n, if n = name then c\<lparr>rc_enabled := b\<rparr> else c)) rs"

definition update_relay_enabled :: "bool \<Rightarrow> string \<Rightarrow> tide_db \<Rightarrow> tide_db" where
  "update_relay_enabled b name db =
     db\<lparr>relay_configs := set_relay_enabled b name (relay_configs db),
        relay_inbox_configs := set_relay_enabled b name (relay_inbox_configs db)\<rparr>"

definition matching_relays :: "string \<Rightarrow> tide_db \<Rightarrow> nat" where
  "matching_relays name db = length (filter (\<lambda>(n, _). n = name) (relay_configs db))
     + length (filter (\<lambda>(n, _). n = name) (relay_inbox_configs db))"

definition relay_enable :: "spi_fate \<Rightarrow> string \<Rightarrow> tide_db \<Rightarrow> pg_tide_error + bool \<times> tide_db" where
  "relay_enable f name db =
     and_then (relay_exists f 0 name db) (\<lambda>ex.
     and_then (ensure ex (RelayNotFound name)) (\<lambda>_.
     and_then (spi f 2 (''check relay '' @ quoted name @ '' before enable: '')) (\<lambda>_.
     and_then
       (case map_of (relay_configs db) name of
          Some c \<Rightarrow>
            validate_outbox_surface name
              (Option.bind (json_get (rc_config c) ''source_type'') as_str)
              (Option.bind (json_get (rc_config c) ''sink_type'') as_str)
              (Option.bind (json_get (rc_config c) ''wire_format'') as_str)
        | None \<Rightarrow> Inl (ExtUnsupportedSurface ''reverse pipeline'' (''relay pipeline '' @ quoted name @ '' enable'')
                     ''configure a native outbox pipeline with relay_set_outbox_v2'')) (\<lambda>_.
     and_then (spi f 3 (''enable relay '' @ quoted name @ '': '')) (\<lambda>_.
     and_then (ensure (matching_relays name db \<noteq> 0) (RelayNotFound name)) (\<lambda>_.
     and_then (spi f 4 (''notify relay config '' @ quoted name @ '': '')) (\<lambda>_.
       Inr (True, notify_relay name (update_relay_enabled True name db)))))))))"

definition relay_disable :: "spi_fate \<Rightarrow> string \<Rightarrow> tide_db \<Rightarrow> pg_tide_error + bool \<times> tide_db" where
  "relay_disable f name db =
     and_then (relay_exists f 0 name db) (\<lambda>ex.
     and_then (ensure ex (RelayNotFound name)) (\<lambda>_.
     and_then (spi f 2 (''disable relay '' @ quoted name @ '': '')) (\<lambda>_.
     and_then (ensure (matching_relays name db \<noteq> 0) (RelayNotFound name)) (\<lambda>_.
     and_then (spi f 3 (''notify relay config '' @ quoted name @ '': '')) (\<lambda>_.
       Inr (True, notify_relay name (update_relay_enabled False name db)))))))"

definition relay_delete :: "spi_fate \<Rightarrow> string \<Rightarrow> tide_db \<Rightarrow> pg_tide_error + tide_db" where
  "relay_delete f name db =
     and_then (relay_exists f 0 name db) (\<lambda>ex.
     and_then (ensure ex (RelayNotFound name)) (\<lambda>_.
     and_then (spi f 2 (''delete relay '' @ quoted name @ '': '')) (\<lambda>_.
     and_then (ensure (matching_relays name db \<noteq> 0) (RelayNotFound name)) (\<lambda>_.
     and_then (spi f 3 (''notify relay config '' @ quoted name @ '': '')) (\<lambda>_.
       Inr (notify_relay name
             (db\<lparr>relay_configs := map_remove name (relay_configs db),
                 relay_inbox_configs := map_remove name (relay_inbox_configs db)\<rparr>)))))))"

section \<open>Reading the catalog\<close>

definition relay_get_config :: "spi_fate \<Rightarrow> string \<Rightarrow> tide_db \<Rightarrow> pg_tide_error + json" where
  "relay_get_config f name db =
     and_then (spi f 0 (''get outbox relay config '' @ quoted name @ '': '')) (\<lambda>_.
       case map_of (relay_configs db) name of
         Some c \<Rightarrow> Inr (rc_config c)
       | None \<Rightarrow>
           and_then (spi f 1 (''get inbox relay config '' @ quoted name @ '': '')) (\<lambda>_.
             ok_or (map_option rc_config (map_of (relay_inbox_configs db) name)) (RelayNotFound name)))"

definition config_entry :: "string \<Rightarrow> string \<times> relay_config_row \<Rightarrow> json" where
  "config_entry direction nc =
     (case nc of (n, c) \<Rightarrow>
        JObj [(''config'', rc_config c), (''direction'', JStr direction), (''enabled'', JBool (rc_enabled c)),
              (''name'', JStr n)])"

definition relay_list_configs :: "spi_fate \<Rightarrow> tide_db \<Rightarrow> pg_tide_error + json" where
  "relay_list_configs f db =
     and_then (spi f 0 ''list outbox configs: '') (\<lambda>_.
     and_then (spi f 1 ''list inbox configs: '') (\<lambda>_.
       Inr (JArr (map (config_entry ''outbox'') (relay_configs db)
                  @ map (config_entry ''inbox'') (relay_inbox_configs db)))))"

section \<open>Tenants\<close>

definition relay_set_tenant :: "spi_fate \<Rightarrow> string \<Rightarrow> string \<Rightarrow> tide_db \<Rightarrow> pg_tide_error + tide_db" where
  "relay_set_tenant f name tenant db =
     and_then (validate_identifier name) (\<lambda>_.
     and_then (validate_identifier tenant) (\<lambda>_.
     and_then (relay_exists f 0 name db) (\<lambda>ex.
     and_then (ensure ex (RelayNotFound name)) (\<lambda>_.
     and_then (spi f 2 (''set outbox relay tenant '' @ quoted name @ '': '')) (\<lambda>_.
     and_then (spi f 3 (''set inbox relay tenant '' @ quoted name @ '': '')) (\<lambda>_.
     and_then (spi f 4 (''set relay offset tenant '' @ quoted name @ '': '')) (\<lambda>_.
       let retenant = map (\<lambda>(n, c). (n, if n = name then c\<lparr>rc_tenant := tenant\<rparr> else c)) in
       Inr (db\<lparr>relay_configs := retenant (relay_configs db),
               relay_inbox_configs := retenant (relay_inbox_configs db),
               relay_offsets := map (\<lambda>r. if ro_pipeline r = name then r\<lparr>ro_tenant := tenant\<rparr> else r)
                                  (relay_offsets db)\<rparr>))))))))"

type_synonym tenant_grants = "(string \<times> string) list"

definition relay_grant_tenant :: "spi_fate \<Rightarrow> string \<Rightarrow> string \<Rightarrow> tenant_grants \<Rightarrow> pg_tide_error + tenant_grants" where
  "relay_grant_tenant f tenant role gs =
     and_then (validate_identifier tenant) (\<lambda>_.
     and_then (validate_identifier role) (\<lambda>_.
     and_then (spi f 0 ''relay_grant_tenant: '') (\<lambda>_.
       Inr (if (tenant, role) \<in> set gs then gs else gs @ [(tenant, role)]))))"

definition relay_revoke_tenant :: "spi_fate \<Rightarrow> string \<Rightarrow> string \<Rightarrow> tenant_grants \<Rightarrow> pg_tide_error + tenant_grants" where
  "relay_revoke_tenant f tenant role gs =
     and_then (validate_identifier tenant) (\<lambda>_.
     and_then (validate_identifier role) (\<lambda>_.
     and_then (spi f 0 ''relay_revoke_tenant: '') (\<lambda>_.
       Inr (filter (\<lambda>g. g \<noteq> (tenant, role)) gs))))"

section \<open>What the catalog means for retention\<close>

lemma required_key_Inr [result_simps]: "required_key obj k = Inr s \<longleftrightarrow> json_get obj k = Some (JStr s) \<and> s \<noteq> []"
  by (cases "json_get obj k")
    (auto simp: required_key_def json_index_def split: option.splits if_splits)

lemma surface_ok [result_simps]:
  "validate_outbox_surface p (Some st) (Some sk) (Some fmt) = Inr () \<longleftrightarrow>
     st = ''outbox'' \<and> sk \<in> set supported_sinks \<and> fmt \<in> {''native'', ''cloudevents''}"
  by (auto simp: validate_outbox_surface_def checks_Inr_iff ensure_def supported_sinks_def
      removed_sinks_def removed_wire_formats_def)

lemma relay_set_outbox_v2_Inr:
  assumes "relay_set_outbox_v2 f obj db = Inr db'"
  obtains name ob sink_type sink_config n enabled wire_format where
    "json_get obj ''name'' = Some (JStr name)" and "json_get obj ''outbox'' = Some (JStr ob)"
    and "ident_ok name" and "ident_ok ob" and "has_key ob (outbox_configs db)"
    and "sink_type \<in> set supported_sinks" and "wire_format \<in> {''native'', ''cloudevents''}"
    and "n = as_i32 (unwrap_or (as_i64 (json_index obj ''batch_size'')) 100)" and "1 \<le> n" and "n \<le> 10000"
    and "db' = notify_relay name (upsert_relay name enabled (full_config ob sink_type sink_config n wire_format) db)"
proof -
  obtain name ob sink_type where k: "required_key obj ''name'' = Inr name" "required_key obj ''outbox'' = Inr ob"
    "required_key obj ''sink_type'' = Inr sink_type"
    using assms by (auto simp: relay_set_outbox_v2_def and_then_Inr_iff)
  let ?sink_config = "unwrap_or (json_get obj ''config'') (JObj [])"
  let ?n = "as_i32 (unwrap_or (as_i64 (json_index obj ''batch_size'')) 100)"
  let ?enabled = "unwrap_or (as_bool (json_index obj ''enabled'')) True"
  let ?wire = "unwrap_or (Option.bind (json_get obj ''wire_format'') as_str) ''native''"
  have "ident_ok name \<and> ident_ok ob \<and> has_key ob (outbox_configs db)
    \<and> validate_outbox_surface name (Some ''outbox'') (Some sink_type) (Some ?wire) = Inr () \<and> 1 \<le> ?n \<and> ?n \<le> 10000
    \<and> db' = notify_relay name (upsert_relay name ?enabled (full_config ob sink_type ?sink_config ?n ?wire) db)"
    using assms k
    by (auto simp: relay_set_outbox_v2_def outbox_exists_def has_key_def and_then_Inr_iff Let_def
        validate_identifier_iff ensure_def split: if_splits)
  with k show ?thesis
    unfolding required_key_Inr surface_ok by (intro that [of name ob sink_type ?wire ?n ?enabled ?sink_config]) blast+
qed

lemma full_config_names:
  "names_outbox ob c" if "rc_config c = full_config ob sk sc n fmt" for c
  using that by (simp add: names_outbox_def full_config_def)

lemma relay_participants_iff:
  "p \<in> p_name ` set (relay_participants name db) \<longleftrightarrow>
     (\<exists>c. (p, c) \<in> set (relay_configs db) \<and> names_outbox name c)"
  by (force simp: relay_participants_def image_iff)

lemma in_set_map_insert: "(k, v) \<in> set (map_insert k v m)"
  by (induction m) auto

lemma notify_relay_simps [simp]:
  "relay_participants ob (notify_relay name db) = relay_participants ob db"
  "group_participants ob (notify_relay name db) = group_participants ob db"
  "participants ob (notify_relay name db) = participants ob db"
  "relay_configs (notify_relay name db) = relay_configs db"
  by (simp_all add: notify_relay_def participants_def relay_participants_def group_participants_def)

lemma set_outbox_relay_participates:
  assumes "relay_set_outbox_v2 f obj db = Inr db'"
    and "json_get obj ''name'' = Some (JStr name)" and "json_get obj ''outbox'' = Some (JStr ob)"
  shows "name \<in> p_name ` set (relay_participants ob db')"
proof (rule relay_set_outbox_v2_Inr [OF assms(1)])
  fix name' ob' sink_type sink_config n enabled wire_format
  assume "json_get obj ''name'' = Some (JStr name')" and "json_get obj ''outbox'' = Some (JStr ob')"
    and db': "db' = notify_relay name' (upsert_relay name' enabled (full_config ob' sink_type sink_config n wire_format) db)"
  then have eq: "name' = name" "ob' = ob" using assms(2,3) by simp_all
  let ?c = "case map_of (relay_configs db) name of
      None \<Rightarrow> \<lparr> rc_enabled = enabled, rc_config = full_config ob sink_type sink_config n wire_format, rc_tenant = ''default'' \<rparr>
    | Some c \<Rightarrow> c\<lparr>rc_enabled := enabled, rc_config := full_config ob sink_type sink_config n wire_format\<rparr>"
  have "relay_configs db' = map_insert name ?c (relay_configs db)"
    unfolding db' eq by (simp add: upsert_relay_def)
  then have "(name, ?c) \<in> set (relay_configs db')" using in_set_map_insert by metis
  moreover have "names_outbox ob ?c"
    by (rule full_config_names [of _ ob sink_type sink_config n wire_format]) (simp split: option.splits)
  ultimately show ?thesis unfolding relay_participants_iff by blast
qed

text \<open>Enabling or disabling a pipeline leaves every claim on an outbox as it was.\<close>

lemma names_outbox_enabled [simp]: "names_outbox ob (c\<lparr>rc_enabled := b\<rparr>) = names_outbox ob c"
  by (simp add: names_outbox_def)

lemma relay_participants_enabled:
  "map (\<lambda>p. (p_name p, p_safe_offset p)) (relay_participants ob (update_relay_enabled b name db)) =
   map (\<lambda>p. (p_name p, p_safe_offset p)) (relay_participants ob db)"
proof -
  have "map (\<lambda>p. (p_name p, p_safe_offset p)) (map (\<lambda>(n, c). \<lparr> p_name = n, p_enabled = rc_enabled c, p_safe_offset = g n \<rparr>)
          (filter (\<lambda>(n, c). names_outbox ob c) (set_relay_enabled b name rs))) =
        map (\<lambda>p. (p_name p, p_safe_offset p)) (map (\<lambda>(n, c). \<lparr> p_name = n, p_enabled = rc_enabled c, p_safe_offset = g n \<rparr>)
          (filter (\<lambda>(n, c). names_outbox ob c) rs))" for g rs
    by (induction rs) (auto simp: set_relay_enabled_def split: if_splits)
  then show ?thesis by (simp add: relay_participants_def update_relay_enabled_def)
qed

lemma safe_offset_map: "safe_offset ob db = min_opt (map p_safe_offset (participants ob db))"
  by (simp add: safe_offset_def)

lemma group_participants_enabled [simp]:
  "group_participants ob (update_relay_enabled b name db) = group_participants ob db"
  by (simp add: group_participants_def update_relay_enabled_def)

lemma toggle_keeps_claims:
  "map (\<lambda>p. (p_name p, p_safe_offset p)) (participants ob (notify_relay name (update_relay_enabled b name db))) =
   map (\<lambda>p. (p_name p, p_safe_offset p)) (participants ob db)"
  using relay_participants_enabled [of ob b name db] by (simp add: participants_def)

lemma toggle_keeps_safe_offset:
  "safe_offset ob (notify_relay name (update_relay_enabled b name db)) = safe_offset ob db"
proof -
  have "map p_safe_offset xs = map snd (map (\<lambda>p. (p_name p, p_safe_offset p)) xs)" for xs :: "participant list"
    by simp
  then show ?thesis using toggle_keeps_claims [of ob name b db] by (simp only: safe_offset_map)
qed

lemma relay_disable_Inr:
  "relay_disable f name db = Inr (b, db') \<Longrightarrow>
     b \<and> db' = notify_relay name (update_relay_enabled False name db)
   \<and> (has_key name (relay_configs db) \<or> has_key name (relay_inbox_configs db))"
  by (auto simp: relay_disable_def relay_exists_def result_simps and_then_Inr_iff ensure_def split: if_splits)

lemma relay_enable_Inr:
  "relay_enable f name db = Inr (b, db') \<Longrightarrow>
     b \<and> db' = notify_relay name (update_relay_enabled True name db) \<and> has_key name (relay_configs db)"
  by (auto simp: relay_enable_def relay_exists_def has_key_def result_simps and_then_Inr_iff ensure_def
      split: if_splits option.splits)

lemma relay_delete_forgets:
  assumes "relay_delete f name db = Inr db'"
  shows "\<not> has_key name (relay_configs db')"
    and "name \<notin> p_name ` set (relay_participants ob db')"
    and "relay_offsets db' = relay_offsets db"
proof -
  have d: "relay_configs db' = map_remove name (relay_configs db)" "relay_offsets db' = relay_offsets db"
    using assms by (auto simp: relay_delete_def notify_relay_def result_simps and_then_Inr_iff)
  then show "\<not> has_key name (relay_configs db')" "relay_offsets db' = relay_offsets db"
    by (simp_all add: has_key_def)
  show "name \<notin> p_name ` set (relay_participants ob db')"
    using d by (auto simp: relay_participants_iff map_remove_def)
qed

lemma tenant_grant_then_revoke:
  assumes "relay_grant_tenant f t r gs = Inr gs'" and "relay_revoke_tenant g t r gs' = Inr gs''"
  shows "(t, r) \<in> set gs'" and "(t, r) \<notin> set gs''" and "set gs'' = set gs - {(t, r)}"
  using assms
  by (auto simp: relay_grant_tenant_def relay_revoke_tenant_def and_then_Inr_iff result_simps split: if_splits)

section \<open>Properties\<close>

lemma fresh_pipeline_offset:
  assumes "(name, c) \<in> set (relay_configs db)" and "names_outbox ob c"
    and "\<forall>row \<in> set (relay_offsets db). \<not> (ro_pipeline row = name \<and> ro_outbox row = ob)"
    and "m \<in> set (swept_rows locked now ob n dry db)"
  shows "row_id m \<le> 0"
proof -
  obtain q where q: "q \<in> set (participants ob db)" "p_safe_offset q = 0"
    using relay_participant_none [OF assms(1-3)] by blast
  with swept_row_eligible [OF assms(4)] show ?thesis by fastforce
qed


text \<open>
  Disabling and enabling a pipeline changes no retention decision: the safe offset of every outbox,
  the rows and the offsets stay as they were, so rows wait for a paused pipeline.
\<close>

lemma paused_pipeline_keeps_its_rows:
  assumes "relay_disable f name db = Inr (b, db1)" and "relay_enable g name db1 = Inr (b', db2)"
  shows "safe_offset ob db1 = safe_offset ob db \<and> safe_offset ob db2 = safe_offset ob db
    \<and> outbox_messages db2 = outbox_messages db \<and> relay_offsets db2 = relay_offsets db
    \<and> map (\<lambda>(n, c). (n, rc_config c)) (relay_configs db2) = map (\<lambda>(n, c). (n, rc_config c)) (relay_configs db)
    \<and> notifications db2 = notifications db @ [(''tide_relay_config'', name), (''tide_relay_config'', name)]"
proof -
  have d: "db1 = notify_relay name (update_relay_enabled False name db)"
    "db2 = notify_relay name (update_relay_enabled True name db1)"
    using relay_disable_Inr [OF assms(1)] relay_enable_Inr [OF assms(2)] by auto
  have "map (\<lambda>(n, c). (n, rc_config c)) (set_relay_enabled b name rs) = map (\<lambda>(n, c). (n, rc_config c)) rs" for b rs
    by (induction rs) (auto simp: set_relay_enabled_def)
  then show ?thesis
    unfolding d toggle_keeps_safe_offset by (simp add: notify_relay_def update_relay_enabled_def)
qed

text \<open>
  A pipeline may be stored with another batch size than the one asked for: the number is cut to 32
  bits before its range is checked, so the document with 4294967301 is accepted with 5.
\<close>

lemma batch_size_wraps:
  assumes "relay_set_outbox_v2 f obj db = Inr db'" and "json_get obj ''name'' = Some (JStr name)"
    and "json_get obj ''batch_size'' = Some (JInt (n + 2 ^ 32 * k))" and "0 \<le> k" and "k < 2 ^ 31"
    and "0 \<le> n" and "n < 2 ^ 31"
  shows "\<exists>c. map_of (relay_configs db') name = Some c \<and> json_get (rc_config c) ''batch_size'' = Some (JInt n)"
proof -
  have range: "i64_min \<le> n + 2 ^ 32 * k \<and> n + 2 ^ 32 * k \<le> i64_max"
    using assms(4-7) by (auto simp: i64_min_def i64_max_def)
  have cut: "as_i32 (n + 2 ^ 32 * k) = n"
    using assms(6,7) by (rule as_i32_cut)
  show ?thesis
  proof (rule relay_set_outbox_v2_Inr [OF assms(1)])
    fix name' ob sink_type sink_config m enabled wire_format
    assume "json_get obj ''name'' = Some (JStr name')"
      and m: "m = as_i32 (unwrap_or (as_i64 (json_index obj ''batch_size'')) 100)"
      and db': "db' = notify_relay name' (upsert_relay name' enabled (full_config ob sink_type sink_config m wire_format) db)"
    then have "name' = name" using assms(2) by simp
    moreover have "m = n" using m assms(3) range cut by (simp add: json_index_def)
    ultimately show ?thesis
      unfolding db' by (simp add: upsert_relay_def full_config_def split: option.splits)
  qed
qed

definition catalog_demo :: tide_db where
  "catalog_demo = empty_db\<lparr>outbox_configs := [(''orders'', \<lparr> oc_enabled = True, oc_retention_hours = 1,
       oc_inline_threshold = 10000, oc_partition_strategy = ''none'' \<rparr>)],
     outbox_messages := [\<lparr> row_id = 1, row_outbox = ''orders'', row_payload = JNull, row_headers = JNull, row_created_at = 0 \<rparr>]\<rparr>"

definition catalog_request :: "int \<Rightarrow> json" where
  "catalog_request n = JObj [(''name'', JStr ''p''), (''outbox'', JStr ''orders''), (''sink_type'', JStr ''nats''), (''batch_size'', JInt n)]"

lemma catalog_accepts: "is_ok (relay_set_outbox_v2 (\<lambda>_. None) (catalog_request 4294967301) catalog_demo)"
  by code_simp


lemma paused_pipeline_keeps_its_rows_example:
  "\<exists>db1 db2. relay_disable (\<lambda>_. None) ''p'' (catalog_demo\<lparr>relay_configs := [(''p'',
        \<lparr> rc_enabled = True, rc_config = full_config ''orders'' ''nats'' (JObj []) 5 ''native'', rc_tenant = ''default'' \<rparr>)]\<rparr>) = Inr (True, db1)
     \<and> relay_enable (\<lambda>_. None) ''p'' db1 = Inr (True, db2) \<and> outbox_messages db2 = outbox_messages catalog_demo"
proof -
  let ?db = "catalog_demo\<lparr>relay_configs := [(''p'',
        \<lparr> rc_enabled = True, rc_config = full_config ''orders'' ''nats'' (JObj []) 5 ''native'', rc_tenant = ''default'' \<rparr>)]\<rparr>"
  have "is_ok (relay_disable (\<lambda>_. None) ''p'' ?db)"
    "is_ok (and_then (relay_disable (\<lambda>_. None) ''p'' ?db) (\<lambda>(_, db1). relay_enable (\<lambda>_. None) ''p'' db1))" by code_simp+
  then obtain b1 db1 b2 db2 where s: "relay_disable (\<lambda>_. None) ''p'' ?db = Inr (b1, db1)"
    "relay_enable (\<lambda>_. None) ''p'' db1 = Inr (b2, db2)"
    by (auto simp: is_ok_iff and_then_Inr_iff)
  from paused_pipeline_keeps_its_rows [OF s] relay_disable_Inr [OF s(1)] relay_enable_Inr [OF s(2)] s
  show ?thesis by auto
qed

lemma batch_size_wraps_example:
  "\<exists>db1. relay_set_outbox_v2 (\<lambda>_. None) (catalog_request 4294967301) catalog_demo = Inr db1
     \<and> (\<exists>c. map_of (relay_configs db1) ''p'' = Some c \<and> json_get (rc_config c) ''batch_size'' = Some (JInt 5))"
proof -
  obtain db1 where db1: "relay_set_outbox_v2 (\<lambda>_. None) (catalog_request 4294967301) catalog_demo = Inr db1"
    using catalog_accepts by (auto simp: is_ok_iff)
  with batch_size_wraps [OF db1, of "''p''" 5 1] show ?thesis by (simp add: catalog_request_def)
qed

end
