(* ===== verification/Inbox.thy ===== *)
theory Inbox
  imports Sinks
begin

text \<open>
  \<open>pg-tide-ext/src/inbox.rs\<close>: the idempotent inbox.  An inbox is a configuration row and a
  table named after it, whose name PostgreSQL cuts at 63 bytes; the relay's inbox sink
  inserts into the same table.  The lemmas: no sequence of deliveries, marks and replays
  duplicates an event or makes a processed one pending again; the relation names of inboxes
  the relay accepts are distinct, while the extension accepts names whose tables coincide.
\<close>

record inbox_config_row =
  ic_schema :: string
  ic_max_retries :: int
  ic_processed_retention_hours :: int
  ic_dlq_retention_hours :: int

record stored_message = inbox_row +
  im_processed_at :: "int option"
  im_retry_count :: int
  im_last_error :: "string option"

type_synonym relation = "string \<times> string"

record inbox_db =
  inbox_configs :: "(string \<times> inbox_config_row) list"
  inbox_tables :: "(relation \<times> stored_message list) list"

definition namedatalen :: nat where "namedatalen = 63"

definition inbox_relation :: "string \<Rightarrow> string \<Rightarrow> relation" where
  "inbox_relation schema name = (take namedatalen schema, take namedatalen (name @ ''_inbox''))"

definition inbox_exists :: "spi_fate \<Rightarrow> nat \<Rightarrow> string \<Rightarrow> inbox_db \<Rightarrow> pg_tide_error + bool" where
  "inbox_exists f k name d =
     and_then (spi f k ''inbox_exists SPI error: '') (\<lambda>_. Inr (has_key name (inbox_configs d)))"

section \<open>Creating and dropping\<close>

definition create_table :: "relation \<Rightarrow> (relation \<times> stored_message list) list \<Rightarrow> (relation \<times> stored_message list) list" where
  "create_table rel ts = (if map_of ts rel = None then ts @ [(rel, [])] else ts)"

definition inbox_create :: "spi_fate \<Rightarrow> string \<Rightarrow> string \<Rightarrow> int \<Rightarrow> int \<Rightarrow> int \<Rightarrow> inbox_db \<Rightarrow> pg_tide_error + inbox_db" where
  "inbox_create f name schema max_retries processed_hours dlq_hours d =
     and_then (validate_identifier name) (\<lambda>_.
     and_then (validate_identifier schema) (\<lambda>_.
     and_then (inbox_exists f 0 name d) (\<lambda>ex.
     and_then (ensure (\<not> ex) (InboxAlreadyExists name)) (\<lambda>_.
     and_then (spi f 1 ''INSERT tide_inbox_config: '') (\<lambda>_.
     and_then (spi f 2 ''CREATE inbox table: '') (\<lambda>_.
       Inr (d\<lparr>inbox_configs := map_insert name
                  \<lparr> ic_schema = schema, ic_max_retries = max_retries,
                    ic_processed_retention_hours = processed_hours, ic_dlq_retention_hours = dlq_hours \<rparr>
                  (inbox_configs d),
               inbox_tables := create_table (inbox_relation schema name) (inbox_tables d)\<rparr>)))))))"

text \<open>The schema of the inbox, read after the existence check.\<close>

definition with_inbox ::
    "spi_fate \<Rightarrow> string \<Rightarrow> inbox_db \<Rightarrow> (inbox_config_row \<Rightarrow> pg_tide_error + 'a) \<Rightarrow> pg_tide_error + 'a" where
  "with_inbox f name d k =
     and_then (inbox_exists f 0 name d) (\<lambda>_.
       case map_of (inbox_configs d) name of
         None \<Rightarrow> Inl (InboxNotFound name)
       | Some c \<Rightarrow> and_then (spi f 1 (''read inbox schema '' @ quoted name @ '': '')) (\<lambda>_. k c))"

definition inbox_drop :: "spi_fate \<Rightarrow> string \<Rightarrow> bool \<Rightarrow> inbox_db \<Rightarrow> pg_tide_error + inbox_db" where
  "inbox_drop f name if_exists d =
     and_then (inbox_exists f 0 name d) (\<lambda>ex.
       if \<not> ex \<and> if_exists then Inr d
       else with_inbox f name d (\<lambda>c.
         and_then (spi f 2 (''drop inbox table '' @ quoted name @ '': '')) (\<lambda>_.
         and_then (spi f 3 ''DELETE tide_inbox_config: '') (\<lambda>_.
           Inr (d\<lparr>inbox_configs := map_remove name (inbox_configs d),
                   inbox_tables := filter (\<lambda>(rel, _). rel \<noteq> inbox_relation (ic_schema c) name) (inbox_tables d)\<rparr>)))))"

section \<open>Processing state\<close>

definition rows_of :: "inbox_db \<Rightarrow> string \<Rightarrow> inbox_config_row \<Rightarrow> stored_message list" where
  "rows_of d name c = unwrap_or (map_of (inbox_tables d) (inbox_relation (ic_schema c) name)) []"

definition update_rows :: "relation \<Rightarrow> (stored_message \<Rightarrow> stored_message) \<Rightarrow> inbox_db \<Rightarrow> inbox_db" where
  "update_rows rel g d =
     d\<lparr>inbox_tables := map (\<lambda>(r, ms). (r, if r = rel then map g ms else ms)) (inbox_tables d)\<rparr>"

definition pending_row :: "string \<Rightarrow> stored_message \<Rightarrow> bool" where
  "pending_row ev m \<longleftrightarrow> ib_event_id m = ev \<and> im_processed_at m = None"

definition set_processed :: "int \<Rightarrow> string \<Rightarrow> stored_message \<Rightarrow> stored_message" where
  "set_processed now ev m = (if pending_row ev m then m\<lparr>im_processed_at := Some now\<rparr> else m)"

definition set_failed :: "string \<Rightarrow> string \<Rightarrow> stored_message \<Rightarrow> stored_message" where
  "set_failed ev err m =
     (if ib_event_id m = ev then m\<lparr>im_retry_count := im_retry_count m + 1, im_last_error := Some err\<rparr> else m)"

definition set_replayed :: "string \<Rightarrow> stored_message \<Rightarrow> stored_message" where
  "set_replayed ev m =
     (if pending_row ev m then m\<lparr>im_retry_count := 0, im_last_error := None, im_processed_at := None\<rparr> else m)"

definition inbox_mark_processed :: "spi_fate \<Rightarrow> int \<Rightarrow> string \<Rightarrow> string \<Rightarrow> inbox_db \<Rightarrow> pg_tide_error + inbox_db" where
  "inbox_mark_processed f now name ev d =
     with_inbox f name d (\<lambda>c.
     and_then (spi f 2 ''mark_processed: '') (\<lambda>_.
       Inr (update_rows (inbox_relation (ic_schema c) name) (set_processed now ev) d)))"

text \<open>\<open>retry_count\<close> is an \<open>INT\<close>: adding to the largest one is the statement's error.\<close>

definition inbox_mark_failed :: "spi_fate \<Rightarrow> string \<Rightarrow> string \<Rightarrow> string \<Rightarrow> inbox_db \<Rightarrow> pg_tide_error + inbox_db" where
  "inbox_mark_failed f name ev err d =
     with_inbox f name d (\<lambda>c.
     and_then (spi f 2 ''mark_failed: '') (\<lambda>_.
     and_then (ensure (\<not> list_ex (\<lambda>m. ib_event_id m = ev \<and> im_retry_count m = 2 ^ 31 - 1) (rows_of d name c))
                (SpiError ''mark_failed: integer out of range'')) (\<lambda>_.
       Inr (update_rows (inbox_relation (ic_schema c) name) (set_failed ev err) d))))"

fun replay_events :: "spi_fate \<Rightarrow> nat \<Rightarrow> string \<Rightarrow> inbox_config_row \<Rightarrow> string list \<Rightarrow> int \<Rightarrow> inbox_db \<Rightarrow>
    pg_tide_error + int \<times> inbox_db" where
  "replay_events f k name c [] n d = Inr (n, d)"
| "replay_events f k name c (ev # evs) n d =
     and_then (spi f k (''replay inbox event '' @ quoted ev @ '': '')) (\<lambda>_.
       replay_events f (Suc k) name c evs
         (n + int (length (filter (pending_row ev) (rows_of d name c))))
         (update_rows (inbox_relation (ic_schema c) name) (set_replayed ev) d))"

definition replay_inbox_messages :: "spi_fate \<Rightarrow> string \<Rightarrow> string list \<Rightarrow> inbox_db \<Rightarrow> pg_tide_error + int \<times> inbox_db" where
  "replay_inbox_messages f name evs d = with_inbox f name d (\<lambda>c. replay_events f 2 name c evs 0 d)"

section \<open>Status\<close>

definition pending_count :: "stored_message list \<Rightarrow> int" where
  "pending_count ms = int (length (filter (\<lambda>m. im_processed_at m = None) ms))"

definition inbox_status :: "spi_fate \<Rightarrow> string \<Rightarrow> inbox_db \<Rightarrow> pg_tide_error + json" where
  "inbox_status f name d =
     with_inbox f name d (\<lambda>c.
     and_then (spi f 2 (''count pending inbox '' @ quoted name @ '': '')) (\<lambda>_.
     and_then (spi f 3 (''count DLQ inbox '' @ quoted name @ '': '')) (\<lambda>_.
       Inr (JObj [(''dlq_count'', JInt (int (length (filter
                       (\<lambda>m. im_processed_at m = None \<and> ic_max_retries c \<le> im_retry_count m) (rows_of d name c))))),
                  (''inbox_name'', JStr name),
                  (''pending'', JInt (pending_count (rows_of d name c)))]))))"

text \<open>
  The fleet summary: one \<open>UNION ALL\<close> over all tables, in which every apostrophe of a name is
  doubled, in the literal and in the quoted identifiers alike.  \<open>missing\<close> is the server's text
  for a relation that does not exist.
\<close>

definition double_apostrophes :: "string \<Rightarrow> string" where
  "double_apostrophes = str_replace [CHR 0x27] [CHR 0x27, CHR 0x27]"

definition fleet_relation :: "string \<times> inbox_config_row \<Rightarrow> relation" where
  "fleet_relation nc = inbox_relation (double_apostrophes (ic_schema (snd nc))) (double_apostrophes (fst nc))"

fun fleet_counts :: "(relation \<Rightarrow> string) \<Rightarrow> inbox_db \<Rightarrow> (string \<times> inbox_config_row) list \<Rightarrow> string + (string \<times> int) list" where
  "fleet_counts missing d [] = Inr []"
| "fleet_counts missing d (nc # ncs) =
     (case map_of (inbox_tables d) (fleet_relation nc) of
        None \<Rightarrow> Inl (missing (fleet_relation nc))
      | Some ms \<Rightarrow> and_then (fleet_counts missing d ncs) (\<lambda>cs. Inr ((fst nc, pending_count ms) # cs)))"

definition inbox_fleet_status :: "spi_fate \<Rightarrow> (relation \<Rightarrow> string) \<Rightarrow> inbox_db \<Rightarrow> pg_tide_error + json" where
  "inbox_fleet_status f missing d =
     and_then (spi f 0 ''fleet inbox list: '') (\<lambda>_.
       if inbox_configs d = [] then Inr (JObj [(''inboxes'', JArr [])])
       else
         and_then (spi f 1 ''fleet inbox pending counts: '') (\<lambda>_.
         and_then (map_err (\<lambda>e. SpiError (''fleet inbox pending counts: '' @ e))
                     (fleet_counts missing d (inbox_configs d))) (\<lambda>counts.
           Inr (JObj [(''inboxes'', JArr (map (\<lambda>(n, k).
                   JObj [(''inbox_name'', JStr n), (''pending'', JInt k)]) counts))]))))"

section \<open>Delivery by the relay\<close>

text \<open>
  The insert of the relay's inbox sink on the table with all its columns: a new event is
  pending with no retries.
\<close>

definition fresh_message :: "inbox_row \<Rightarrow> stored_message" where
  "fresh_message r = inbox_row.extend r \<lparr> im_processed_at = None, im_retry_count = 0, im_last_error = None \<rparr>"

fun deliver :: "inbox_row list \<Rightarrow> stored_message list \<Rightarrow> stored_message list" where
  "deliver [] t = t"
| "deliver (r # rs) t =
     (if ib_event_id r \<in> ib_event_id ` set t then deliver rs t else deliver rs (t @ [fresh_message r]))"

lemma fresh_message_simps [simp]:
  "ib_event_id (fresh_message r) = ib_event_id r" "im_processed_at (fresh_message r) = None"
  "inbox_row.truncate (fresh_message r) = r"
  by (cases r; simp add: fresh_message_def inbox_row.defs)+

lemma truncate_event [simp]: "ib_event_id (inbox_row.truncate m) = ib_event_id m"
  by (simp add: inbox_row.defs)

text \<open>The sink's insert is this one, seen without the processing columns.\<close>

lemma deliver_refines_insert:
  "map inbox_row.truncate (deliver rs t) = snd (insert_new rs (map inbox_row.truncate t))"
proof (induction rs arbitrary: t)
  case (Cons r rs)
  have "ib_event_id ` set (map inbox_row.truncate t) = ib_event_id ` set t" by (simp add: image_image)
  with Cons [of t] Cons [of "t @ [fresh_message r]"] show ?case
    by (simp add: case_prod_beta Let_def)
qed simp

lemma deliver_distinct: "distinct (map ib_event_id t) \<Longrightarrow> distinct (map ib_event_id (deliver rs t))"
  by (induction rs arbitrary: t) auto

lemma deliver_keeps: "m \<in> set t \<Longrightarrow> m \<in> set (deliver rs t)"
  by (induction rs arbitrary: t) auto

section \<open>The life of an event\<close>

inductive inbox_step :: "stored_message list \<Rightarrow> stored_message list \<Rightarrow> bool" where
  delivered: "inbox_step t (deliver rs t)"
| processed: "inbox_step t (map (set_processed now ev) t)"
| failed: "inbox_step t (map (set_failed ev err) t)"
| replayed: "inbox_step t (map (set_replayed ev) t)"

inductive_cases inbox_stepE: "inbox_step t t'"

lemma marks_event [simp]:
  "ib_event_id (set_processed now ev m) = ib_event_id m" "ib_event_id (set_failed ev err m) = ib_event_id m"
  "ib_event_id (set_replayed ev m) = ib_event_id m"
  by (simp_all add: set_processed_def set_failed_def set_replayed_def)

lemma marks_processed:
  "im_processed_at m = Some t \<Longrightarrow> im_processed_at (set_processed now ev m) = Some t"
  "im_processed_at m = Some t \<Longrightarrow> im_processed_at (set_failed ev err m) = Some t"
  "im_processed_at m = Some t \<Longrightarrow> im_processed_at (set_replayed ev m) = Some t"
  by (simp_all add: set_processed_def set_failed_def set_replayed_def pending_row_def)

definition processed_at :: "string \<Rightarrow> int \<Rightarrow> stored_message list \<Rightarrow> bool" where
  "processed_at ev now t \<longleftrightarrow> list_ex (\<lambda>m. ib_event_id m = ev \<and> im_processed_at m = Some now) t"

lemma step_distinct:
  assumes "inbox_step t t'" and "distinct (map ib_event_id t)"
  shows "distinct (map ib_event_id t')"
  using assms by (elim inbox_stepE) (simp_all add: deliver_distinct comp_def)

lemma processed_at_iff: "processed_at ev now t \<longleftrightarrow> (\<exists>m \<in> set t. ib_event_id m = ev \<and> im_processed_at m = Some now)"
  by (simp add: processed_at_def list_ex_iff)

lemma processed_map:
  assumes "\<And>m. ib_event_id (g m) = ib_event_id m"
    and "\<And>m. im_processed_at m = Some now \<Longrightarrow> im_processed_at (g m) = Some now"
    and "processed_at ev now t"
  shows "processed_at ev now (map g t)"
proof -
  obtain m where m: "m \<in> set t" "ib_event_id m = ev" "im_processed_at m = Some now"
    using assms(3) unfolding processed_at_iff by blast
  then have "g m \<in> set (map g t)" "ib_event_id (g m) = ev" "im_processed_at (g m) = Some now"
    using assms(1,2) by simp_all
  then show ?thesis unfolding processed_at_iff by blast
qed

lemma step_processed:
  assumes "inbox_step t t'" and "processed_at ev now t"
  shows "processed_at ev now t'"
  using assms(1)
proof cases
  case (delivered rs)
  with assms(2) deliver_keeps show ?thesis unfolding processed_at_iff by blast
next
  case (processed n e)
  show ?thesis unfolding processed by (rule processed_map [OF _ _ assms(2)]) (simp_all add: marks_processed)
next
  case (failed e err)
  show ?thesis unfolding failed by (rule processed_map [OF _ _ assms(2)]) (simp_all add: marks_processed)
next
  case (replayed e)
  show ?thesis unfolding replayed by (rule processed_map [OF _ _ assms(2)]) (simp_all add: marks_processed)
qed

lemma steps_distinct: "inbox_step\<^sup>*\<^sup>* t t' \<Longrightarrow> distinct (map ib_event_id t) \<Longrightarrow> distinct (map ib_event_id t')"
  by (induction rule: rtranclp_induct) (auto intro: step_distinct)

lemma steps_processed: "inbox_step\<^sup>*\<^sup>* t t' \<Longrightarrow> processed_at ev now t \<Longrightarrow> processed_at ev now t'"
  by (induction rule: rtranclp_induct) (auto intro: step_processed)

text \<open>The operations of the extension are such steps on the inbox's own table.\<close>

lemma map_of_update [simp]:
  "map_of (inbox_tables (update_rows rel g d)) r =
     (if r = rel then map_option (map g) (map_of (inbox_tables d) r) else map_of (inbox_tables d) r)"
proof -
  have "map_of (map (\<lambda>(r, ms). (r, if r = rel then map g ms else ms)) ts) r =
     (if r = rel then map_option (map g) (map_of ts r) else map_of ts r)" for ts
    by (induction ts) auto
  then show ?thesis by (simp add: update_rows_def)
qed

lemma update_rows_configs [simp]: "inbox_configs (update_rows rel g d) = inbox_configs d"
  by (simp add: update_rows_def)

lemma rows_of_update [simp]:
  "rows_of (update_rows (inbox_relation (ic_schema c) name) g d) name c = map g (rows_of d name c)"
  by (cases "map_of (inbox_tables d) (inbox_relation (ic_schema c) name)") (simp_all add: rows_of_def)

lemma with_inbox_Inr [result_simps]:
  "with_inbox f name d k = Inr x \<longleftrightarrow>
     f 0 = None \<and> f 1 = None \<and> (\<exists>c. map_of (inbox_configs d) name = Some c \<and> k c = Inr x)"
  by (auto simp: with_inbox_def inbox_exists_def and_then_Inr_iff result_simps split: option.splits)

lemma replay_events_spec:
  "replay_events f k name c evs n d = Inr (n', d') \<Longrightarrow>
     n' = n + (\<Sum>ev \<leftarrow> evs. int (length (filter (pending_row ev) (rows_of d name c))))
   \<and> rows_of d' name c = fold (\<lambda>ev. map (set_replayed ev)) evs (rows_of d name c)"
proof (induction evs arbitrary: k n d)
  case (Cons ev evs)
  have same: "filter (pending_row e) (map (set_replayed ev) ms) = map (set_replayed ev) (filter (pending_row e) ms)" for e ms
    by (induction ms) (auto simp: pending_row_def set_replayed_def)
  from Cons.prems have "replay_events f (Suc k) name c evs
      (n + int (length (filter (pending_row ev) (rows_of d name c))))
      (update_rows (inbox_relation (ic_schema c) name) (set_replayed ev) d) = Inr (n', d')"
    by (auto simp: and_then_Inr_iff)
  from Cons.IH [OF this] show ?case by (simp add: same)
qed simp

section \<open>Relation names\<close>

lemma relation_untruncated: "length name \<le> 57 \<Longrightarrow> snd (inbox_relation schema name) = name @ ''_inbox''"
  by (simp add: inbox_relation_def namedatalen_def)

lemma relation_inject:
  assumes "length name \<le> 57" and "length name' \<le> 57"
  shows "inbox_relation schema name = inbox_relation schema name' \<longleftrightarrow> name = name'"
  using assms by (auto simp: inbox_relation_def namedatalen_def)

lemma create_drop:
  assumes "inbox_create f name schema mr pr dr d = Inr d1" and "inbox_drop g name b d1 = Inr d2"
  shows "\<not> has_key name (inbox_configs d2)"
    and "map_of (inbox_tables d2) (inbox_relation schema name) = None"
    and "other \<noteq> inbox_relation schema name \<Longrightarrow> map_of (inbox_tables d2) other = map_of (inbox_tables d) other"
proof -
  let ?rel = "inbox_relation schema name"
  have c: "inbox_configs d1 = map_insert name \<lparr> ic_schema = schema, ic_max_retries = mr,
      ic_processed_retention_hours = pr, ic_dlq_retention_hours = dr \<rparr> (inbox_configs d)"
    "inbox_tables d1 = create_table ?rel (inbox_tables d)"
    using assms(1) by (auto simp: inbox_create_def and_then_Inr_iff)
  then have found: "map_of (inbox_configs d1) name = Some \<lparr> ic_schema = schema, ic_max_retries = mr,
      ic_processed_retention_hours = pr, ic_dlq_retention_hours = dr \<rparr>" by simp
  have "d2 = d1\<lparr>inbox_configs := map_remove name (inbox_configs d1),
      inbox_tables := filter (\<lambda>(rel, _). rel \<noteq> ?rel) (inbox_tables d1)\<rparr>"
    using assms(2) unfolding inbox_drop_def inbox_exists_def has_key_def and_then_Inr_iff
    by (auto simp: found with_inbox_Inr and_then_Inr_iff split: if_splits)
  then have d2: "inbox_configs d2 = map_remove name (inbox_configs d1)"
    "inbox_tables d2 = filter (\<lambda>(rel, _). rel \<noteq> ?rel) (inbox_tables d1)" by simp_all
  show "\<not> has_key name (inbox_configs d2)" by (simp add: d2(1) has_key_def)
  have gone: "map_of (filter (\<lambda>(rel, _). rel \<noteq> ?rel) ts) r = (if r = ?rel then None else map_of ts r)" for ts and r :: relation
    by (induction ts) auto
  show "map_of (inbox_tables d2) ?rel = None" by (simp add: d2(2) gone)
  show "map_of (inbox_tables d2) other = map_of (inbox_tables d) other" if "other \<noteq> ?rel"
    using that by (auto simp: d2(2) gone c(2) create_table_def map_add_def split: option.splits)
qed

section \<open>Properties\<close>

text \<open>
  C24: Whatever deliveries, marks and replays an inbox table goes through, in whatever order, it never
  holds an event twice, and an event once marked processed stays processed with its time: no
  redelivery and no replay makes the consumer see it again.
\<close>

theorem inbox_processes_each_event_once:
  assumes "inbox_step\<^sup>*\<^sup>* t t'" and "distinct (map ib_event_id t)"
  shows "distinct (map ib_event_id t') \<and>
    (\<forall>ev now. processed_at ev now t \<longrightarrow> processed_at ev now t' \<and> filter (pending_row ev) t' = [])"
proof (intro conjI allI impI)
  show d: "distinct (map ib_event_id t')" by (rule steps_distinct [OF assms])
  fix ev now
  assume "processed_at ev now t"
  with steps_processed [OF assms(1)] show p: "processed_at ev now t'" by blast
  then obtain m where m: "m \<in> set t'" "ib_event_id m = ev" "im_processed_at m = Some now"
    unfolding processed_at_iff by blast
  have "m' = m" if "m' \<in> set t'" "ib_event_id m' = ev" for m'
    using d m that unfolding distinct_map inj_on_def by metis
  with m show "filter (pending_row ev) t' = []" by (force simp: filter_empty_conv pending_row_def)
qed

theorem inbox_processes_each_event_once_witness:
  "let r = \<lparr> ib_event_id = ''e'', ib_source = ''s'', ib_payload = JNull, ib_headers = JNull \<rparr>;
       t = map (set_processed 9 ''e'') (deliver [r] []); t' = map (set_replayed ''e'') (deliver [r, r] t)
   in processed_at ''e'' 9 t' \<and> filter (pending_row ''e'') t' = [] \<and> length t' = 1"
proof -
  let ?r = "\<lparr> ib_event_id = ''e'', ib_source = ''s'', ib_payload = JNull, ib_headers = JNull \<rparr>"
  let ?t = "map (set_processed 9 ''e'') (deliver [?r] [])"
  let ?t' = "map (set_replayed ''e'') (deliver [?r, ?r] ?t)"
  have "inbox_step\<^sup>*\<^sup>* ?t ?t'"
    by (meson converse_rtranclp_into_rtranclp inbox_step.delivered inbox_step.replayed rtranclp.rtrancl_refl)
  moreover have "distinct (map ib_event_id ?t)" "processed_at ''e'' 9 ?t"
    by (simp_all add: processed_at_iff set_processed_def pending_row_def)
  ultimately have "processed_at ''e'' 9 ?t' \<and> filter (pending_row ''e'') ?t' = []"
    using inbox_processes_each_event_once by blast
  then show ?thesis by (simp add: Let_def)
qed


text \<open>
  An inbox whose name has 57 to 62 bytes shares its table with the inbox named like that table
  itself, because PostgreSQL cuts relation names at 63 bytes: the extension creates both, and
  dropping the second leaves the first configured without a table.
\<close>

lemma long_inbox_name_collision:
  assumes "57 \<le> length n" and "n2 = take 63 (n @ ''_inbox'')" and "n2 \<noteq> n"
    and "inbox_create f n schema mr pr dr d = Inr d1" and "inbox_create g n2 schema mr2 pr2 dr2 d1 = Inr d2"
    and "inbox_drop h n2 b d2 = Inr d3"
  shows "inbox_relation schema n2 = inbox_relation schema n
    \<and> has_key n (inbox_configs d3) \<and> map_of (inbox_tables d3) (inbox_relation schema n) = None"
proof -
  have same: "inbox_relation schema n2 = inbox_relation schema n"
  proof -
    have "length n2 = 63" using assms(1,2) by simp
    then have "take 63 (n2 @ ''_inbox'') = n2" by (simp del: length_take)
    then show ?thesis unfolding inbox_relation_def namedatalen_def assms(2) [symmetric] by simp
  qed
  have "has_key n (inbox_configs d1)"
    using assms(4) by (auto simp: inbox_create_def and_then_Inr_iff has_key_def)
  moreover have "map_of (inbox_configs d2) n = map_of (inbox_configs d1) n"
    using assms(5) assms(3) by (auto simp: inbox_create_def and_then_Inr_iff)
  moreover have "map_of (inbox_configs d3) n = map_of (inbox_configs d2) n"
    using assms(6) assms(3) by (auto simp: inbox_drop_def inbox_exists_def and_then_Inr_iff with_inbox_Inr split: if_splits)
  ultimately have "has_key n (inbox_configs d3)" by (simp add: has_key_def)
  with same create_drop(2) [OF assms(5,6)] show ?thesis by simp
qed

lemma long_names_created:
  "is_ok (and_then (inbox_create (\<lambda>_. None) (replicate 60 CHR 0x61) ''tide'' 3 72 720 \<lparr> inbox_configs = [], inbox_tables = [] \<rparr>)
     (\<lambda>d1. and_then (inbox_create (\<lambda>_. None) (take 63 (replicate 60 CHR 0x61 @ ''_inbox'')) ''tide'' 3 72 720 d1)
     (\<lambda>d2. inbox_drop (\<lambda>_. None) (take 63 (replicate 60 CHR 0x61 @ ''_inbox'')) False d2)))"
  by code_simp

lemma long_inbox_name_collision_example:
  "\<exists>d3 :: inbox_db. has_key (replicate 60 CHR 0x61) (inbox_configs d3)
     \<and> map_of (inbox_tables d3) (inbox_relation ''tide'' (replicate 60 CHR 0x61)) = None"
proof -
  let ?n = "replicate 60 CHR 0x61"
  obtain d1 d2 d3 where d: "inbox_create (\<lambda>_. None) ?n ''tide'' 3 72 720 \<lparr> inbox_configs = [], inbox_tables = [] \<rparr> = Inr d1"
    "inbox_create (\<lambda>_. None) (take 63 (?n @ ''_inbox'')) ''tide'' 3 72 720 d1 = Inr d2"
    "inbox_drop (\<lambda>_. None) (take 63 (?n @ ''_inbox'')) False d2 = Inr d3"
    using long_names_created by (auto simp only: is_ok_iff and_then_Inr_iff)
  have "length (take 63 (?n @ ''_inbox'')) = 63" by simp
  moreover have "length ?n = 60" by simp
  ultimately have "take 63 (?n @ ''_inbox'') \<noteq> ?n" by (metis numeral_eq_iff semiring_norm(85,88,89,90,91,84,83,86,87))
  moreover have "57 \<le> length ?n" by simp
  ultimately show ?thesis using long_inbox_name_collision [OF _ refl _ d] by blast
qed

end
