(* ===== verification/Secrets.thy ===== *)
theory Secrets
  imports Pipeline_Document
begin

text \<open>
  \<open>pg-tide-relay/src/secret.rs\<close> and the secret part of \<open>config/mod.rs\<close>: parsing and loading of
  secret references, resolution of a pipeline's configuration field by field, masking for the
  log and the expansion of environment variables in the connection string.  The process
  environment, the effective user and the file system are a record of functions.
\<close>

unbundle bit_operations_syntax

section \<open>References and files\<close>

definition max_secret_file_bytes :: nat where "max_secret_file_bytes = 1024 * 1024"

datatype secret_ref = SecEnv string | SecFile string

record file_meta =
  fm_regular :: bool
  fm_len :: nat
  fm_uid :: nat
  fm_mode :: u32
  fm_read :: "string + string"

text \<open>Opening without following a symbolic link and reading the metadata either fail or succeed.\<close>

record process_env =
  env_var :: "string \<Rightarrow> string option"
  open_file :: "string \<Rightarrow> string + file_meta"
  effective_uid :: nat

definition name_char :: "char \<Rightarrow> bool" where
  "name_char c \<longleftrightarrow> is_digit c \<or> (65 \<le> byte c \<and> byte c \<le> 90) \<or> (97 \<le> byte c \<and> byte c \<le> 122) \<or> byte c = 95"

definition valid_name :: "string \<Rightarrow> bool" where
  "valid_name s \<longleftrightarrow> s \<noteq> [] \<and> list_all name_char s"

definition is_absolute :: "string \<Rightarrow> bool" where
  "is_absolute p \<longleftrightarrow> starts_with ''/'' p"

definition parse_file_reference :: "string \<Rightarrow> relay_error + secret_ref" where
  "parse_file_reference s =
     (case Option.bind (strip_prefix ''${file:'' s) (strip_suffix ''}'') of
        Some p \<Rightarrow> if is_absolute p \<and> CHR 0x00 \<notin> set p then Inr (SecFile p)
                  else Inl (InvalidSecretToken s)
      | None \<Rightarrow> Inl (InvalidSecretToken s))"

definition parse_reference :: "string \<Rightarrow> relay_error + secret_ref" where
  "parse_reference s =
     (case Option.bind (case strip_prefix ''${env:'' s of Some r \<Rightarrow> Some r
                        | None \<Rightarrow> strip_prefix ''${ENV:'' s) (strip_suffix ''}'') of
        Some n \<Rightarrow> if valid_name n then Inr (SecEnv n) else parse_file_reference s
      | None \<Rightarrow> parse_file_reference s)"

definition cont :: "char \<Rightarrow> bool" where
  "cont c \<longleftrightarrow> 128 \<le> byte c \<and> byte c \<le> 191"

text \<open>\<open>String::from_utf8\<close>: the well-formed byte sequences of Unicode table 3-7.\<close>

fun utf8_ok :: "string \<Rightarrow> bool" where
  "utf8_ok [] = True"
| "utf8_ok (a # r) =
     (let n = byte a in
      if n < 128 then utf8_ok r
      else if 194 \<le> n \<and> n \<le> 223
      then (case r of b # r' \<Rightarrow> cont b \<and> utf8_ok r' | _ \<Rightarrow> False)
      else if 224 \<le> n \<and> n \<le> 239
      then (case r of b # c # r' \<Rightarrow>
              cont b \<and> cont c \<and> (n = 224 \<longrightarrow> 160 \<le> byte b) \<and> (n = 237 \<longrightarrow> byte b \<le> 159) \<and> utf8_ok r'
            | _ \<Rightarrow> False)
      else if 240 \<le> n \<and> n \<le> 244
      then (case r of b # c # d # r' \<Rightarrow>
              cont b \<and> cont c \<and> cont d \<and> (n = 240 \<longrightarrow> 144 \<le> byte b) \<and> (n = 244 \<longrightarrow> byte b \<le> 143) \<and> utf8_ok r'
            | _ \<Rightarrow> False)
      else False)"

definition trim_end_newlines :: "string \<Rightarrow> string" where
  "trim_end_newlines s = rev (dropWhile (\<lambda>c. c = CHR 0x0D \<or> c = CHR 0x0A) (rev s))"

definition load_file :: "process_env \<Rightarrow> string \<Rightarrow> relay_error + string" where
  "load_file pe path =
     and_then (map_err (SecretReadError path) (open_file pe path)) (\<lambda>m.
     and_then (ensure (fm_regular m \<and> fm_len m \<le> max_secret_file_bytes)
                (SecretReadError path ''not a regular file or exceeds size limit'')) (\<lambda>_.
     and_then (ensure (fm_uid m = effective_uid pe \<and> fm_mode m AND 63 = 0)
                (SecretReadError path ''file ownership or permissions are unsafe'')) (\<lambda>_.
     and_then (map_err (SecretReadError path) (fm_read m)) (\<lambda>bytes.
     let read = take (max_secret_file_bytes + 1) bytes in
     and_then (ensure (length read \<le> max_secret_file_bytes) (SecretReadError path ''file exceeds size limit'')) (\<lambda>_.
     and_then (ensure (utf8_ok read) (SecretReadError path ''file is not UTF-8'')) (\<lambda>_.
       Inr (trim_end_newlines read)))))))"

fun resolve_reference :: "process_env \<Rightarrow> secret_ref \<Rightarrow> relay_error + string" where
  "resolve_reference pe (SecEnv n) = ok_or (env_var pe n) (SecretNotFound (''${env:'' @ n @ ''}''))"
| "resolve_reference pe (SecFile p) = load_file pe p"

definition resolve_secret :: "process_env \<Rightarrow> string \<Rightarrow> relay_error + string" where
  "resolve_secret pe s = and_then (parse_reference s) (resolve_reference pe)"

section \<open>Masking and resolution of a configuration\<close>

definition redacted :: string where "redacted = ''[REDACTED]''"

definition names_secret :: "string \<Rightarrow> bool" where
  "names_secret s \<longleftrightarrow> str_contains ''${env:'' s \<or> str_contains ''${file:'' s"

fun mask_json_secrets :: "json \<Rightarrow> json" where
  "mask_json_secrets (JStr s) = (if names_secret s then JStr redacted else JStr s)"
| "mask_json_secrets (JObj kvs) = JObj (map (\<lambda>kv. (fst kv, mask_json_secrets (snd kv))) kvs)"
| "mask_json_secrets (JArr vs) = JArr (map mask_json_secrets vs)"
| "mask_json_secrets v = v"

datatype field_policy = PolicyNone | PolicyStrict | PolicyEmbedded

definition strict_secret_fields :: "string list" where
  "strict_secret_fields = [''password'', ''token'', ''access_token'', ''auth_token'', ''api_key'',
     ''secret'', ''secret_key'', ''client_secret'', ''private_key'', ''credentials'',
     ''credentials_json'', ''webhook_url'']"

definition embedded_reference_fields :: "string list" where
  "embedded_reference_fields = [''url'', ''endpoint'', ''connection_string'', ''catalog_connection'',
     ''postgres_url'', ''brokers'', ''queue_url'', ''target_url'', ''private_key_path'', ''account'',
     ''project_id'']"

definition policy_of :: "string \<Rightarrow> field_policy" where
  "policy_of name =
     (if to_ascii_lowercase name \<in> set strict_secret_fields then PolicyStrict
      else if to_ascii_lowercase name \<in> set embedded_reference_fields then PolicyEmbedded
      else PolicyNone)"

definition parse_compatible_reference :: "string \<Rightarrow> relay_error + secret_ref" where
  "parse_compatible_reference token =
     (case strip_prefix ''ENV:'' token of
        Some n \<Rightarrow> parse_reference (''${env:'' @ n @ ''}'')
      | None \<Rightarrow> parse_reference (''${'' @ token @ ''}''))"

function resolve_embedded :: "process_env \<Rightarrow> string \<Rightarrow> relay_error + string" where
  "resolve_embedded pe rest =
     (case find_sub ''${'' rest of
        None \<Rightarrow> Inr rest
      | Some (before, after) \<Rightarrow>
          (case find_sub ''}'' after of
             None \<Rightarrow> Inl (InvalidSecretToken ''unterminated secret reference'')
           | Some (token, rest') \<Rightarrow>
               and_then (parse_compatible_reference token) (\<lambda>r.
               and_then (resolve_reference pe r) (\<lambda>v.
               and_then (resolve_embedded pe rest') (\<lambda>tail. Inr (before @ v @ tail))))))"
  by pat_completeness auto
termination
  by (relation "measure (length \<circ> snd)") (auto dest!: find_sub_length)

declare resolve_embedded.simps [simp del]

fun resolve_json :: "process_env \<Rightarrow> json \<Rightarrow> field_policy \<Rightarrow> relay_error + json" where
  "resolve_json pe (JStr s) policy =
     (case policy of
        PolicyStrict \<Rightarrow>
          and_then (map_err (\<lambda>_. InvalidSecretToken ''inline secret values must use an env/file reference'')
                      (parse_reference s)) (\<lambda>r.
          and_then (resolve_reference pe r) (\<lambda>v. Inr (JStr v)))
      | PolicyEmbedded \<Rightarrow> and_then (resolve_embedded pe s) (\<lambda>v. Inr (JStr v))
      | PolicyNone \<Rightarrow>
          if str_contains ''${'' s
          then Inl (InvalidSecretToken ''secret references are only valid in declared secret fields'')
          else Inr (JStr s))"
| "resolve_json pe (JObj kvs) policy =
     and_then (map_result (\<lambda>kv. and_then (resolve_json pe (snd kv) (policy_of (fst kv)))
                                  (\<lambda>v. Inr (fst kv, v))) kvs) (\<lambda>kvs'. Inr (JObj kvs'))"
| "resolve_json pe (JArr vs) policy =
     and_then (map_result (\<lambda>v. resolve_json pe v policy) vs) (\<lambda>vs'. Inr (JArr vs'))"
| "resolve_json pe v policy = Inr v"

definition resolve_pipeline_secrets :: "process_env \<Rightarrow> json \<Rightarrow> relay_error + json" where
  "resolve_pipeline_secrets pe config = resolve_json pe config PolicyNone"

section \<open>Environment variables in the connection string\<close>

function expand_env_vars :: "process_env \<Rightarrow> string \<Rightarrow> string" where
  "expand_env_vars pe rest =
     (case find_sub ''${ENV:'' rest of
        None \<Rightarrow> rest
      | Some (before, after) \<Rightarrow>
          (case find_sub ''}'' after of
             None \<Rightarrow> before @ ''${ENV:'' @ expand_env_vars pe after
           | Some (var, rest') \<Rightarrow>
               before @ (case env_var pe var of Some v \<Rightarrow> v | None \<Rightarrow> ''${ENV:'' @ var @ ''}'')
               @ expand_env_vars pe rest'))"
  by pat_completeness auto
termination
  by (relation "measure (length \<circ> snd)") (auto dest!: find_sub_length)

declare expand_env_vars.simps [simp del]

section \<open>Lemmas\<close>

lemma parse_reference_cases:
  assumes "parse_reference s = Inr r"
  shows "(\<exists>n. r = SecEnv n \<and> valid_name n \<and> (s = ''${env:'' @ n @ ''}'' \<or> s = ''${ENV:'' @ n @ ''}''))
    \<or> (\<exists>p. r = SecFile p \<and> is_absolute p \<and> CHR 0x00 \<notin> set p \<and> s = ''${file:'' @ p @ ''}'')"
proof -
  have f: "\<exists>p. r = SecFile p \<and> is_absolute p \<and> CHR 0x00 \<notin> set p \<and> s = ''${file:'' @ p @ ''}''"
    if "parse_file_reference s = Inr r"
    using that
    by (auto simp: parse_file_reference_def strip_prefix_Some strip_suffix_Some bind_eq_Some_conv
        split: option.splits if_splits)
  show ?thesis
  proof (cases "Option.bind (case strip_prefix ''${env:'' s of Some r \<Rightarrow> Some r
                        | None \<Rightarrow> strip_prefix ''${ENV:'' s) (strip_suffix ''}'')")
    case None
    with assms f show ?thesis by (simp add: parse_reference_def)
  next
    case (Some n)
    then have "s = ''${env:'' @ n @ ''}'' \<or> s = ''${ENV:'' @ n @ ''}''"
      by (auto simp: bind_eq_Some_conv strip_prefix_Some strip_suffix_Some split: option.splits)
    with Some assms f show ?thesis by (auto simp: parse_reference_def split: if_splits)
  qed
qed

text \<open>A file secret is read only from a private regular file of the process's own user.\<close>

lemma load_file_ok:
  assumes "load_file pe path = Inr v"
  shows "\<exists>m bytes. open_file pe path = Inr m \<and> fm_regular m \<and> fm_len m \<le> max_secret_file_bytes
    \<and> fm_uid m = effective_uid pe \<and> fm_mode m AND 63 = 0 \<and> fm_read m = Inr bytes
    \<and> length bytes \<le> max_secret_file_bytes \<and> v = trim_end_newlines bytes"
  using assms by (auto simp: load_file_def and_then_Inr_iff Let_def)

fun json_strings :: "json \<Rightarrow> string list" where
  "json_strings (JStr s) = [s]"
| "json_strings (JObj kvs) = concat (map (\<lambda>kv. json_strings (snd kv)) kvs)"
| "json_strings (JArr vs) = concat (map json_strings vs)"
| "json_strings v = []"

lemma redacted_is_clean: "\<not> names_secret redacted"
  by (simp add: names_secret_def redacted_def starts_with_def)

lemma mask_clean: "s \<in> set (json_strings (mask_json_secrets v)) \<Longrightarrow> \<not> names_secret s"
proof (induction v arbitrary: s rule: mask_json_secrets.induct)
  case (1 t)
  then show ?case using redacted_is_clean by (auto split: if_splits)
qed auto

lemma mask_idem: "mask_json_secrets (mask_json_secrets v) = mask_json_secrets v"
proof (induction v rule: mask_json_secrets.induct)
  case (1 s)
  then show ?case using redacted_is_clean by auto
qed auto

lemma starts_with_contains: "starts_with p s \<Longrightarrow> str_contains p s"
  by (cases s) (auto simp: starts_with_def)

lemma str_contains_iff: "str_contains p s \<longleftrightarrow> (\<exists>a b. s = a @ p @ b)"
proof
  show "str_contains p s \<Longrightarrow> \<exists>a b. s = a @ p @ b"
  proof (induction s)
    case Nil
    then show ?case by auto
  next
    case (Cons c s)
    then show ?case
      by (metis append.left_neutral append_Cons starts_with_iff str_contains.simps(2))
  qed
  show "\<exists>a b. s = a @ p @ b \<Longrightarrow> str_contains p s"
  proof (elim exE)
    fix a b
    show "s = a @ p @ b \<Longrightarrow> str_contains p s"
    proof (induction a arbitrary: s)
      case Nil
      then have "starts_with p s" by simp
      then show ?case by (rule starts_with_contains)
    qed auto
  qed
qed

lemma secret_reference_marks: "is_secret_reference t \<Longrightarrow> str_contains ''${'' t"
  by (auto simp: is_secret_reference_def strip_prefix_Some str_contains_iff split: option.splits)

text \<open>
  A reference under a key that is in neither list of secret fields makes the resolution of
  the whole configuration fail.
\<close>

lemma resolve_json_field_error:
  assumes "map_of kvs k = Some v" and "resolve_json pe v (policy_of k) = Inl e"
  shows "\<exists>e. resolve_json pe (JObj kvs) pol = Inl e"
proof -
  define g where "g = (\<lambda>kv. and_then (resolve_json pe (snd kv) (policy_of (fst kv))) (\<lambda>v. Inr (fst kv, v)))"
  have "g (k, v) = Inl e" using assms(2) by (simp add: g_def)
  from map_result_Inl [where f = g, OF map_of_SomeD [OF assms(1)] this]
  obtain e' where "map_result g kvs = Inl e'" ..
  then show ?thesis unfolding g_def by simp
qed

lemma resolve_json_undeclared:
  assumes "map_of kvs k = Some (JStr t)" and "policy_of k = PolicyNone" and "str_contains ''${'' t"
  shows "\<exists>e. resolve_json pe (JObj kvs) pol = Inl e"
  using resolve_json_field_error [OF assms(1)] assms(2,3) by simp

lemma undeclared_secret_fields:
  "policy_of ''signing_secret'' = PolicyNone" "policy_of ''sasl_password'' = PolicyNone"
  by (simp_all add: policy_of_def to_ascii_lowercase_def ascii_lower_def strict_secret_fields_def
      embedded_reference_fields_def Let_def)

text \<open>The sink object of an accepted document is the \<open>sink\<close> or the legacy \<open>config\<close> of the row.\<close>

lemma parsed_sink_in_row:
  assumes "parse_document env name raw = Inr d"
  shows "\<exists>m k. raw = JObj m \<and> map_of m k = Some (JObj (pd_sink d))"
proof -
  from assms obtain m where m: "raw = JObj m" "document_of (normalize m) = Some d" by (auto simp: parse_Inr)
  then have s: "map_of (normalize m) ''sink'' = Some (JObj (pd_sink d))"
    by (auto simp: document_of_def bind_eq_Some_conv split: if_splits elim!: as_object.elims)
  have "map_of m ''sink'' = Some (JObj (pd_sink d)) \<or> map_of m ''config'' = Some (JObj (pd_sink d))"
  proof (cases "has_key ''sink'' m")
    case True
    with s show ?thesis by (auto simp: normalize_def Let_def split: if_splits)
  next
    case False
    then have n: "map_of m ''sink'' = None" by (simp add: has_key_def)
    with s False show ?thesis
      by (auto simp: normalize_def Let_def split: if_splits option.splits json.splits)
  qed
  with m show ?thesis by blast
qed

lemma secret_fields_unresolvable:
  assumes "parse_document env name raw = Inr d"
    and "(pd_sink_type d = ''webhook'' \<and> has_key ''signing_secret'' (pd_sink d))
       \<or> (pd_sink_type d = ''kafka'' \<and> has_key ''sasl_password'' (pd_sink d))"
  shows "\<exists>e. resolve_pipeline_secrets pe raw = Inl e"
proof -
  from assms(1) have v: "validate_supported_sink env name (pd_sink_type d) (pd_sink d) = Inr ()"
    by (auto simp: parse_Inr dest: validate_mode_Inr(9))
  have ref: "\<exists>t. map_of vs k = Some (JStr t) \<and> is_secret_reference t"
    if "optional_secret_reference_field name f vs = Inr ()" "field_key f = k" "has_key k vs" for f k vs
    using that by (auto simp: optional_secret_reference_field_def on_field_Inr_iff has_key_def
        and_then_Inr_iff string_of_def)
  from assms(2) have "\<exists>k t. map_of (pd_sink d) k = Some (JStr t) \<and> is_secret_reference t \<and> policy_of k = PolicyNone"
  proof
    assume w: "pd_sink_type d = ''webhook'' \<and> has_key ''signing_secret'' (pd_sink d)"
    with v have "optional_secret_reference_field name ''sink.signing_secret'' (pd_sink d) = Inr ()"
      by (auto simp: validate_supported_sink_def is_supported_sink_type_def v1_sink_types_def
          validate_webhook_sink_def and_then_Inr_iff)
    from ref [OF this] w undeclared_secret_fields show ?thesis by auto
  next
    assume w: "pd_sink_type d = ''kafka'' \<and> has_key ''sasl_password'' (pd_sink d)"
    with v have "optional_secret_reference_field name ''sink.sasl_password'' (pd_sink d) = Inr ()"
      by (auto simp: validate_supported_sink_def is_supported_sink_type_def v1_sink_types_def
          validate_kafka_sink_def Let_def)
    from ref [OF this] w undeclared_secret_fields show ?thesis by auto
  qed
  then obtain k t where "map_of (pd_sink d) k = Some (JStr t)" "policy_of k = PolicyNone" "str_contains ''${'' t"
    using secret_reference_marks by blast
  then have sink: "\<exists>e. resolve_json pe (JObj (pd_sink d)) pol = Inl e" for pol
    by (rule resolve_json_undeclared)
  from parsed_sink_in_row [OF assms(1)] obtain m k' where m: "raw = JObj m" "map_of m k' = Some (JObj (pd_sink d))"
    by blast
  from sink obtain e where "resolve_json pe (JObj (pd_sink d)) (policy_of k') = Inl e" by blast
  from resolve_json_field_error [OF m(2) this, of PolicyNone] m(1) show ?thesis
    by (simp add: resolve_pipeline_secrets_def)
qed

text \<open>Unknown variables and unterminated placeholders are left as they are.\<close>

lemma expand_without_variables: "(\<And>v. env_var pe v = None) \<Longrightarrow> expand_env_vars pe s = s"
proof (induction pe s rule: expand_env_vars.induct)
  case (1 pe rest)
  show ?case
  proof (cases "find_sub ''${ENV:'' rest")
    case None
    then show ?thesis by (simp add: expand_env_vars.simps [of pe rest])
  next
    case (Some ba)
    obtain before after where ba: "ba = (before, after)" by fastforce
    from Some ba have r: "rest = before @ ''${ENV:'' @ after" by (auto dest: find_sub_Some)
    show ?thesis
    proof (cases "find_sub ''}'' after")
      case None
      have "expand_env_vars pe after = after" using "1.IH"(1) [OF Some] ba None "1.prems" by simp
      with None Some ba r show ?thesis by (subst expand_env_vars.simps) simp
    next
      case (Some vr)
      obtain var rest' where vr: "vr = (var, rest')" by fastforce
      from Some vr have a: "after = var @ ''}'' @ rest'" by (auto dest: find_sub_Some)
      have "expand_env_vars pe rest' = rest'"
        using "1.IH"(2) [OF \<open>find_sub ''${ENV:'' rest = Some ba\<close>] ba Some vr "1.prems" by simp
      with Some vr \<open>find_sub ''${ENV:'' rest = Some ba\<close> ba r a "1.prems" show ?thesis
        by (subst expand_env_vars.simps) simp
    qed
  qed
qed

section \<open>Properties\<close>

text \<open>
  A secret file is read only when it is a regular file, owned by the process, closed to group and
  others, and no larger than the limit, before and after reading; the value is its text without
  the line ends at its end.
\<close>

lemma secret_file_is_private:
  assumes "load_file pe path = Inr v"
  shows "\<exists>m bytes. open_file pe path = Inr m \<and> fm_regular m \<and> fm_len m \<le> max_secret_file_bytes
      \<and> fm_uid m = effective_uid pe \<and> fm_mode m AND 63 = 0 \<and> fm_read m = Inr bytes
      \<and> length bytes \<le> max_secret_file_bytes \<and> v = trim_end_newlines bytes"
  using assms by (rule load_file_ok)

lemma secret_file_is_private_example:
  "\<exists>(m :: file_meta) bytes. fm_read m = Inr bytes \<and> trim_end_newlines bytes = ''k'' \<and> fm_mode m AND 63 = 0"
proof -
  let ?m = "\<lparr> fm_regular = True, fm_len = 2, fm_uid = 0, fm_mode = 384, fm_read = Inr [CHR 0x6B, CHR 0x0A] \<rparr>"
  let ?pe = "\<lparr> env_var = \<lambda>_. None, open_file = \<lambda>_. Inr ?m, effective_uid = 0 \<rparr>"
  have "load_file ?pe ''/s'' = Inr ''k''"
    by (simp add: load_file_def max_secret_file_bytes_def trim_end_newlines_def byte_def ensure_def Let_def)
  from secret_file_is_private [OF this] obtain m :: file_meta and bytes where
    "fm_read m = Inr bytes" "''k'' = trim_end_newlines bytes" "fm_mode m AND 63 = 0" by blast
  then show ?thesis by (intro exI [of _ m] exI [of _ bytes]) simp
qed


text \<open>
  A webhook pipeline that signs its requests and a Kafka pipeline with a password cannot run: the
  schema accepts the field only as a secret reference, and the resolver refuses every document
  with a reference in it.
\<close>

lemma declared_secrets_cannot_be_resolved:
  assumes "parse_document env name raw = Inr d"
    and "(pd_sink_type d = ''webhook'' \<and> has_key ''signing_secret'' (pd_sink d))
       \<or> (pd_sink_type d = ''kafka'' \<and> has_key ''sasl_password'' (pd_sink d))"
  shows "\<exists>e. resolve_pipeline_secrets pe raw = Inl e"
  using assms by (rule secret_fields_unresolvable)

lemma declared_secrets_cannot_be_resolved_example:
  "\<exists>e. resolve_pipeline_secrets \<lparr> env_var = \<lambda>_. Some ''k'', open_file = \<lambda>_. Inl ''x'', effective_uid = 0 \<rparr> hook_document = Inl e"
  by (rule declared_secrets_cannot_be_resolved [OF hook_document_parses]) (simp add: hook_fields has_key_def)


end
