(* ===== verification/Health_State.thy ===== *)
theory Health_State
  imports Tide_Prelude
begin

text \<open>
  The health state the relay's tasks share (\<open>HealthState\<close> of \<open>pg-tide-relay/src/metrics.rs\<close>), the
  write every worker makes to it (\<open>mark_pipeline_health\<close> of \<open>coordinator.rs\<close>) and the health
  endpoints of the metrics server.
\<close>

record health_state =
  healthy_pipelines :: "string list"
  unhealthy_pipelines :: "string list"
  startup_preflight_complete :: bool
  postgres_reachable :: bool
  coordinator_ready :: bool

definition default_health :: health_state where
  "default_health = \<lparr> healthy_pipelines = [], unhealthy_pipelines = [],
     startup_preflight_complete = False, postgres_reachable = False, coordinator_ready = False \<rparr>"

definition is_healthy :: "health_state \<Rightarrow> bool" where
  "is_healthy h \<longleftrightarrow> unhealthy_pipelines h = []"

definition is_live :: "health_state \<Rightarrow> bool" where
  "is_live h \<longleftrightarrow> True"

definition is_ready :: "health_state \<Rightarrow> bool" where
  "is_ready h \<longleftrightarrow> startup_preflight_complete h \<and> postgres_reachable h \<and> coordinator_ready h
     \<and> unhealthy_pipelines h = []"

text \<open>\<open>mark_pipeline_health\<close>: the name leaves both lists, then joins one.\<close>

definition mark_pipeline_health :: "string \<Rightarrow> bool \<Rightarrow> health_state \<Rightarrow> health_state" where
  "mark_pipeline_health pipeline healthy h =
     (let good = filter (\<lambda>n. n \<noteq> pipeline) (healthy_pipelines h);
          bad = filter (\<lambda>n. n \<noteq> pipeline) (unhealthy_pipelines h)
      in if healthy then h\<lparr>healthy_pipelines := good @ [pipeline], unhealthy_pipelines := bad\<rparr>
         else h\<lparr>healthy_pipelines := good, unhealthy_pipelines := bad @ [pipeline]\<rparr>)"

text \<open>The HTTP routes of \<open>start_metrics_server\<close>; \<open>render\<close> is the exposition of the Prometheus library.\<close>

definition readiness_response :: "health_state \<Rightarrow> nat \<times> string" where
  "readiness_response h = (if is_ready h then (200, ''ready'') else (503, ''not ready''))"

definition http_route :: "(string + string) \<Rightarrow> health_state \<Rightarrow> string \<Rightarrow> nat \<times> string" where
  "http_route render h path =
     (if path = ''/metrics'' then (case render of Inr body \<Rightarrow> (200, body) | Inl e \<Rightarrow> (500, e))
      else if path = ''/livez'' then (200, ''alive'')
      else if path \<in> set [''/readyz'', ''/health'', ''/healthz''] then readiness_response h
      else (404, ''''))"

section \<open>The two lists are a partition\<close>

definition health_ok :: "health_state \<Rightarrow> bool" where
  "health_ok h \<longleftrightarrow> distinct (healthy_pipelines h @ unhealthy_pipelines h)"

lemma default_health_ok: "health_ok default_health"
  by (simp add: health_ok_def default_health_def)

lemma health_ok_mark: "health_ok h \<Longrightarrow> health_ok (mark_pipeline_health p b h)"
  by (auto simp: health_ok_def mark_pipeline_health_def Let_def)

lemma unhealthy_mark:
  "set (unhealthy_pipelines (mark_pipeline_health p b h)) =
     (if b then set (unhealthy_pipelines h) - {p} else insert p (set (unhealthy_pipelines h)))"
  by (auto simp: mark_pipeline_health_def Let_def)

lemma not_ready_when_marked: "\<not> is_ready (mark_pipeline_health p False h)"
  by (simp add: is_ready_def mark_pipeline_health_def Let_def)

end
