(* ===== verification/Coordinator.thy ===== *)
theory Coordinator
  imports Secrets Tide_Db Health_State
begin

text \<open>
  The coordinator of a relay process (\<open>pg-tide-relay/src/coordinator.rs\<close>): it loads the enabled
  pipelines, takes a PostgreSQL advisory lock for each on a session of its own, and runs one worker
  per lock.  Several relays share one database; \<open>Relay_Cluster\<close> interleaves them.
\<close>

section \<open>Session advisory locks\<close>

text \<open>
  What the coordinator relies on: \<open>pg_try_advisory_lock\<close> succeeds exactly when the key is free or
  already held by the calling session, and a session's locks go when its connection ends.
\<close>

locale session_locks =
  fixes holder :: "'l \<Rightarrow> 'k \<Rightarrow> 's option"
    and acquire :: "'k \<Rightarrow> 's \<Rightarrow> 'l \<Rightarrow> bool \<times> 'l"
    and close :: "'s \<Rightarrow> 'l \<Rightarrow> 'l"
  assumes acquire_ok: "fst (acquire k s l) \<longleftrightarrow> holder l k = None \<or> holder l k = Some s"
    and acquire_holder: "holder (snd (acquire k s l)) k' =
          (if fst (acquire k s l) \<and> k' = k then Some s else holder l k')"
    and close_holder: "holder (close s l) k = (if holder l k = Some s then None else holder l k)"
begin

lemma exclusive: "holder l k = Some s \<Longrightarrow> fst (acquire k s' l) \<Longrightarrow> s' = s"
  by (simp add: acquire_ok)

lemma acquire_keeps: "holder l k' = Some s' \<Longrightarrow> holder (snd (acquire k s l)) k' = Some s'"
  by (auto simp: acquire_holder acquire_ok)

lemma acquired: "fst (acquire k s l) \<Longrightarrow> holder (snd (acquire k s l)) k = Some s"
  by (simp add: acquire_holder)

lemma close_keeps: "holder l k = Some s' \<Longrightarrow> s' \<noteq> s \<Longrightarrow> holder (close s l) k = Some s'"
  by (simp add: close_holder)

lemma closed_holds_nothing: "holder (close s l) k \<noteq> Some s"
  by (simp add: close_holder)

text \<open>Every claim of a set of claims is backed by its lock; then no key is claimed twice.\<close>

definition backed :: "'l \<Rightarrow> ('s \<times> 'k) set \<Rightarrow> bool" where
  "backed l C \<longleftrightarrow> (\<forall>(s, k) \<in> C. holder l k = Some s)"

lemma backed_exclusive: "backed l C \<Longrightarrow> (s, k) \<in> C \<Longrightarrow> (s', k) \<in> C \<Longrightarrow> s = s'"
  unfolding backed_def split_beta by (metis fst_conv snd_conv option.inject)

lemma backed_subset: "backed l C \<Longrightarrow> D \<subseteq> C \<Longrightarrow> backed l D"
  by (auto simp: backed_def)

lemma backed_acquire: "backed l C \<Longrightarrow> backed (snd (acquire k s l)) C"
  by (auto simp: backed_def acquire_keeps)

lemma backed_acquired: "backed l C \<Longrightarrow> fst (acquire k s l) \<Longrightarrow> backed (snd (acquire k s l)) (insert (s, k) C)"
  by (auto simp: backed_def acquire_keeps acquired)

lemma backed_close: "backed l C \<Longrightarrow> backed (close s l) {c \<in> C. fst c \<noteq> s}"
  by (auto simp: backed_def close_keeps)

end

text \<open>The server's side: the two-key lock space, the open sessions and the next session.\<close>

type_synonym lock_key = "int \<times> int"

record pg_sessions =
  held :: "(lock_key \<times> nat) list"
  open_sessions :: "nat list"
  next_session :: nat

definition lock_holder :: "pg_sessions \<Rightarrow> lock_key \<Rightarrow> nat option" where
  "lock_holder g k = map_of (held g) k"

definition try_advisory_lock :: "lock_key \<Rightarrow> nat \<Rightarrow> pg_sessions \<Rightarrow> bool \<times> pg_sessions" where
  "try_advisory_lock k s g =
     (case lock_holder g k of
        None \<Rightarrow> (True, g\<lparr>held := (k, s) # held g\<rparr>)
      | Some s' \<Rightarrow> (s' = s, g))"

definition close_session :: "nat \<Rightarrow> pg_sessions \<Rightarrow> pg_sessions" where
  "close_session s g =
     g\<lparr>held := filter (\<lambda>h. map_of (held g) (fst h) \<noteq> Some s) (held g),
       open_sessions := filter (\<lambda>t. t \<noteq> s) (open_sessions g)\<rparr>"

definition open_session :: "pg_sessions \<Rightarrow> nat \<times> pg_sessions" where
  "open_session g =
     (next_session g, g\<lparr>open_sessions := next_session g # open_sessions g, next_session := Suc (next_session g)\<rparr>)"

lemma map_of_filter_fst: "map_of (filter (\<lambda>h. P (fst h)) xs) k = (if P k then map_of xs k else None)"
  by (induction xs) auto

interpretation pgl: session_locks lock_holder try_advisory_lock close_session
proof
  fix k k' :: lock_key and s :: nat and l :: pg_sessions
  show "fst (try_advisory_lock k s l) \<longleftrightarrow> lock_holder l k = None \<or> lock_holder l k = Some s"
    by (auto simp: try_advisory_lock_def split: option.splits)
  show "lock_holder (snd (try_advisory_lock k s l)) k' =
      (if fst (try_advisory_lock k s l) \<and> k' = k then Some s else lock_holder l k')"
    by (auto simp: try_advisory_lock_def lock_holder_def split: option.splits)
  show "lock_holder (close_session s l) k = (if lock_holder l k = Some s then None else lock_holder l k)"
    by (simp add: close_session_def lock_holder_def map_of_filter_fst [where P = "\<lambda>k. map_of (held l) k \<noteq> Some s"])
qed

lemma lock_holder_open [simp]: "lock_holder (snd (open_session g)) = lock_holder g"
  by (simp add: open_session_def lock_holder_def fun_eq_iff)

section \<open>The state of a relay\<close>

text \<open>
  A worker task: the session it and its lock live on, the pipeline it was started with (secrets
  resolved) and whether its task has ended.  \<open>ow_key\<close> is the lock the session was given.
\<close>

record owned_worker =
  ow_session :: nat
  ow_key :: lock_key
  ow_pipeline :: pipeline_config
  ow_finished :: bool

record relay =
  rl_group :: string
  rl_tenant :: "string option"
  rl_max_owned :: nat
  rl_owned :: "(string \<times> owned_worker) list"
  rl_health :: health_state

text \<open>\<open>Coordinator::new\<close> with its setters.\<close>

definition new_coordinator :: "string \<Rightarrow> string option \<Rightarrow> nat \<Rightarrow> relay" where
  "new_coordinator grp tenant max_owned =
     \<lparr> rl_group = grp, rl_tenant = tenant, rl_max_owned = max_owned, rl_owned = [],
       rl_health = default_health \<rparr>"

text \<open>\<open>hashtext\<close> is PostgreSQL's 32-bit hash; the fates are the failures of one reconciliation.\<close>

record coord_env =
  hashtext :: "string \<Rightarrow> int"
  co_schema :: schema_env
  co_process :: process_env

record reconcile_fate =
  rf_load :: "relay_error option"
  rf_connect :: "string \<Rightarrow> relay_error option"
  rf_lock :: "string \<Rightarrow> pg_error option"

section \<open>Loading and locking\<close>

definition pipeline_of_row :: "string \<times> relay_config_row \<Rightarrow> pipeline_config" where
  "pipeline_of_row r =
     \<lparr> pc_name = fst r, pc_direction = Forward, pc_enabled = rc_enabled (snd r),
       pc_config = rc_config (snd r), pc_tenant = rc_tenant (snd r) \<rparr>"

definition load_pipelines :: "reconcile_fate \<Rightarrow> relay \<Rightarrow> tide_db \<Rightarrow> relay_error + pipeline_config list" where
  "load_pipelines fate r db =
     (case rf_load fate of
        Some e \<Rightarrow> Inl e
      | None \<Rightarrow>
          Inr (map pipeline_of_row
                 (filter (\<lambda>row. rc_enabled (snd row) \<and>
                            (case rl_tenant r of None \<Rightarrow> True | Some t \<Rightarrow> rc_tenant (snd row) = t))
                    (relay_configs db))))"

definition lock_scope :: "pipeline_config \<Rightarrow> string" where
  "lock_scope p = pc_tenant p @ '':'' @ ''forward'' @ '':'' @ pc_name p"

definition lock_key_of :: "coord_env \<Rightarrow> string \<Rightarrow> pipeline_config \<Rightarrow> lock_key" where
  "lock_key_of env grp p = (hashtext env grp, hashtext env (lock_scope p))"

text \<open>
  \<open>try_acquire_ownership\<close>: a connection, one \<open>pg_try_advisory_lock\<close> on it; a refused or failed lock
  drops the client and with it the session.
\<close>

definition try_acquire_ownership ::
    "coord_env \<Rightarrow> reconcile_fate \<Rightarrow> string \<Rightarrow> pipeline_config \<Rightarrow> pg_sessions \<Rightarrow> pg_sessions \<times> (relay_error + nat option)" where
  "try_acquire_ownership env fate grp p g =
     (case rf_connect fate (pc_name p) of
        Some e \<Rightarrow> (g, Inl e)
      | None \<Rightarrow>
          (let (s, g1) = open_session g
           in case rf_lock fate (pc_name p) of
                Some e \<Rightarrow> (close_session s g1, Inl (Postgres e))
              | None \<Rightarrow>
                  (let (ok, g2) = try_advisory_lock (lock_key_of env grp p) s g1
                   in if ok then (g2, Inr (Some s)) else (close_session s g2, Inr None))))"

section \<open>Reconciliation\<close>

text \<open>The loop that starts what is not running: \<open>continue\<close> skips a pipeline, the limit breaks.\<close>

fun start_pipelines ::
    "coord_env \<Rightarrow> reconcile_fate \<Rightarrow> relay \<Rightarrow> pipeline_config list
     \<Rightarrow> (string \<times> owned_worker) list \<Rightarrow> pg_sessions \<Rightarrow> (string \<times> owned_worker) list \<times> pg_sessions" where
  "start_pipelines env fate r [] owned g = (owned, g)"
| "start_pipelines env fate r (p # ps) owned g =
     (if has_key (pc_name p) owned then start_pipelines env fate r ps owned g
      else if rl_max_owned r \<le> length owned then (owned, g)
      else case resolve_pipeline_secrets (co_process env) (pc_config p) of
             Inl e \<Rightarrow> start_pipelines env fate r ps owned g
           | Inr cfg \<Rightarrow>
               (case try_acquire_ownership env fate (rl_group r) p g of
                  (g', Inr (Some s)) \<Rightarrow>
                    start_pipelines env fate r ps
                      ((pc_name p, \<lparr> ow_session = s, ow_key = lock_key_of env (rl_group r) p,
                                     ow_pipeline = p\<lparr>pc_config := cfg\<rparr>, ow_finished = False \<rparr>) # owned) g'
                | (g', _) \<Rightarrow> start_pipelines env fate r ps owned g'))"

text \<open>Ended tasks are reaped before the catalog is read; their sessions ended with them.\<close>

definition reap_finished :: "(string \<times> owned_worker) list \<Rightarrow> (string \<times> owned_worker) list" where
  "reap_finished owned = filter (\<lambda>(n, w). \<not> ow_finished w) owned"

definition close_all :: "(string \<times> owned_worker) list \<Rightarrow> pg_sessions \<Rightarrow> pg_sessions" where
  "close_all ws g = foldl (\<lambda>g w. close_session (ow_session (snd w)) g) g ws"

text \<open>A stopped worker ends within five seconds or is aborted; either way its session is dropped.\<close>

definition stop_removed ::
    "string list \<Rightarrow> (string \<times> owned_worker) list \<Rightarrow> pg_sessions \<Rightarrow> (string \<times> owned_worker) list \<times> pg_sessions" where
  "stop_removed active owned g =
     (filter (\<lambda>(n, w). n \<in> set active) owned, close_all (filter (\<lambda>(n, w). n \<notin> set active) owned) g)"

definition refresh_health :: "(string \<times> owned_worker) list \<Rightarrow> health_state \<Rightarrow> health_state" where
  "refresh_health owned h =
     (let bad = filter (\<lambda>n. has_key n owned) (unhealthy_pipelines h)
      in h\<lparr>startup_preflight_complete := True, postgres_reachable := True, coordinator_ready := True,
           unhealthy_pipelines := bad,
           healthy_pipelines := filter (\<lambda>n. n \<notin> set bad) (map fst owned)\<rparr>)"

definition reconcile :: "coord_env \<Rightarrow> reconcile_fate \<Rightarrow> tide_db \<Rightarrow> relay \<Rightarrow> pg_sessions \<Rightarrow> relay \<times> pg_sessions" where
  "reconcile env fate db r g =
     (let owned = reap_finished (rl_owned r); h = rl_health r
      in case load_pipelines fate r db of
           Inl e \<Rightarrow>
             (r\<lparr>rl_owned := owned, rl_health := h\<lparr>postgres_reachable := False, coordinator_ready := False\<rparr>\<rparr>, g)
         | Inr ps \<Rightarrow>
             if \<not> report_valid (validate_pipelines (co_schema env) ps) then
               (r\<lparr>rl_owned := owned,
                  rl_health := h\<lparr>startup_preflight_complete := True, postgres_reachable := True,
                                 coordinator_ready := False\<rparr>\<rparr>, g)
             else
               (let (kept, g1) = stop_removed (map pc_name ps) owned g;
                    (owned', g2) = start_pipelines env fate r ps kept g1
                in (r\<lparr>rl_owned := owned', rl_health := refresh_health owned' h\<rparr>, g2)))"

text \<open>\<open>drain\<close>: every worker is stopped or aborted, and its session dropped.\<close>

definition drain :: "relay \<Rightarrow> pg_sessions \<Rightarrow> relay \<times> pg_sessions" where
  "drain r g = (r\<lparr>rl_owned := []\<rparr>, close_all (rl_owned r) g)"

text \<open>The end of a worker task: its client is dropped and its health entry says unhealthy.\<close>

definition finish_worker :: "string \<Rightarrow> relay \<Rightarrow> pg_sessions \<Rightarrow> relay \<times> pg_sessions" where
  "finish_worker n r g =
     (case map_of (rl_owned r) n of
        None \<Rightarrow> (r, g)
      | Some w \<Rightarrow>
          (r\<lparr>rl_owned := map (\<lambda>(m, v). if m = n then (m, v\<lparr>ow_finished := True\<rparr>) else (m, v)) (rl_owned r),
             rl_health := mark_pipeline_health n False (rl_health r)\<rparr>,
           close_session (ow_session w) g))"

section \<open>One reconciliation\<close>

definition relay_ok :: "relay \<Rightarrow> bool" where
  "relay_ok r \<longleftrightarrow> distinct (map fst (rl_owned r)) \<and> length (rl_owned r) \<le> rl_max_owned r
     \<and> health_ok (rl_health r) \<and> (\<forall>(n, w) \<in> set (rl_owned r). pc_name (ow_pipeline w) = n)"

lemma has_key_iff: "has_key k m \<longleftrightarrow> k \<in> fst ` set m"
  by (induction m) (auto simp: has_key_def)

lemma start_pipelines_limit:
  "length owned \<le> rl_max_owned r \<Longrightarrow> length (fst (start_pipelines env fate r ps owned g)) \<le> rl_max_owned r"
  by (induction ps arbitrary: owned g) (auto split: sum.splits option.splits prod.splits)

lemma start_pipelines_distinct:
  "distinct (map fst owned) \<Longrightarrow> distinct (map fst (fst (start_pipelines env fate r ps owned g)))"
  by (induction ps arbitrary: owned g) (auto simp: has_key_iff split: sum.splits option.splits prod.splits)

lemma start_pipelines_keeps: "set owned \<subseteq> set (fst (start_pipelines env fate r ps owned g))"
  by (induction ps arbitrary: owned g) (fastforce split: sum.splits option.splits prod.splits)+

text \<open>What a reconciliation starts: a loaded pipeline, its secrets resolved, on a fresh session.\<close>

lemma start_pipelines_new:
  assumes "(n, w) \<in> set (fst (start_pipelines env fate r ps owned g))" "(n, w) \<notin> set owned"
  shows "\<exists>p \<in> set ps. \<exists>cfg. n = pc_name p \<and> resolve_pipeline_secrets (co_process env) (pc_config p) = Inr cfg
     \<and> ow_pipeline w = p\<lparr>pc_config := cfg\<rparr> \<and> ow_key w = lock_key_of env (rl_group r) p \<and> \<not> ow_finished w"
  using assms
proof (induction ps arbitrary: owned g)
  case (Cons p ps)
  show ?case
  proof (cases "has_key (pc_name p) owned \<or> rl_max_owned r \<le> length owned")
    case True
    with Cons show ?thesis by (auto split: if_splits)
  next
    case new: False
    show ?thesis
    proof (cases "resolve_pipeline_secrets (co_process env) (pc_config p)")
      case (Inl e)
      with new Cons show ?thesis by auto
    next
      case cfg: (Inr cfg)
      obtain g' res where t: "try_acquire_ownership env fate (rl_group r) p g = (g', res)" by force
      show ?thesis
      proof (cases "\<exists>s. res = Inr (Some s)")
        case False
        then have "start_pipelines env fate r (p # ps) owned g = start_pipelines env fate r ps owned g'"
          using new cfg t by (cases res) (auto split: option.splits)
        with Cons show ?thesis by auto
      next
        case True
        then obtain s where s: "res = Inr (Some s)" by blast
        let ?w = "\<lparr> ow_session = s, ow_key = lock_key_of env (rl_group r) p,
                     ow_pipeline = p\<lparr>pc_config := cfg\<rparr>, ow_finished = False \<rparr>"
        from new cfg t s Cons.prems(1)
        have "(n, w) \<in> set (fst (start_pipelines env fate r ps ((pc_name p, ?w) # owned) g'))" by simp
        with Cons.IH [of "(pc_name p, ?w) # owned" g'] Cons.prems(2) cfg show ?thesis
          by (cases "(n, w) = (pc_name p, ?w)") auto
      qed
    qed
  qed
qed simp

lemma start_pipelines_names:
  assumes "\<forall>(n, w) \<in> set owned. pc_name (ow_pipeline w) = n"
    and "(n, w) \<in> set (fst (start_pipelines env fate r ps owned g))"
  shows "pc_name (ow_pipeline w) = n"
proof (cases "(n, w) \<in> set owned")
  case True
  with assms(1) show ?thesis by fastforce
next
  case False
  from start_pipelines_new [OF assms(2) this] show ?thesis by auto
qed

lemma distinct_filter_keys: "distinct (map fst xs) \<Longrightarrow> distinct (map fst (filter P xs))"
  by (simp add: distinct_map_filter)

lemma refresh_health_ok:
  "health_ok h \<Longrightarrow> distinct (map fst owned) \<Longrightarrow> health_ok (refresh_health owned h)"
  by (auto simp: health_ok_def refresh_health_def Let_def)

lemma reconcile_load_failed:
  "load_pipelines fate r db = Inl e \<Longrightarrow> reconcile env fate db r g =
     (r\<lparr>rl_owned := reap_finished (rl_owned r),
        rl_health := (rl_health r)\<lparr>postgres_reachable := False, coordinator_ready := False\<rparr>\<rparr>, g)"
  by (simp add: reconcile_def)

lemma reconcile_invalid:
  "load_pipelines fate r db = Inr ps \<Longrightarrow> \<not> report_valid (validate_pipelines (co_schema env) ps) \<Longrightarrow>
   reconcile env fate db r g =
     (r\<lparr>rl_owned := reap_finished (rl_owned r),
        rl_health := (rl_health r)\<lparr>startup_preflight_complete := True, postgres_reachable := True,
                                    coordinator_ready := False\<rparr>\<rparr>, g)"
  by (simp add: reconcile_def Let_def)

definition started :: "coord_env \<Rightarrow> reconcile_fate \<Rightarrow> relay \<Rightarrow> pipeline_config list \<Rightarrow> pg_sessions
    \<Rightarrow> (string \<times> owned_worker) list \<times> pg_sessions" where
  "started env fate r ps g =
     (let s = stop_removed (map pc_name ps) (reap_finished (rl_owned r)) g
      in start_pipelines env fate r ps (fst s) (snd s))"

lemma reconcile_valid:
  "load_pipelines fate r db = Inr ps \<Longrightarrow> report_valid (validate_pipelines (co_schema env) ps) \<Longrightarrow>
   reconcile env fate db r g =
     (r\<lparr>rl_owned := fst (started env fate r ps g),
        rl_health := refresh_health (fst (started env fate r ps g)) (rl_health r)\<rparr>,
      snd (started env fate r ps g))"
  by (simp add: reconcile_def started_def Let_def split: prod.splits)

lemma reconcile_cases [case_names load_failed invalid valid]:
  assumes "\<And>e. load_pipelines fate r db = Inl e \<Longrightarrow> P"
    and "\<And>ps. load_pipelines fate r db = Inr ps \<Longrightarrow> \<not> report_valid (validate_pipelines (co_schema env) ps) \<Longrightarrow> P"
    and "\<And>ps. load_pipelines fate r db = Inr ps \<Longrightarrow> report_valid (validate_pipelines (co_schema env) ps) \<Longrightarrow> P"
  shows P
  using assms by (cases "load_pipelines fate r db") auto

definition still_running :: "pipeline_config list \<Rightarrow> relay \<Rightarrow> (string \<times> owned_worker) list" where
  "still_running ps r = filter (\<lambda>(n, w). \<not> ow_finished w \<and> n \<in> set (map pc_name ps)) (rl_owned r)"

lemma started_still_running:
  "started env fate r ps g =
     start_pipelines env fate r ps (still_running ps r)
       (close_all (filter (\<lambda>(n, w). n \<notin> set (map pc_name ps)) (reap_finished (rl_owned r))) g)"
  by (simp add: started_def stop_removed_def reap_finished_def still_running_def Let_def case_prod_unfold)

lemma owned_ok_filter:
  assumes "relay_ok r"
  shows "distinct (map fst (filter P (rl_owned r)))" "length (filter P (rl_owned r)) \<le> rl_max_owned r"
    "\<forall>(n, w) \<in> set (filter P (rl_owned r)). pc_name (ow_pipeline w) = n"
  using assms length_filter_le [of P "rl_owned r"]
  by (simp add: relay_ok_def distinct_map_filter)
    (metis (no_types) assms le_trans length_filter_le relay_ok_def, use assms in \<open>auto simp: relay_ok_def\<close>)

lemma relay_ok_reconcile:
  assumes "relay_ok r"
  shows "relay_ok (fst (reconcile env fate db r g))"
proof (cases rule: reconcile_cases [where fate = fate and r = r and db = db and env = env])
  case (load_failed e)
  then show ?thesis
    using assms owned_ok_filter [OF assms, of "\<lambda>(n, w). \<not> ow_finished w"]
    by (auto simp: reconcile_load_failed relay_ok_def reap_finished_def health_ok_def)
next
  case (invalid ps)
  then show ?thesis
    using assms owned_ok_filter [OF assms, of "\<lambda>(n, w). \<not> ow_finished w"]
    by (auto simp: reconcile_invalid relay_ok_def reap_finished_def health_ok_def)
next
  case (valid ps)
  let ?o = "fst (started env fate r ps g)"
  note kept = owned_ok_filter [OF assms, of "\<lambda>(n, w). \<not> ow_finished w \<and> n \<in> set (map pc_name ps)",
      folded still_running_def]
  have "distinct (map fst ?o)" "length ?o \<le> rl_max_owned r"
    unfolding started_still_running
    using kept start_pipelines_distinct start_pipelines_limit by blast+
  moreover have "\<forall>(n, w) \<in> set ?o. pc_name (ow_pipeline w) = n"
    unfolding started_still_running using start_pipelines_names [OF kept(3)] by blast
  ultimately show ?thesis
    using assms refresh_health_ok [of "rl_health r" ?o] by (simp add: reconcile_valid [OF valid] relay_ok_def)
qed

lemma relay_ok_finish: "relay_ok r \<Longrightarrow> relay_ok (fst (finish_worker n r g))"
  by (auto simp: relay_ok_def finish_worker_def health_ok_mark comp_def case_prod_unfold if_distrib [of fst]
      cong: if_cong split: option.splits)

lemma relay_ok_drain: "relay_ok r \<Longrightarrow> relay_ok (fst (drain r g))"
  by (simp add: relay_ok_def drain_def)

section \<open>What a reconciliation achieves\<close>

lemma resolve_failed_not_started:
  assumes "n \<notin> fst ` set owned"
    and "\<And>p. p \<in> set ps \<Longrightarrow> pc_name p = n \<Longrightarrow> \<exists>e. resolve_pipeline_secrets (co_process env) (pc_config p) = Inl e"
  shows "n \<notin> fst ` set (fst (start_pipelines env fate r ps owned g))"
proof
  assume "n \<in> fst ` set (fst (start_pipelines env fate r ps owned g))"
  then obtain w where w: "(n, w) \<in> set (fst (start_pipelines env fate r ps owned g))" by auto
  moreover have "(n, w) \<notin> set owned" using assms(1) by force
  ultimately obtain p cfg where "p \<in> set ps" "n = pc_name p"
    "resolve_pipeline_secrets (co_process env) (pc_config p) = Inr cfg"
    using start_pipelines_new by blast
  with assms(2) show False by fastforce
qed

lemma try_acquire_free:
  assumes "rf_connect fate (pc_name p) = None" "rf_lock fate (pc_name p) = None"
    and "lock_holder g (lock_key_of env grp p) = None"
  shows "try_acquire_ownership env fate grp p g =
     (snd (try_advisory_lock (lock_key_of env grp p) (next_session g) (snd (open_session g))), Inr (Some (next_session g)))"
proof -
  have "fst (try_advisory_lock (lock_key_of env grp p) (next_session g) (snd (open_session g)))"
    unfolding pgl.acquire_ok using assms(3) by simp
  with assms show ?thesis
    by (simp add: try_acquire_ownership_def Let_def case_prod_unfold) (simp add: open_session_def)
qed

lemma start_pipelines_all:
  assumes "\<forall>p \<in> set ps. rf_connect fate (pc_name p) = None \<and> rf_lock fate (pc_name p) = None
       \<and> (\<exists>cfg. resolve_pipeline_secrets (co_process env) (pc_config p) = Inr cfg)"
    and "\<forall>p \<in> set ps. pc_name p \<notin> fst ` set owned \<longrightarrow> lock_holder g (lock_key_of env (rl_group r) p) = None"
    and "distinct (map (lock_key_of env (rl_group r)) ps)" "distinct (map fst owned)"
    and "card (fst ` set owned \<union> pc_name ` set ps) \<le> rl_max_owned r"
  shows "fst ` set (fst (start_pipelines env fate r ps owned g)) = fst ` set owned \<union> pc_name ` set ps"
  using assms
proof (induction ps arbitrary: owned g)
  case (Cons p ps)
  show ?case
  proof (cases "has_key (pc_name p) owned")
    case True
    then have same: "fst ` set owned \<union> pc_name ` set (p # ps) = fst ` set owned \<union> pc_name ` set ps"
      by (auto simp: has_key_iff)
    have "fst ` set (fst (start_pipelines env fate r ps owned g)) = fst ` set owned \<union> pc_name ` set ps"
      using Cons.prems unfolding same by (intro Cons.IH) simp_all
    with True same show ?thesis by simp
  next
    case False
    then have new: "pc_name p \<notin> fst ` set owned" by (simp add: has_key_iff)
    have "length owned = card (fst ` set owned)"
      using Cons.prems(4) distinct_card by fastforce
    also have "\<dots> < card (fst ` set owned \<union> pc_name ` set (p # ps))"
      using new by (intro psubset_card_mono) auto
    finally have room: "\<not> rl_max_owned r \<le> length owned" using Cons.prems(5) by simp
    obtain cfg where cfg: "resolve_pipeline_secrets (co_process env) (pc_config p) = Inr cfg"
      using Cons.prems(1) by auto
    let ?k = "lock_key_of env (rl_group r) p"
    let ?g = "snd (try_advisory_lock ?k (next_session g) (snd (open_session g)))"
    let ?w = "\<lparr> ow_session = next_session g, ow_key = ?k, ow_pipeline = p\<lparr>pc_config := cfg\<rparr>, ow_finished = False \<rparr>"
    have t: "try_acquire_ownership env fate (rl_group r) p g = (?g, Inr (Some (next_session g)))"
      using Cons.prems(1,2) new by (intro try_acquire_free) auto
    have "lock_holder ?g (lock_key_of env (rl_group r) q) = None" if "q \<in> set ps" "pc_name q \<notin> insert (pc_name p) (fst ` set owned)" for q
    proof -
      have "lock_key_of env (rl_group r) q \<noteq> ?k" using Cons.prems(3) that by (force simp: image_iff)
      then show ?thesis unfolding pgl.acquire_holder using Cons.prems(2) that by simp
    qed
    then have "fst ` set (fst (start_pipelines env fate r ps ((pc_name p, ?w) # owned) ?g)) =
        fst ` set ((pc_name p, ?w) # owned) \<union> pc_name ` set ps"
      using Cons.prems new by (intro Cons.IH) auto
    then show ?thesis using False room cfg t by simp
  qed
qed simp

lemma names_started:
  assumes "(n, w) \<in> set (rl_owned (fst (reconcile env fate db r g)))" "load_pipelines fate r db = Inr ps"
  shows "(n, w) \<in> set (rl_owned r) \<or> n \<in> pc_name ` set ps"
proof (cases "report_valid (validate_pipelines (co_schema env) ps)")
  case False
  with assms show ?thesis by (auto simp: reconcile_invalid reap_finished_def)
next
  case True
  with assms have w: "(n, w) \<in> set (fst (started env fate r ps g))" by (simp add: reconcile_valid)
  show ?thesis
  proof (cases "(n, w) \<in> set (still_running ps r)")
    case True
    then show ?thesis by (simp add: still_running_def)
  next
    case False
    from start_pipelines_new [OF w [unfolded started_still_running] False] show ?thesis by auto
  qed
qed

lemma closed_not_open: "s \<notin> set (open_sessions (close_session s g))"
  by (simp add: close_session_def)

lemma open_close_subset: "set (open_sessions (close_session s g)) \<subseteq> set (open_sessions g)"
  by (auto simp: close_session_def)

lemma close_all_subset: "set (open_sessions (close_all ws g)) \<subseteq> set (open_sessions g)"
proof (induction ws arbitrary: g)
  case (Cons w ws)
  from Cons [of "close_session (ow_session (snd w)) g"] open_close_subset [of "ow_session (snd w)" g]
  show ?case by (simp add: close_all_def)
qed (simp add: close_all_def)

lemma close_all_closes:
  "w \<in> set ws \<Longrightarrow> ow_session (snd w) \<notin> set (open_sessions (close_all ws g))"
proof (induction ws arbitrary: g)
  case (Cons v ws)
  show ?case
  proof (cases "w = v")
    case True
    then show ?thesis
      using closed_not_open [of "ow_session (snd v)" g] close_all_subset [of ws "close_session (ow_session (snd v)) g"]
      by (auto simp: close_all_def)
  next
    case False
    with Cons show ?thesis by (simp add: close_all_def)
  qed
qed simp

text \<open>
  One enabled pipeline that fails the preflight stops the work of the whole relay: the
  reconciliation starts no worker, stops none that was removed, takes no lock, and the relay is not ready.
\<close>

lemma one_invalid_pipeline_halts_reconciliation:
  assumes "load_pipelines fate r db = Inr ps" "p \<in> set ps"
    and "validate_pipeline (co_schema env) p = Inl e"
  shows "reconcile env fate db r g = (fst (reconcile env fate db r g), g)
    \<and> rl_owned (fst (reconcile env fate db r g)) = filter (\<lambda>(n, w). \<not> ow_finished w) (rl_owned r)
    \<and> readiness_response (rl_health (fst (reconcile env fate db r g))) = (503, ''not ready'')"
proof -
  have "\<not> report_valid (validate_pipelines (co_schema env) ps)"
  proof
    assume "report_valid (validate_pipelines (co_schema env) ps)"
    with assms(2,3) show False unfolding report_valid_iff by fastforce
  qed
  from reconcile_invalid [OF assms(1) this] show ?thesis
    by (simp add: reap_finished_def readiness_response_def is_ready_def)
qed

text \<open>
  A running worker survives every reconciliation that still finds its pipeline, with the
  configuration it was started with, whatever the catalog says now.
\<close>

lemma running_worker_keeps_its_configuration:
  assumes "(n, w) \<in> set (rl_owned r)" "\<not> ow_finished w"
    and "load_pipelines fate r db = Inr ps" "n \<in> pc_name ` set ps"
  shows "(n, w) \<in> set (rl_owned (fst (reconcile env fate db r g)))"
proof (cases "report_valid (validate_pipelines (co_schema env) ps)")
  case False
  with assms show ?thesis by (simp add: reconcile_invalid reap_finished_def)
next
  case True
  have "(n, w) \<in> set (still_running ps r)" using assms by (auto simp: still_running_def)
  with start_pipelines_keeps have "(n, w) \<in> set (fst (started env fate r ps g))"
    unfolding started_still_running by blast
  with True assms show ?thesis by (simp add: reconcile_valid)
qed

text \<open>
  C11: A reconciliation that loads valid pipelines, meets no failure and finds the locks free runs every
  enabled pipeline and no other, as long as the limit allows it.
\<close>

theorem reconcile_runs_every_pipeline:
  assumes "load_pipelines fate r db = Inr ps" "report_valid (validate_pipelines (co_schema env) ps)"
    and "distinct (map fst (rl_owned r))" "card (pc_name ` set ps) \<le> rl_max_owned r"
    and "\<forall>p \<in> set ps. rf_connect fate (pc_name p) = None \<and> rf_lock fate (pc_name p) = None
       \<and> (\<exists>cfg. resolve_pipeline_secrets (co_process env) (pc_config p) = Inr cfg)"
    and "\<forall>p \<in> set ps. pc_name p \<notin> fst ` set (still_running ps r) \<longrightarrow> lock_holder g (lock_key_of env (rl_group r) p) = None"
    and "distinct (map (lock_key_of env (rl_group r)) ps)"
  shows "fst ` set (rl_owned (fst (reconcile env fate db r g))) = pc_name ` set ps
    \<and> coordinator_ready (rl_health (fst (reconcile env fate db r g)))"
proof -
  let ?kept = "still_running ps r" and ?gone = "filter (\<lambda>(n, w). n \<notin> set (map pc_name ps)) (reap_finished (rl_owned r))"
  have kept: "fst ` set ?kept \<union> pc_name ` set ps = pc_name ` set ps" by (auto simp: still_running_def)
  have held: "lock_holder (close_all ws g) k = None" if "lock_holder g k = None" for ws k
    unfolding close_all_def using that by (induction ws arbitrary: g) (simp_all add: pgl.close_holder)
  have "fst ` set (fst (start_pipelines env fate r ps ?kept (close_all ?gone g))) = fst ` set ?kept \<union> pc_name ` set ps"
  proof (rule start_pipelines_all [OF assms(5) _ assms(7)])
    show "\<forall>p \<in> set ps. pc_name p \<notin> fst ` set ?kept \<longrightarrow>
        lock_holder (close_all ?gone g) (lock_key_of env (rl_group r) p) = None"
      using assms(6) held by blast
    show "distinct (map fst ?kept)" using assms(3) by (simp add: still_running_def distinct_map_filter)
    show "card (fst ` set ?kept \<union> pc_name ` set ps) \<le> rl_max_owned r" unfolding kept by (rule assms(4))
  qed
  then have "fst ` set (fst (started env fate r ps g)) = pc_name ` set ps"
    unfolding started_still_running kept .
  then show ?thesis
    unfolding reconcile_valid [OF assms(1,2)] by (simp add: refresh_health_def Let_def)
qed

text \<open>
  A pipeline whose secrets cannot be resolved is never started, and nothing tells the probes: the
  pipeline is in neither health list, and the relay stays ready if nothing else was unhealthy.
\<close>

lemma unresolvable_pipeline_is_invisible:
  assumes "load_pipelines fate r db = Inr ps" "report_valid (validate_pipelines (co_schema env) ps)"
    and "p \<in> set ps" "distinct (map pc_name ps)" "pc_name p \<notin> fst ` set (rl_owned r)"
    and "resolve_pipeline_secrets (co_process env) (pc_config p) = Inl e"
  shows "pc_name p \<notin> fst ` set (rl_owned (fst (reconcile env fate db r g)))
    \<and> pc_name p \<notin> set (healthy_pipelines (rl_health (fst (reconcile env fate db r g))))
    \<and> pc_name p \<notin> set (unhealthy_pipelines (rl_health (fst (reconcile env fate db r g))))
    \<and> (is_healthy (rl_health r) \<longrightarrow> readiness_response (rl_health (fst (reconcile env fate db r g))) = (200, ''ready''))"
proof -
  have "pc_name p \<notin> fst ` set (still_running ps r)" using assms(5) by (auto simp: still_running_def)
  moreover have "\<exists>e. resolve_pipeline_secrets (co_process env) (pc_config q) = Inl e" if "q \<in> set ps" "pc_name q = pc_name p" for q
    using that assms(3,4,6) by (metis distinct_map inj_onD)
  ultimately have "pc_name p \<notin> fst ` set (fst (started env fate r ps g))"
    unfolding started_still_running by (rule resolve_failed_not_started)
  then show ?thesis
    unfolding reconcile_valid [OF assms(1,2)]
    by (auto simp: refresh_health_def Let_def has_key_iff readiness_response_def is_ready_def is_healthy_def)
qed

end
