(* ===== verification/Relay_Cluster.thy ===== *)
theory Relay_Cluster
  imports Coordinator
begin

text \<open>
  Several relays on one database: the catalog, the server's sessions and the relays step in any
  order.  The lemmas show what the advisory locks give: at most one worker with a live session per
  pipeline and relay group, whatever happens to relays, connections and catalog.
\<close>

section \<open>The sessions of a set of workers\<close>

text \<open>
  A running worker is tagged with its relay and its name.  Sessions are never shared, and an open
  session still has the lock its worker was given.
\<close>

type_synonym tagged = "(nat \<times> string) \<times> owned_worker"

definition claims :: "pg_sessions \<Rightarrow> tagged set \<Rightarrow> (nat \<times> lock_key) set" where
  "claims g W = (\<lambda>x. (ow_session (snd x), ow_key (snd x))) ` {x \<in> W. ow_session (snd x) \<in> set (open_sessions g)}"

definition sound :: "pg_sessions \<Rightarrow> tagged set \<Rightarrow> bool" where
  "sound g W \<longleftrightarrow> inj_on (\<lambda>x. ow_session (snd x)) W
     \<and> (\<forall>x \<in> W. ow_session (snd x) < next_session g)
     \<and> (\<forall>s \<in> set (open_sessions g). s < next_session g)
     \<and> pgl.backed g (claims g W)"

definition tag :: "nat \<Rightarrow> (string \<times> owned_worker) list \<Rightarrow> tagged set" where
  "tag i owned = (\<lambda>x. ((i, fst x), snd x)) ` set owned"

lemma tag_Cons: "tag i (x # xs) = insert ((i, fst x), snd x) (tag i xs)"
  by (auto simp: tag_def)

lemma tag_subset: "set xs \<subseteq> set ys \<Longrightarrow> tag i xs \<subseteq> tag i ys"
  by (auto simp: tag_def)

lemma claims_insert:
  "ow_session (snd x) \<in> set (open_sessions g) \<Longrightarrow>
   claims g (insert x W) = insert (ow_session (snd x), ow_key (snd x)) (claims g W)"
proof -
  assume "ow_session (snd x) \<in> set (open_sessions g)"
  then have "{y \<in> insert x W. ow_session (snd y) \<in> set (open_sessions g)} =
      insert x {y \<in> W. ow_session (snd y) \<in> set (open_sessions g)}" by auto
  then show ?thesis by (simp add: claims_def)
qed

lemma sound_empty: "sound \<lparr> held = [], open_sessions = [], next_session = 0 \<rparr> {}"
  by (simp add: sound_def claims_def pgl.backed_def)

lemma sound_subset: "sound g W \<Longrightarrow> V \<subseteq> W \<Longrightarrow> sound g V"
  unfolding sound_def by (auto intro: inj_on_subset elim!: pgl.backed_subset simp: claims_def)

lemma claims_close: "claims (close_session s g) W = {c \<in> claims g W. fst c \<noteq> s}"
  by (force simp: claims_def close_session_def)

lemma sound_close: "sound g W \<Longrightarrow> sound (close_session s g) W"
  unfolding sound_def claims_close using pgl.backed_close [of g "claims g W" s]
  by (auto simp: close_session_def)

lemma sound_close_all: "sound g W \<Longrightarrow> sound (close_all ws g) W"
  unfolding close_all_def by (induction ws arbitrary: g) (auto simp: sound_close)

lemma claims_open:
  "\<forall>x \<in> W. ow_session (snd x) < next_session g \<Longrightarrow> claims (snd (open_session g)) W = claims g W"
  by (fastforce simp: claims_def open_session_def)

lemma sound_open: "sound g W \<Longrightarrow> sound (snd (open_session g)) W"
  unfolding sound_def
  by (auto simp: claims_open pgl.backed_def) (auto simp: open_session_def)

lemma open_try [simp]:
  "open_sessions (snd (try_advisory_lock k s g)) = open_sessions g"
  "next_session (snd (try_advisory_lock k s g)) = next_session g"
  by (auto simp: try_advisory_lock_def split: option.splits)

lemma sound_try: "sound g W \<Longrightarrow> sound (snd (try_advisory_lock k s g)) W"
  using pgl.backed_acquire [of g "claims g W" k s] by (simp add: sound_def claims_def)

text \<open>A granted ownership adds a worker; everything else only changes the sessions.\<close>

lemma sound_refused:
  assumes "sound g W" "try_acquire_ownership env fate grp p g = (g', res)"
  shows "sound g' W"
  using assms sound_open [OF assms(1)]
  by (auto simp: try_acquire_ownership_def Let_def case_prod_unfold split: option.splits if_splits
      intro!: sound_close sound_try)

lemma sound_granted:
  assumes "sound g W" "try_acquire_ownership env fate grp p g = (g', Inr (Some s))"
    and "ow_session w = s" "ow_key w = lock_key_of env grp p"
  shows "sound g' (insert (t, w) W)"
proof -
  let ?k = "lock_key_of env grp p" and ?g1 = "snd (open_session g)"
  from assms(2) have s: "s = next_session g" and g': "g' = snd (try_advisory_lock ?k s ?g1)"
    and ok: "fst (try_advisory_lock ?k s ?g1)"
    by (auto simp: try_acquire_ownership_def Let_def case_prod_unfold open_session_def split: option.splits if_splits)
  have base: "sound g' W" by (rule sound_refused [OF assms(1,2)])
  have fresh: "\<forall>x \<in> W. ow_session (snd x) < s" using assms(1) s by (simp add: sound_def)
  have n: "next_session g' = Suc s" "s \<in> set (open_sessions g')"
    by (simp_all add: g' s open_session_def)
  have "claims g' (insert (t, w) W) = insert (s, ?k) (claims g' W)"
    using n(2) assms(3,4) by (simp add: claims_insert)
  moreover have "claims g' W = claims ?g1 W" by (simp add: g' claims_def)
  moreover have "pgl.backed ?g1 (claims ?g1 W)" using sound_open [OF assms(1)] by (simp add: sound_def)
  ultimately have "pgl.backed g' (claims g' (insert (t, w) W))"
    using pgl.backed_acquired [OF _ ok] by (simp add: g')
  then show ?thesis using base fresh n assms(3)
    by (auto simp: sound_def inj_on_def)
qed


text \<open>A reconciliation of relay \<open>i\<close> beside the workers \<open>A\<close> of the others.\<close>

lemma sound_start:
  "sound g (A \<union> tag i owned) \<Longrightarrow>
   sound (snd (start_pipelines env fate r ps owned g)) (A \<union> tag i (fst (start_pipelines env fate r ps owned g)))"
proof (induction ps arbitrary: owned g)
  case (Cons p ps)
  show ?case
  proof (cases "has_key (pc_name p) owned \<or> rl_max_owned r \<le> length owned")
    case True
    with Cons show ?thesis by auto
  next
    case new: False
    show ?thesis
    proof (cases "resolve_pipeline_secrets (co_process env) (pc_config p)")
      case (Inl e)
      with new Cons show ?thesis by auto
    next
      case cfg: (Inr cfg)
      obtain g' res where t: "try_acquire_ownership env fate (rl_group r) p g = (g', res)" by force
      from sound_refused [OF Cons.prems t] have g': "sound g' (A \<union> tag i owned)" .
      show ?thesis
      proof (cases "\<exists>s. res = Inr (Some s)")
        case False
        then have "start_pipelines env fate r (p # ps) owned g = start_pipelines env fate r ps owned g'"
          using new cfg t by (cases res) (auto split: option.splits)
        with Cons.IH [OF g'] show ?thesis by simp
      next
        case True
        then obtain s where s: "res = Inr (Some s)" by blast
        let ?w = "\<lparr> ow_session = s, ow_key = lock_key_of env (rl_group r) p,
                     ow_pipeline = p\<lparr>pc_config := cfg\<rparr>, ow_finished = False \<rparr>"
        have "sound g' (insert ((i, pc_name p), ?w) (A \<union> tag i owned))"
          using sound_granted [OF Cons.prems, of env fate "rl_group r" p g' s ?w] t s by simp
        then have "sound g' (A \<union> tag i ((pc_name p, ?w) # owned))" by (simp add: tag_Cons)
        from Cons.IH [OF this] new cfg t s show ?thesis by simp
      qed
    qed
  qed
qed simp

lemma reap_subset: "set (reap_finished owned) \<subseteq> set owned"
  by (auto simp: reap_finished_def)

lemma sound_reconcile:
  assumes "sound g (A \<union> tag i (rl_owned r))"
  shows "sound (snd (reconcile env fate db r g)) (A \<union> tag i (rl_owned (fst (reconcile env fate db r g))))"
proof (cases rule: reconcile_cases [where fate = fate and r = r and db = db and env = env])
  case (load_failed e)
  then show ?thesis
    using sound_subset [OF assms, of "A \<union> tag i (reap_finished (rl_owned r))"] tag_subset [OF reap_subset]
    by (auto simp: reconcile_load_failed)
next
  case (invalid ps)
  then show ?thesis
    using sound_subset [OF assms, of "A \<union> tag i (reap_finished (rl_owned r))"] tag_subset [OF reap_subset]
    by (auto simp: reconcile_invalid)
next
  case (valid ps)
  have "set (still_running ps r) \<subseteq> set (rl_owned r)" by (auto simp: still_running_def)
  then have "sound g (A \<union> tag i (still_running ps r))"
    using tag_subset by (intro sound_subset [OF assms] Un_mono subset_refl) 
  note s = sound_start [OF sound_close_all [OF this]]
  have "rl_owned (fst (reconcile env fate db r g)) = fst (started env fate r ps g)"
    "snd (reconcile env fate db r g) = snd (started env fate r ps g)"
    by (simp_all add: reconcile_valid [OF valid])
  then show ?thesis by (simp only: started_still_running) (rule s)
qed

section \<open>The cluster\<close>

record cluster =
  cl_db :: tide_db
  cl_pg :: pg_sessions
  cl_relays :: "relay list"

definition workers :: "cluster \<Rightarrow> tagged set" where
  "workers c = (\<Union>i < length (cl_relays c). tag i (rl_owned (cl_relays c ! i)))"

text \<open>
  The steps: the catalog changes, a relay joins, reconciles, drains (a crash drops the sessions as
  well), a worker ends or reports its health, the server ends a session.
\<close>

inductive cluster_step :: "coord_env \<Rightarrow> cluster \<Rightarrow> cluster \<Rightarrow> bool" for env where
  catalog: "cluster_step env c (c\<lparr>cl_db := db\<rparr>)"
| join: "cluster_step env c (c\<lparr>cl_relays := cl_relays c @ [new_coordinator grp tenant limit]\<rparr>)"
| reconciled: "i < length (cl_relays c) \<Longrightarrow> reconcile env fate (cl_db c) (cl_relays c ! i) (cl_pg c) = (r', g') \<Longrightarrow>
    cluster_step env c (c\<lparr>cl_relays := (cl_relays c)[i := r'], cl_pg := g'\<rparr>)"
| drained: "i < length (cl_relays c) \<Longrightarrow> drain (cl_relays c ! i) (cl_pg c) = (r', g') \<Longrightarrow>
    cluster_step env c (c\<lparr>cl_relays := (cl_relays c)[i := r'], cl_pg := g'\<rparr>)"
| worker_ended: "i < length (cl_relays c) \<Longrightarrow> finish_worker n (cl_relays c ! i) (cl_pg c) = (r', g') \<Longrightarrow>
    cluster_step env c (c\<lparr>cl_relays := (cl_relays c)[i := r'], cl_pg := g'\<rparr>)"
| worker_health: "i < length (cl_relays c) \<Longrightarrow> r = cl_relays c ! i \<Longrightarrow>
    cluster_step env c (c\<lparr>cl_relays := (cl_relays c)[i := r\<lparr>rl_health := mark_pipeline_health n b (rl_health r)\<rparr>]\<rparr>)"
| session_lost: "cluster_step env c (c\<lparr>cl_pg := close_session s (cl_pg c)\<rparr>)"

inductive cluster_reachable :: "coord_env \<Rightarrow> cluster \<Rightarrow> bool" for env where
  initial: "cluster_reachable env
      \<lparr> cl_db = db, cl_pg = \<lparr> held = [], open_sessions = [], next_session = 0 \<rparr>, cl_relays = [] \<rparr>"
| step: "cluster_reachable env c \<Longrightarrow> cluster_step env c c' \<Longrightarrow> cluster_reachable env c'"

definition keyed :: "coord_env \<Rightarrow> relay \<Rightarrow> bool" where
  "keyed env r \<longleftrightarrow> (\<forall>(n, w) \<in> set (rl_owned r). ow_key w = lock_key_of env (rl_group r) (ow_pipeline w))"

definition cluster_ok :: "coord_env \<Rightarrow> cluster \<Rightarrow> bool" where
  "cluster_ok env c \<longleftrightarrow> sound (cl_pg c) (workers c) \<and> (\<forall>r \<in> set (cl_relays c). relay_ok r \<and> keyed env r)"

lemma workers_update:
  assumes "i < length (cl_relays c)"
  shows "workers (c\<lparr>cl_relays := (cl_relays c)[i := r'], cl_pg := g'\<rparr>) =
     (\<Union>j \<in> {..< length (cl_relays c)} - {i}. tag j (rl_owned (cl_relays c ! j))) \<union> tag i (rl_owned r')"
  using assms by (auto simp: workers_def nth_list_update split: if_splits)

lemma workers_split:
  assumes "i < length (cl_relays c)"
  shows "workers c = (\<Union>j \<in> {..< length (cl_relays c)} - {i}. tag j (rl_owned (cl_relays c ! j)))
     \<union> tag i (rl_owned (cl_relays c ! i))"
  using assms by (auto simp: workers_def)


lemma keyedD: "keyed env r \<Longrightarrow> (n, w) \<in> set (rl_owned r) \<Longrightarrow> ow_key w = lock_key_of env (rl_group r) (ow_pipeline w)"
  unfolding keyed_def by blast

lemma keyed_start:
  assumes "\<forall>(n, w) \<in> set owned. ow_key w = lock_key_of env (rl_group r) (ow_pipeline w)"
    and "(n, w) \<in> set (fst (start_pipelines env fate r ps owned g))"
  shows "ow_key w = lock_key_of env (rl_group r) (ow_pipeline w)"
proof (cases "(n, w) \<in> set owned")
  case True
  with assms(1) show ?thesis by fastforce
next
  case False
  from start_pipelines_new [OF assms(2) this] show ?thesis
    by (auto simp: lock_key_of_def lock_scope_def)
qed

lemma keyed_reconcile:
  assumes "keyed env r"
  shows "keyed env (fst (reconcile env fate db r g))"
proof (cases rule: reconcile_cases [where fate = fate and r = r and db = db and env = env])
  case (load_failed e)
  with assms show ?thesis by (auto simp: reconcile_load_failed keyed_def reap_finished_def)
next
  case (invalid ps)
  with assms show ?thesis by (auto simp: reconcile_invalid keyed_def reap_finished_def)
next
  case (valid ps)
  have "\<forall>(n, w) \<in> set (still_running ps r). ow_key w = lock_key_of env (rl_group r) (ow_pipeline w)"
    using assms by (auto simp: keyed_def still_running_def)
  from keyed_start [OF this] show ?thesis
    by (auto simp: reconcile_valid [OF valid] keyed_def started_still_running)
qed

lemma cluster_ok_update:
  assumes ok: "cluster_ok env c" and i: "i < length (cl_relays c)"
    and r': "relay_ok r'" "keyed env r'"
    and s: "\<And>A. \<forall>x \<in> A. fst (fst x) \<noteq> i \<Longrightarrow> sound (cl_pg c) (A \<union> tag i (rl_owned (cl_relays c ! i))) \<Longrightarrow> sound g' (A \<union> tag i (rl_owned r'))"
  shows "cluster_ok env (c\<lparr>cl_relays := (cl_relays c)[i := r'], cl_pg := g'\<rparr>)"
proof -
  have "sound g' (workers (c\<lparr>cl_relays := (cl_relays c)[i := r'], cl_pg := g'\<rparr>))"
    unfolding workers_update [OF i] using ok workers_split [OF i] by (intro s) (auto simp: cluster_ok_def tag_def)
  moreover have "set ((cl_relays c)[i := r']) \<subseteq> insert r' (set (cl_relays c))" by (rule set_update_subset_insert)
  ultimately show ?thesis using ok r' by (auto simp: cluster_ok_def)
qed

lemma relay_at: "cluster_ok env c \<Longrightarrow> i < length (cl_relays c) \<Longrightarrow> relay_ok (cl_relays c ! i) \<and> keyed env (cl_relays c ! i)"
  by (simp add: cluster_ok_def)

text \<open>Ending a worker changes neither its session nor its key.\<close>

lemma sound_image:
  assumes "sound g W" "\<And>x. x \<in> W \<Longrightarrow> ow_session (snd (f x)) = ow_session (snd x) \<and> ow_key (snd (f x)) = ow_key (snd x)"
  shows "sound g (f ` W)"
proof -
  have "claims g (f ` W) = claims g W"
    using assms(2) by (force simp: claims_def image_iff)
  moreover have "inj_on (\<lambda>x. ow_session (snd x)) (f ` W)"
    using assms by (auto simp: sound_def inj_on_def)
  ultimately show ?thesis using assms by (auto simp: sound_def)
qed

lemma sound_finish:
  assumes A: "\<forall>x \<in> A. fst (fst x) \<noteq> i" and g: "sound g (A \<union> tag i (rl_owned r))"
    and f: "finish_worker n r g = (r', g')"
  shows "sound g' (A \<union> tag i (rl_owned r'))"
proof (cases "map_of (rl_owned r) n")
  case None
  with g f show ?thesis by (simp add: finish_worker_def)
next
  case (Some w)
  let ?f = "\<lambda>x :: tagged. if fst x = (i, n) then (fst x, (snd x)\<lparr>ow_finished := True\<rparr>) else x"
  have "?f ` A = A" using A by force
  moreover have "tag i (rl_owned r') = ?f ` tag i (rl_owned r)"
    using f Some by (force simp: finish_worker_def tag_def image_image image_iff split: if_splits)
  moreover have "sound g (?f ` (A \<union> tag i (rl_owned r)))"
    by (rule sound_image [OF g]) auto
  ultimately have "sound g (A \<union> tag i (rl_owned r'))" by (simp only: image_Un)
  with f Some show ?thesis by (auto simp: finish_worker_def intro: sound_close)
qed

lemma keyed_finish: "keyed env r \<Longrightarrow> keyed env (fst (finish_worker n r g))"
  by (auto simp: keyed_def finish_worker_def split: option.splits if_splits)

lemma cluster_ok_step:
  assumes "cluster_step env c c'" "cluster_ok env c"
  shows "cluster_ok env c'"
  using assms
proof (cases rule: cluster_step.cases)
  case (catalog db)
  with assms show ?thesis by (simp add: cluster_ok_def workers_def)
next
  case (join grp tenant limit)
  have "workers c' = workers c"
    using join by (simp add: workers_def nth_append lessThan_Suc new_coordinator_def tag_def cong: SUP_cong_simp)
  with assms join show ?thesis
    by (auto simp: cluster_ok_def relay_ok_def keyed_def new_coordinator_def default_health_ok)
next
  case (reconciled i fate r' g')
  note r = relay_at [OF assms(2) reconciled(2)]
  show ?thesis unfolding reconciled(1)
    using r reconciled(3) relay_ok_reconcile keyed_reconcile
    by (intro cluster_ok_update [OF assms(2) reconciled(2)])
      (metis fst_conv, metis fst_conv, metis fst_conv snd_conv sound_reconcile)
next
  case (drained i r' g')
  note r = relay_at [OF assms(2) drained(2)]
  have s: "sound g' (A \<union> tag i (rl_owned r'))" if "sound (cl_pg c) (A \<union> tag i (rl_owned (cl_relays c ! i)))" for A
    using drained(3) sound_close_all [OF sound_subset [OF that, of A]] by (auto simp: drain_def tag_def)
  show ?thesis unfolding drained(1)
    using r drained(3) s
    by (intro cluster_ok_update [OF assms(2) drained(2)]) (auto simp: drain_def relay_ok_def keyed_def)
next
  case (worker_ended i n r' g')
  note r = relay_at [OF assms(2) worker_ended(2)]
  show ?thesis unfolding worker_ended(1)
    using r worker_ended(3) relay_ok_finish keyed_finish
    by (intro cluster_ok_update [OF assms(2) worker_ended(2)])
      (metis fst_conv, metis fst_conv, metis sound_finish)
next
  case (worker_health i r n b)
  have "cluster_ok env (c\<lparr>cl_relays := (cl_relays c)[i := r\<lparr>rl_health := mark_pipeline_health n b (rl_health r)\<rparr>], cl_pg := cl_pg c\<rparr>)"
    using relay_at [OF assms(2) worker_health(2)] worker_health(3)
    by (intro cluster_ok_update [OF assms(2) worker_health(2)]) (auto simp: relay_ok_def keyed_def health_ok_mark)
  with worker_health show ?thesis by simp
next
  case (session_lost s)
  with assms sound_close [of "cl_pg c" "workers c" s] show ?thesis by (simp add: cluster_ok_def workers_def)
qed

lemma cluster_reachable_ok: "cluster_reachable env c \<Longrightarrow> cluster_ok env c"
proof (induction rule: cluster_reachable.induct)
  case (initial db)
  then show ?case using sound_empty by (simp add: cluster_ok_def workers_def)
qed (rule cluster_ok_step)


section \<open>Properties\<close>

text \<open>
  C7: Whatever relays, connections, workers and the catalog do, no two workers of one relay group that
  still have their database session run the same pipeline of the same tenant.
\<close>

theorem one_live_worker_per_pipeline:
  assumes "cluster_reachable env c"
    and "i < length (cl_relays c)" "(n, v) \<in> set (rl_owned (cl_relays c ! i))"
    and "j < length (cl_relays c)" "(m, w) \<in> set (rl_owned (cl_relays c ! j))"
    and "rl_group (cl_relays c ! i) = rl_group (cl_relays c ! j)"
    and "pc_tenant (ow_pipeline v) = pc_tenant (ow_pipeline w)" "pc_name (ow_pipeline v) = pc_name (ow_pipeline w)"
    and "ow_session v \<in> set (open_sessions (cl_pg c))" "ow_session w \<in> set (open_sessions (cl_pg c))"
  shows "i = j \<and> n = m \<and> v = w"
proof -
  have ok: "cluster_ok env c" by (rule cluster_reachable_ok) fact
  then have s: "sound (cl_pg c) (workers c)" by (simp add: cluster_ok_def)
  have v: "((i, n), v) \<in> workers c" and w: "((j, m), w) \<in> workers c"
    using assms by (force simp: workers_def tag_def)+
  have "ow_key v = ow_key w"
    using keyedD [OF relay_at [OF ok assms(2), THEN conjunct2] assms(3)]
      keyedD [OF relay_at [OF ok assms(4), THEN conjunct2] assms(5)] assms(6-8)
    by (simp add: lock_key_of_def lock_scope_def)
  moreover have "(ow_session v, ow_key v) \<in> claims (cl_pg c) (workers c)"
    "(ow_session w, ow_key w) \<in> claims (cl_pg c) (workers c)"
    using v w assms by (force simp: claims_def)+
  ultimately have "ow_session v = ow_session w"
    using s pgl.backed_exclusive [of "cl_pg c" "claims (cl_pg c) (workers c)"] by (metis sound_def)
  with s v w have "((i, n), v) = ((j, m), w)"
    by (auto simp: sound_def dest!: inj_onD [of "\<lambda>x. ow_session (snd x)" "workers c" "((i, n), v)" "((j, m), w)"])
  then show ?thesis by simp
qed

text \<open>
  In every reachable state a relay owns at most its limit of pipelines, each under its own name
  and once, and no pipeline is both healthy and unhealthy.
\<close>

lemma relay_within_limit:
  assumes "cluster_reachable env c" "r \<in> set (cl_relays c)"
  shows "length (rl_owned r) \<le> rl_max_owned r \<and> distinct (map fst (rl_owned r))
     \<and> (\<forall>(n, w) \<in> set (rl_owned r). pc_name (ow_pipeline w) = n)
     \<and> distinct (healthy_pipelines (rl_health r) @ unhealthy_pipelines (rl_health r))"
  using cluster_reachable_ok [OF assms(1)] assms(2) by (simp add: cluster_ok_def relay_ok_def health_ok_def)


section \<open>A concrete deployment\<close>

definition print_document :: json where
  "print_document = JObj [(''source_type'', JStr ''outbox''), (''source'', JObj [(''outbox'', JStr ''orders'')]),
     (''sink_type'', JStr ''stdout''), (''sink'', JObj [])]"

definition print_parsed :: pipeline_document where
  "print_parsed = the (document_of (normalize (the (as_object print_document))))"

lemma print_fields: "document_of (normalize (the (as_object print_document))) = Some print_parsed"
  "pd_sink_type print_parsed = ''stdout''" "pd_source_type print_parsed = ''outbox''" "pd_sink print_parsed = []"
  "pd_source print_parsed = [(''outbox'', JStr ''orders'')]" "pd_schema_version print_parsed = 1"
  "pd_batch_size print_parsed = None" "pd_retry print_parsed = None" "pd_dlq print_parsed = None"
  "pd_wire_format print_parsed = None"
  by code_simp+

lemma print_sink_valid: "validate_supported_sink plain_env ''p'' ''stdout'' [] = Inr ()"
  by (simp add: validate_supported_sink_def is_supported_sink_type_def v1_sink_types_def checks_Inr_iff
      validate_output_format_def on_field_def reject_keys_Inr_iff)

lemma stdout_not_blank: "\<not> is_blank ''stdout''"
  using is_blank_head [of "CHR ''s''" "''tdout''"] by (auto simp add: ws1_def byte_def simp del: is_blank.simps)

lemma no_references: "validate_secret_references ''p'' (JObj []) = Inr ()"
  by simp

lemma print_document_valid: "validate_with_mode plain_env ''p'' True print_parsed = Inr ()"
  by (simp add: validate_with_mode_def checks_Inr_iff print_fields print_sink_valid hook_source_valid hook_references_valid
   no_references pipeline_schema_version_def source_type_iff sink_type_iff
   connector_fields_iff validate_batch_size_def validate_retry_def validate_dlq_def validate_wire_format_def descriptor_of_def
   sink_descriptor_cases source_descriptor_cases connector_defs v1_sink_types_def extra_fields_def hook_types_not_blank
   stdout_not_blank del: is_blank.simps validate_secret_references.simps)

lemma print_document_parses: "parse_document plain_env ''p'' print_document = Inr print_parsed"
  using print_fields(1) print_document_valid unfolding parse_Inr by (auto simp: print_document_def)

definition two_tenants_env :: coord_env where
  "two_tenants_env = \<lparr> hashtext = \<lambda>s. int (length s), co_schema = plain_env,
     co_process = \<lparr> env_var = \<lambda>_. None, open_file = \<lambda>_. Inl ''x'', effective_uid = 0 \<rparr> \<rparr>"


lemma print_document_resolves:
  "resolve_pipeline_secrets (co_process two_tenants_env) print_document = Inr print_document"
  by code_simp

definition print_db :: tide_db where
  "print_db = empty_db\<lparr>relay_configs := [(''p'', \<lparr> rc_enabled = True, rc_config = print_document, rc_tenant = ''default'' \<rparr>)]\<rparr>"

definition calm :: reconcile_fate where
  "calm = \<lparr> rf_load = None, rf_connect = \<lambda>_. None, rf_lock = \<lambda>_. None \<rparr>"

definition print_pipeline :: pipeline_config where
  "print_pipeline = \<lparr> pc_name = ''p'', pc_direction = Forward, pc_enabled = True,
     pc_config = print_document, pc_tenant = ''default'' \<rparr>"

lemma print_loaded: "load_pipelines calm (new_coordinator ''g'' None 50) print_db = Inr [print_pipeline]"
  by (simp add: load_pipelines_def calm_def new_coordinator_def print_db_def pipeline_of_row_def print_pipeline_def)

lemma print_preflight: "report_valid (validate_pipelines (co_schema two_tenants_env) [print_pipeline])"
  unfolding report_valid_iff two_tenants_env_def
  using print_document_parses print_fields
  by (simp add: validate_pipeline_def sink_descriptor_cases is_available_def connector_defs plain_env_def print_pipeline_def)

definition fresh_pg :: pg_sessions where
  "fresh_pg = \<lparr> held = [], open_sessions = [], next_session = 0 \<rparr>"

definition print_worker :: owned_worker where
  "print_worker = \<lparr> ow_session = 0, ow_key = (1, 17), ow_pipeline = print_pipeline, ow_finished = False \<rparr>"

definition owner_relay :: relay where
  "owner_relay = \<lparr> rl_group = ''g'', rl_tenant = None, rl_max_owned = 50, rl_owned = [(''p'', print_worker)],
     rl_health = \<lparr> healthy_pipelines = [''p''], unhealthy_pipelines = [], startup_preflight_complete = True,
       postgres_reachable = True, coordinator_ready = True \<rparr> \<rparr>"

definition owner_pg :: pg_sessions where
  "owner_pg = \<lparr> held = [((1, 17), 0)], open_sessions = [0], next_session = 1 \<rparr>"

definition standby_relay :: relay where
  "standby_relay = (new_coordinator ''g'' None 50)\<lparr>rl_health := \<lparr> healthy_pipelines = [], unhealthy_pipelines = [],
     startup_preflight_complete = True, postgres_reachable = True, coordinator_ready = True \<rparr>\<rparr>"

lemma print_key: "lock_key_of two_tenants_env ''g'' print_pipeline = (1, 17)"
  by (simp add: lock_key_of_def lock_scope_def two_tenants_env_def print_pipeline_def)

lemma first_try:
  "try_acquire_ownership two_tenants_env calm ''g'' print_pipeline fresh_pg = (owner_pg, Inr (Some 0))"
  by (simp add: try_acquire_ownership_def print_key calm_def open_session_def fresh_pg_def try_advisory_lock_def
      lock_holder_def owner_pg_def)

lemma second_try:
  "try_acquire_ownership two_tenants_env calm ''g'' print_pipeline owner_pg = (owner_pg\<lparr>next_session := 2\<rparr>, Inr None)"
  by (simp add: try_acquire_ownership_def print_key calm_def open_session_def owner_pg_def try_advisory_lock_def
      lock_holder_def close_session_def)

lemma print_pipeline_fields:
  "pc_name print_pipeline = ''p''" "pc_config print_pipeline = print_document"
  "print_pipeline\<lparr>pc_config := print_document\<rparr> = print_pipeline"
  by (simp_all add: print_pipeline_def)

lemma new_relay_fields:
  "rl_owned (new_coordinator grp t n) = []" "rl_group (new_coordinator grp t n) = grp"
  "rl_max_owned (new_coordinator grp t n) = n" "rl_health (new_coordinator grp t n) = default_health"
  by (simp_all add: new_coordinator_def)

lemma first_started:
  "started two_tenants_env calm (new_coordinator ''g'' None 50) [print_pipeline] fresh_pg = ([(''p'', print_worker)], owner_pg)"
  by (simp add: started_still_running still_running_def new_relay_fields reap_finished_def close_all_def
      first_try print_pipeline_fields print_document_resolves print_key print_worker_def has_key_iff)

lemma second_started:
  "started two_tenants_env calm (new_coordinator ''g'' None 50) [print_pipeline] owner_pg = ([], owner_pg\<lparr>next_session := 2\<rparr>)"
  by (simp add: started_still_running still_running_def new_relay_fields reap_finished_def close_all_def
      second_try print_pipeline_fields print_document_resolves has_key_iff)

lemma first_reconcile:
  "reconcile two_tenants_env calm print_db (new_coordinator ''g'' None 50) fresh_pg = (owner_relay, owner_pg)"
  unfolding reconcile_valid [OF print_loaded print_preflight] first_started
  by (simp add: new_coordinator_def owner_relay_def refresh_health_def default_health_def)

lemma second_reconcile:
  "reconcile two_tenants_env calm print_db (new_coordinator ''g'' None 50) owner_pg =
     (standby_relay, owner_pg\<lparr>next_session := 2\<rparr>)"
  unfolding reconcile_valid [OF print_loaded print_preflight] second_started
  by (simp add: new_coordinator_def standby_relay_def refresh_health_def default_health_def)

definition two_relays :: cluster where
  "two_relays = \<lparr> cl_db = print_db, cl_pg = owner_pg\<lparr>next_session := 2\<rparr>, cl_relays = [owner_relay, standby_relay] \<rparr>"

lemma two_relays_reachable: "cluster_reachable two_tenants_env two_relays"
proof -
  let ?new = "new_coordinator ''g'' None 50"
  let ?c = "\<lambda>rs g. \<lparr> cl_db = print_db, cl_pg = g, cl_relays = rs \<rparr>"
  have "cluster_reachable two_tenants_env (?c [] fresh_pg)"
    unfolding fresh_pg_def by (rule cluster_reachable.initial)
  moreover have "cluster_step two_tenants_env (?c [] fresh_pg) (?c [?new] fresh_pg)"
    using cluster_step.join [of two_tenants_env "?c [] fresh_pg"] by simp
  moreover have "cluster_step two_tenants_env (?c [?new] fresh_pg) (?c [?new, ?new] fresh_pg)"
    using cluster_step.join [of two_tenants_env "?c [?new] fresh_pg"] by simp
  moreover have "cluster_step two_tenants_env (?c [?new, ?new] fresh_pg) (?c [owner_relay, ?new] owner_pg)"
    using cluster_step.reconciled [of 0 "?c [?new, ?new] fresh_pg" two_tenants_env calm] first_reconcile by simp
  moreover have "cluster_step two_tenants_env (?c [owner_relay, ?new] owner_pg) two_relays"
    using cluster_step.reconciled [of 1 "?c [owner_relay, ?new] owner_pg" two_tenants_env calm] second_reconcile
    by (simp add: two_relays_def)
  ultimately show ?thesis by (meson cluster_reachable.step)
qed

text \<open>The first relay's worker is the only live one for its pipeline.\<close>

theorem one_live_worker_per_pipeline_witness:
  "{(j, m, w). j < 2 \<and> (m, w) \<in> set (rl_owned (cl_relays two_relays ! j)) \<and> pc_name (ow_pipeline w) = ''p''
      \<and> pc_tenant (ow_pipeline w) = ''default'' \<and> ow_session w \<in> set (open_sessions (cl_pg two_relays))}
   = {(0, ''p'', print_worker)}"
proof -
  have two: "length (cl_relays two_relays) = 2" and grp: "rl_group (cl_relays two_relays ! j) = ''g''" if "j < 2" for j
    using that by (auto simp: two_relays_def owner_relay_def standby_relay_def new_coordinator_def less_2_cases_iff)
  have own: "(''p'', print_worker) \<in> set (rl_owned (cl_relays two_relays ! 0))"
    "ow_session print_worker \<in> set (open_sessions (cl_pg two_relays))"
    "pc_tenant (ow_pipeline print_worker) = ''default''" "pc_name (ow_pipeline print_worker) = ''p''"
    by (simp_all add: two_relays_def owner_relay_def print_worker_def owner_pg_def print_pipeline_def)
  have "0 = j \<and> ''p'' = m \<and> print_worker = w" if w: "j < 2" "(m, w) \<in> set (rl_owned (cl_relays two_relays ! j))"
    "pc_name (ow_pipeline w) = ''p''" "pc_tenant (ow_pipeline w) = ''default''"
    "ow_session w \<in> set (open_sessions (cl_pg two_relays))" for j m w
    by (rule one_live_worker_per_pipeline [OF two_relays_reachable _ own(1) _ w(2)])
      (use w two [of 0] grp [of 0] grp [of j] own in \<open>simp_all\<close>)
  then show ?thesis using own by auto
qed

lemma relay_within_limit_example:
  "length (rl_owned owner_relay) \<le> rl_max_owned owner_relay"
  using relay_within_limit [OF two_relays_reachable, of owner_relay] by (simp add: two_relays_def)

section \<open>Reconciliation on the concrete deployment\<close>

lemma load_calm:
  "rl_tenant r = None \<Longrightarrow> relay_configs db = [(n, \<lparr> rc_enabled = True, rc_config = cfg, rc_tenant = t \<rparr>)] \<Longrightarrow>
   load_pipelines calm r db =
     Inr [\<lparr> pc_name = n, pc_direction = Forward, pc_enabled = True, pc_config = cfg, pc_tenant = t \<rparr>]"
  by (simp add: load_pipelines_def calm_def pipeline_of_row_def)

definition configured :: "json \<Rightarrow> tide_db" where
  "configured cfg = empty_db\<lparr>relay_configs := [(''p'', \<lparr> rc_enabled = True, rc_config = cfg, rc_tenant = ''default'' \<rparr>)]\<rparr>"

lemma load_configured:
  "rl_tenant r = None \<Longrightarrow> load_pipelines calm r (configured cfg) = Inr [print_pipeline\<lparr>pc_config := cfg\<rparr>]"
  using load_calm [of r "configured cfg" "''p''" cfg "''default''"]
  by (simp add: configured_def print_pipeline_def)

lemma null_invalid: "\<exists>e. validate_pipeline (co_schema two_tenants_env) (print_pipeline\<lparr>pc_config := JNull\<rparr>) = Inl e"
proof (cases "validate_pipeline (co_schema two_tenants_env) (print_pipeline\<lparr>pc_config := JNull\<rparr>)")
  case (Inr d)
  then show ?thesis by (auto simp: validate_pipeline_def parse_Inr)
qed simp

lemma one_invalid_pipeline_halts_reconciliation_example:
  "rl_owned (fst (reconcile two_tenants_env calm (configured JNull) standby_relay owner_pg)) = []"
proof -
  have "rl_tenant standby_relay = None" by (simp add: standby_relay_def new_coordinator_def)
  from load_configured [OF this] null_invalid obtain e where
    "load_pipelines calm standby_relay (configured JNull) = Inr [print_pipeline\<lparr>pc_config := JNull\<rparr>]"
    "validate_pipeline (co_schema two_tenants_env) (print_pipeline\<lparr>pc_config := JNull\<rparr>) = Inl e" by blast
  from one_invalid_pipeline_halts_reconciliation [OF this(1) _ this(2), of owner_pg]
  show ?thesis by (simp add: standby_relay_def new_coordinator_def)
qed

lemma running_worker_keeps_its_configuration_example:
  "(''p'', print_worker) \<in> set (rl_owned (fst (reconcile two_tenants_env calm (configured hook_document) owner_relay owner_pg)))"
  by (rule running_worker_keeps_its_configuration [OF _ _ load_configured])
    (simp_all add: owner_relay_def print_worker_def print_pipeline_def)

theorem reconcile_runs_every_pipeline_witness:
  "fst ` set (rl_owned (fst (reconcile two_tenants_env calm print_db (new_coordinator ''g'' None 50) fresh_pg))) = {''p''}"
  using reconcile_runs_every_pipeline [OF print_loaded print_preflight, of fresh_pg] print_document_resolves
  by (simp add: new_relay_fields print_pipeline_fields calm_def lock_holder_def fresh_pg_def)

lemma unresolvable_pipeline_is_invisible_example:
  "readiness_response (rl_health (fst (reconcile two_tenants_env calm (configured hook_document) standby_relay owner_pg))) = (200, ''ready'')"
proof -
  let ?p = "print_pipeline\<lparr>pc_config := hook_document\<rparr>"
  have load: "load_pipelines calm standby_relay (configured hook_document) = Inr [?p]"
    by (rule load_configured) (simp add: standby_relay_def new_coordinator_def)
  have valid: "report_valid (validate_pipelines (co_schema two_tenants_env) [?p])"
    unfolding report_valid_iff two_tenants_env_def
    using hook_document_parses hook_fields
    by (simp add: validate_pipeline_def sink_descriptor_cases is_available_def webhook_connector_def plain_env_def print_pipeline_def)
  obtain e where e: "resolve_pipeline_secrets (co_process two_tenants_env) (pc_config ?p) = Inl e"
    using secret_fields_unresolvable [OF hook_document_parses] hook_fields by (fastforce simp: has_key_def)
  from unresolvable_pipeline_is_invisible [OF load valid _ _ _ e, of owner_pg]
  show ?thesis by (simp add: standby_relay_def new_coordinator_def is_healthy_def)
qed

end
