(* ===== verification/Runtime_Status.thy ===== *)
theory Runtime_Status
  imports Coordinator
begin

text \<open>
  The task around a worker (\<open>run_pipeline_worker\<close> of \<open>pg-tide-relay/src/coordinator.rs\<close>) and the
  observational table \<open>tide.relay_runtime_status\<close> it writes: who owns a pipeline, since when, and
  the last error.  The writes go through the worker's own session and their failures are only logged.
\<close>

record status_row =
  st_group :: string
  st_pipeline :: string
  st_direction :: string
  st_tenant :: string
  owner_token :: "string option"
  owner_acquired_at :: "int option"
  last_owner_heartbeat :: "int option"
  last_error_code :: "string option"
  last_error_component :: "string option"
  last_error_class :: "string option"
  last_error_at :: "int option"
  retry_state :: "string option"
  last_state_update_at :: int

type_synonym status_key = "string \<times> string \<times> string \<times> string"

definition status_key_of :: "status_row \<Rightarrow> status_key" where
  "status_key_of r = (st_group r, st_pipeline r, st_direction r, st_tenant r)"

definition pipeline_key :: "string \<Rightarrow> pipeline_config \<Rightarrow> status_key" where
  "pipeline_key grp p = (grp, pc_name p, ''forward'', pc_tenant p)"

definition blank_row :: "status_key \<Rightarrow> int \<Rightarrow> status_row" where
  "blank_row k now =
     (case k of (g, p, d, t) \<Rightarrow>
       \<lparr> st_group = g, st_pipeline = p, st_direction = d, st_tenant = t, owner_token = None,
         owner_acquired_at = None, last_owner_heartbeat = None, last_error_code = None,
         last_error_component = None, last_error_class = None, last_error_at = None,
         retry_state = None, last_state_update_at = now \<rparr>)"

text \<open>\<open>INSERT .. ON CONFLICT (key) DO UPDATE\<close> on the list of rows.\<close>

fun upsert_row :: "status_key \<Rightarrow> (status_row option \<Rightarrow> status_row) \<Rightarrow> status_row list \<Rightarrow> status_row list" where
  "upsert_row k f [] = [f None]"
| "upsert_row k f (r # rs) = (if status_key_of r = k then f (Some r) # rs else r # upsert_row k f rs)"

definition owned_row :: "status_key \<Rightarrow> string option \<Rightarrow> int \<Rightarrow> status_row option \<Rightarrow> status_row" where
  "owned_row k token now old =
     (case old of
        None \<Rightarrow> (blank_row k now)\<lparr>owner_token := token,
                  owner_acquired_at := (case token of None \<Rightarrow> None | Some _ \<Rightarrow> Some now),
                  last_owner_heartbeat := (case token of None \<Rightarrow> None | Some _ \<Rightarrow> Some now)\<rparr>
      | Some r \<Rightarrow> r\<lparr>owner_token := token,
                  owner_acquired_at := (case token of None \<Rightarrow> None
                     | Some _ \<Rightarrow> (case owner_acquired_at r of None \<Rightarrow> Some now | Some t \<Rightarrow> Some t)),
                  last_owner_heartbeat := (case token of None \<Rightarrow> None | Some _ \<Rightarrow> Some now),
                  last_state_update_at := now\<rparr>)"

definition upsert_runtime_status ::
    "bool \<Rightarrow> int \<Rightarrow> string \<Rightarrow> pipeline_config \<Rightarrow> string option \<Rightarrow> status_row list \<Rightarrow> status_row list" where
  "upsert_runtime_status reachable now grp p token rows =
     (if reachable then upsert_row (pipeline_key grp p) (owned_row (pipeline_key grp p) token now) rows else rows)"

definition direction_text :: "pipeline_direction \<Rightarrow> string" where
  "direction_text d = (case d of Forward \<Rightarrow> ''forward'' | Reverse \<Rightarrow> ''reverse'')"

definition error_row :: "relay_error \<Rightarrow> int \<Rightarrow> status_row \<Rightarrow> status_row" where
  "error_row e now r =
     r\<lparr>last_error_code := Some (show_failure_code (public_code e)),
       last_error_component := Some ''relay.worker'',
       last_error_class := Some (show_retry_class (retry_class_of e)),
       last_error_at := Some now,
       retry_state := (if show_retry_class (retry_class_of e) = ''transient'' then Some ''retrying'' else None),
       last_state_update_at := now\<rparr>"

definition record_runtime_error ::
    "bool \<Rightarrow> int \<Rightarrow> string \<Rightarrow> pipeline_config \<Rightarrow> relay_error \<Rightarrow> status_row list \<Rightarrow> status_row list" where
  "record_runtime_error reachable now grp p e rows =
     (if \<not> reachable then rows
      else map (\<lambda>r. if status_key_of r = (grp, pc_name p, direction_text (pc_direction p), pc_tenant p)
                    then error_row e now r else r) rows)"

text \<open>
  The end of the \<open>select\<close>: the worker returned, or its session was reported lost, or the monitor of
  the session stopped.  A lost session takes the status writes of the end with it.
\<close>

datatype worker_end = Returned "relay_error + unit" | SessionLost | MonitorStopped

definition outcome_of :: "worker_end \<Rightarrow> relay_error + unit" where
  "outcome_of e =
     (case e of Returned r \<Rightarrow> r
      | SessionLost \<Rightarrow> Inl (Other ''ownership session lost'')
      | MonitorStopped \<Rightarrow> Inl (Other ''ownership session monitor stopped''))"

record worker_task =
  tk_health :: health_state
  tk_status :: "status_row list"
  tk_errors :: "(string \<times> string) list"

definition worker_started :: "bool \<Rightarrow> bool \<Rightarrow> int \<Rightarrow> string \<Rightarrow> pipeline_config \<Rightarrow> string \<Rightarrow> worker_task \<Rightarrow> worker_task" where
  "worker_started status_enabled reachable now grp p token t =
     t\<lparr>tk_health := mark_pipeline_health (pc_name p) True (tk_health t),
       tk_status := (if status_enabled then upsert_runtime_status reachable now grp p (Some token) (tk_status t)
                     else tk_status t)\<rparr>"

definition worker_finished :: "bool \<Rightarrow> bool \<Rightarrow> int \<Rightarrow> string \<Rightarrow> pipeline_config \<Rightarrow> worker_end \<Rightarrow> worker_task \<Rightarrow> worker_task" where
  "worker_finished status_enabled reachable now grp p e t =
     (let up = reachable \<and> e \<noteq> SessionLost;
          released = (if status_enabled then upsert_runtime_status up now grp p None (tk_status t) else tk_status t);
          t1 = t\<lparr>tk_health := mark_pipeline_health (pc_name p) False (tk_health t), tk_status := released\<rparr>
      in case outcome_of e of
           Inr _ \<Rightarrow> t1
         | Inl err \<Rightarrow>
             t1\<lparr>tk_status := (if status_enabled then record_runtime_error up now grp p err released else released),
                tk_errors := tk_errors t @ [(pc_name p, if is_transient err then ''transient'' else ''permanent'')]\<rparr>)"

definition run_pipeline_worker ::
    "bool \<Rightarrow> bool \<Rightarrow> int \<Rightarrow> int \<Rightarrow> string \<Rightarrow> pipeline_config \<Rightarrow> string \<Rightarrow> worker_end \<Rightarrow> worker_task \<Rightarrow> worker_task" where
  "run_pipeline_worker status_enabled reachable start stop grp p token e t =
     worker_finished status_enabled reachable stop grp p e
       (worker_started status_enabled reachable start grp p token t)"

section \<open>The rows\<close>

definition find_row :: "status_key \<Rightarrow> status_row list \<Rightarrow> status_row option" where
  "find_row k rows = List.find (\<lambda>r. status_key_of r = k) rows"

lemma key_blank [simp]: "status_key_of (blank_row k now) = k"
  by (cases k) (simp add: blank_row_def status_key_of_def)

lemma key_updates [simp]:
  "status_key_of (r\<lparr>owner_token := a, owner_acquired_at := b, last_owner_heartbeat := c\<rparr>) = status_key_of r"
  "status_key_of (r\<lparr>last_state_update_at := t\<rparr>) = status_key_of r"
  by (simp_all add: status_key_of_def)

lemma key_owned: "(\<And>r. old = Some r \<Longrightarrow> status_key_of r = k) \<Longrightarrow> status_key_of (owned_row k token now old) = k"
  by (cases old) (auto simp: owned_row_def status_key_of_def blank_row_def split: prod.splits)

lemma find_upsert:
  assumes "\<And>old. (\<And>r. old = Some r \<Longrightarrow> status_key_of r = k) \<Longrightarrow> status_key_of (f old) = k"
  shows "find_row k' (upsert_row k f rows) = (if k' = k then Some (f (find_row k rows)) else find_row k' rows)"
  using assms by (induction rows) (auto simp: find_row_def)

lemma keys_upsert:
  assumes "\<And>old. (\<And>r. old = Some r \<Longrightarrow> status_key_of r = k) \<Longrightarrow> status_key_of (f old) = k"
  shows "status_key_of ` set (upsert_row k f rows) = insert k (status_key_of ` set rows)"
    "distinct (map status_key_of rows) \<Longrightarrow> distinct (map status_key_of (upsert_row k f rows))"
proof -
  have f: "status_key_of r = k \<Longrightarrow> status_key_of (f (Some r)) = k" "status_key_of (f None) = k" for r
    using assms by auto
  show keys: "status_key_of ` set (upsert_row k f rows) = insert k (status_key_of ` set rows)"
    for rows by (induction rows) (auto simp: f)
  show "distinct (map status_key_of rows) \<Longrightarrow> distinct (map status_key_of (upsert_row k f rows))"
  proof (induction rows)
    case (Cons r rows)
    with keys [of rows] show ?case by (auto simp: f image_iff)
  qed simp
qed

lemma find_upsert_status:
  "find_row k (upsert_runtime_status True now grp p token rows) =
     (if k = pipeline_key grp p then Some (owned_row k token now (find_row k rows)) else find_row k rows)"
  unfolding upsert_runtime_status_def using find_upsert [OF key_owned] by auto


lemma find_map_key:
  "(\<And>r. status_key_of (f r) = status_key_of r) \<Longrightarrow>
   find_row k (map (\<lambda>r. if status_key_of r = k' then f r else r) rows) =
     (if k = k' then map_option f (find_row k rows) else find_row k rows)"
  by (induction rows) (auto simp: find_row_def)

lemma find_record_error:
  "find_row k (record_runtime_error True now grp p e rows) =
     (if k = (grp, pc_name p, direction_text (pc_direction p), pc_tenant p)
      then map_option (error_row e now) (find_row k rows) else find_row k rows)"
proof -
  have "status_key_of (error_row e now r) = status_key_of r" for r
    by (simp add: error_row_def status_key_of_def)
  then show ?thesis by (simp add: record_runtime_error_def find_map_key)
qed

lemma health_after_run: "is_ready (tk_health (run_pipeline_worker s u a b grp p tok e t)) = False"
  by (simp add: run_pipeline_worker_def worker_finished_def Let_def not_ready_when_marked split: sum.splits)

section \<open>Properties\<close>

text \<open>
  While its worker runs, a pipeline's status row names the worker's token and start; when the worker
  returns, the row is released and holds the code and class of the error it returned with.
\<close>

lemma status_row_follows_worker:
  assumes "pc_direction p = Forward"
  shows "(\<exists>r. find_row (pipeline_key grp p) (tk_status (worker_started True True a grp p tok t)) = Some r
           \<and> owner_token r = Some tok \<and> last_owner_heartbeat r = Some a)
    \<and> (\<exists>r. find_row (pipeline_key grp p) (tk_status (run_pipeline_worker True True a b grp p tok (Returned (Inl e)) t)) = Some r
           \<and> owner_token r = None \<and> owner_acquired_at r = None \<and> last_error_at r = Some b
           \<and> last_error_code r = Some (show_failure_code (public_code e))
           \<and> (retry_state r = Some ''retrying'' \<longleftrightarrow> is_transient e))
    \<and> (\<exists>r. find_row (pipeline_key grp p) (tk_status (run_pipeline_worker True True a b grp p tok (Returned (Inr ())) t)) = Some r
           \<and> owner_token r = None
           \<and> last_error_code r = (case find_row (pipeline_key grp p) (tk_status t) of None \<Rightarrow> None | Some o' \<Rightarrow> last_error_code o'))"
proof -
  have tr: "show_retry_class (retry_class_of e) = ''transient'' \<longleftrightarrow> is_transient e"
    using retry_class_transient [of e] by (cases "retry_class_of e") auto
  show ?thesis
    using assms tr
    by (auto simp: run_pipeline_worker_def worker_started_def worker_finished_def outcome_of_def Let_def
        find_upsert_status find_record_error pipeline_key_def direction_text_def owned_row_def blank_row_def error_row_def
        split: option.splits)
qed

text \<open>
  A worker that loses its session cannot release its row: the row keeps naming the dead worker,
  without an error, and the next owner inherits the dead one's acquisition time.
\<close>

lemma lost_session_leaves_stale_owner:
  assumes "find_row (pipeline_key grp p) (tk_status t) = None"
    and "lost = run_pipeline_worker True True a b grp p tok SessionLost t"
  shows "\<exists>r s. find_row (pipeline_key grp p) (tk_status lost) = Some r
      \<and> owner_token r = Some tok \<and> last_error_code r = None
      \<and> find_row (pipeline_key grp p) (tk_status (worker_started True True c grp p tok' lost)) = Some s
      \<and> owner_token s = Some tok' \<and> owner_acquired_at s = Some a"
  using assms
  by (auto simp: run_pipeline_worker_def worker_started_def worker_finished_def outcome_of_def Let_def
      find_upsert_status owned_row_def blank_row_def record_runtime_error_def upsert_runtime_status_def [of False]
      split: prod.splits)

definition sample_pipeline :: pipeline_config where
  "sample_pipeline = \<lparr> pc_name = ''p'', pc_direction = Forward, pc_enabled = True, pc_config = JNull, pc_tenant = ''default'' \<rparr>"

definition idle_task :: worker_task where
  "idle_task = \<lparr> tk_health = default_health, tk_status = [], tk_errors = [] \<rparr>"

lemma status_row_follows_worker_example:
  "\<exists>r :: status_row. find_row (pipeline_key ''g'' sample_pipeline)
       (tk_status (run_pipeline_worker True True 1 2 ''g'' sample_pipeline ''tok'' (Returned (Inl (Config ''x''))) idle_task)) = Some r
     \<and> owner_token r = None \<and> last_error_at r = Some 2"
  using status_row_follows_worker [of sample_pipeline "''g''" 1 "''tok''" idle_task 2 "Config ''x''"]
  by (auto simp: sample_pipeline_def)

lemma lost_session_leaves_stale_owner_example:
  "\<exists>r s :: status_row. find_row (pipeline_key ''g'' sample_pipeline)
       (tk_status (run_pipeline_worker True True 1 2 ''g'' sample_pipeline ''tok'' SessionLost idle_task)) = Some r
     \<and> owner_token r = Some ''tok''
     \<and> find_row (pipeline_key ''g'' sample_pipeline) (tk_status (worker_started True True 9 ''g'' sample_pipeline ''new''
          (run_pipeline_worker True True 1 2 ''g'' sample_pipeline ''tok'' SessionLost idle_task))) = Some s
     \<and> owner_token s = Some ''new'' \<and> owner_acquired_at s = Some 1"
  using lost_session_leaves_stale_owner [of "''g''" sample_pipeline idle_task _ 1 2 "''tok''" 9 "''new''"]
  by (auto simp: idle_task_def find_row_def)

end
