(* ===== verification/Replay.thy ===== *)
theory Replay
  imports Worker_Liveness
begin

text \<open>
  A bounded replay (\<open>run_replay_once\<close> of \<open>pg-tide-relay/src/coordinator.rs\<close>): the normal worker over a
  range of ids, with a cursor in memory only.  The lemmas show that the live checkpoint it compares
  before and after never moves, and that the worker ends.
\<close>

section \<open>What a replaying worker changes\<close>

definition replaying :: "outbox_source \<Rightarrow> bool" where
  "replaying s \<longleftrightarrow> s_consumer s = None \<and> s_replay s"

definition letters_only :: "tide_db \<Rightarrow> tide_db \<Rightarrow> bool" where
  "letters_only db db' \<longleftrightarrow> db' = db\<lparr>dlq_table := dlq_table db'\<rparr>"

lemma letters_only_refl [simp]: "letters_only db db"
  by (simp add: letters_only_def)

lemma letters_only_update [simp]: "letters_only db (db\<lparr>dlq_table := t\<rparr>)"
  by (simp add: letters_only_def)

lemma letters_only_trans: "letters_only a b \<Longrightarrow> letters_only b c \<Longrightarrow> letters_only a c"
  unfolding letters_only_def by (metis (no_types) tide_db.surjective tide_db.update_convs(12))

lemma letters_only_simps:
  "letters_only db db' \<Longrightarrow> relay_offsets db' = relay_offsets db"
  "letters_only db db' \<Longrightarrow> outbox_messages db' = outbox_messages db"
  "letters_only db db' \<Longrightarrow> relay_configs db' = relay_configs db"
  unfolding letters_only_def by (metis tide_db.select_convs tide_db.surjective tide_db.update_convs(12))+

text \<open>The cursor after a batch: moved to the checkpoint exactly when the commit stage was reached.\<close>

definition replay_effect :: "int \<Rightarrow> 's world \<Rightarrow> 's world \<Rightarrow> stage list \<Rightarrow> bool" where
  "replay_effect off w w' st \<longleftrightarrow>
     letters_only (w_db w) (w_db w')
   \<and> (\<exists>q. w_source w' = (w_source w)\<lparr>
        s_last_offset := (if StCheckpointCommitted \<in> set st then max (s_last_offset (w_source w)) off
                          else s_last_offset (w_source w)), s_pending := q\<rparr>)"

lemma replay_effect_idle:
  "StCheckpointCommitted \<notin> set st \<Longrightarrow> w_source w' = w_source w \<Longrightarrow> letters_only (w_db w) (w_db w') \<Longrightarrow>
   replay_effect off w w' st"
  unfolding replay_effect_def by (intro conjI exI [of _ "s_pending (w_source w)"]) simp_all

lemma acknowledge_replay_cursor:
  assumes "replaying s" "ack_token m = OutboxOffset off" "acknowledge env m s db = (s', db', r)"
  shows "db' = db \<and> r = Inr [] \<and> s' = s\<lparr>s_last_offset := max (s_last_offset s) off, s_pending := []\<rparr>"
  using assms by (auto simp: acknowledge_def replaying_def)

lemma finish_batch_replay:
  assumes "replaying (w_source w)" "ack_token m = OutboxOffset off" "finish_batch env (Some m) w = (w', st, r)"
  shows "replay_effect off w w' st"
proof (cases "hit (se_failpoint (ie_source env)) ''before_checkpoint_commit''")
  case (Inl e)
  with assms(3) show ?thesis by (auto simp: finish_batch_def commit_checkpoint_def intro!: replay_effect_idle)
next
  case (Inr u)
  obtain s1 d1 r1 where a: "acknowledge (ie_source env) m (w_source w) (w_db w) = (s1, d1, r1)"
    using prod_cases3 by blast
  with acknowledge_replay_cursor [OF assms(1,2) a] Inr assms(3) show ?thesis
    by (auto simp: finish_batch_def commit_checkpoint_def replay_effect_def)
qed

text \<open>A batch is finished from a world that only differs in the sink, the counters and dead letters.\<close>

lemma replay_effect_cong:
  assumes "replay_effect off v w' st" "w_source v = w_source w" "letters_only (w_db w) (w_db v)"
  shows "replay_effect off w w' st"
  using assms letters_only_trans unfolding replay_effect_def by auto

lemma replay_effect_stages:
  "replay_effect off w w' st \<Longrightarrow> (StCheckpointCommitted \<in> set st' \<longleftrightarrow> StCheckpointCommitted \<in> set st) \<Longrightarrow> replay_effect off w w' st'"
  by (simp add: replay_effect_def)

lemma replay_effect_world:
  "replay_effect off w w' st \<Longrightarrow> w_source v = w_source w' \<Longrightarrow> w_db v = w_db w' \<Longrightarrow> replay_effect off w v st"
  by (simp add: replay_effect_def)

lemma finish_batch_replay':
  assumes "replaying (w_source w)" "ack_token m = OutboxOffset off" "finish_batch env (Some m) v = (w', st, r)"
    and "w_source v = w_source w" "letters_only (w_db w) (w_db v)"
  shows "replay_effect off w w' st"
  using replay_effect_cong [OF finish_batch_replay [of v m off env w' st r]] assms by simp

lemma route_to_dlq_letters: "route_to_dlq f es db = (db', out) \<Longrightarrow> letters_only db db'"
  by (auto simp: route_to_dlq_def split: prod.splits)


lemma handle_directive_replay:
  assumes r: "replaying (w_source w)" "ack_token m = OutboxOffset off"
    and h: "handle_directive cfg env ms (Some m) outcome d w = (w', st, res)"
  shows "replay_effect off w w' st"
proof -
  define w1 where "w1 = (case outcome of PublishFailure _ \<Rightarrow> w\<lparr>w_healthy := False\<rparr> | _ \<Rightarrow> w)"
  have w1: "w_source w1 = w_source w" "w_db w1 = w_db w" by (cases outcome; simp add: w1_def)+
  show ?thesis
  proof (cases d)
    case Continue
    show ?thesis
    proof (cases "hit (se_failpoint (ie_source env)) ''after_sink_ack''")
      case (Inl e)
      with h Continue show ?thesis by (auto simp: handle_directive_def intro!: replay_effect_idle)
    next
      case (Inr u)
      obtain v st0 r0 where f: "finish_batch env (Some m) w = (v, st0, r0)" by (metis prod_cases3)
      have "replay_effect off w v st0" by (rule finish_batch_replay [OF r f])
      with h Continue Inr f show ?thesis
        by (cases r0) (auto simp: handle_directive_def replay_effect_def)
    qed
  next
    case (RouteToDlq reason kind)
    let ?es = "dlq_entries cfg reason kind ms"
    obtain db out where q: "route_to_dlq (ie_dlq env) ?es (w_db w1) = (db, out)" by fastforce
    note letters = route_to_dlq_letters [OF q, unfolded w1]
    obtain v st0 r0 where f: "finish_batch env (Some m) (w1\<lparr>w_db := db\<rparr>) = (v, st0, r0)" by (metis prod_cases3)
    have e: "replay_effect off w v st0"
      by (rule finish_batch_replay' [OF r f]) (simp_all add: w1 letters)
    have done': "replay_effect off w v (StDlqPersisted # st0)"
      "replay_effect off w (v\<lparr>w_failures := 0\<rparr>) (StDlqPersisted # st0)"
      using e by (simp_all add: replay_effect_def)
    have idle: "replay_effect off w w1 []" "replay_effect off w (w1\<lparr>w_db := db\<rparr>) []"
      "replay_effect off w (w1\<lparr>w_db := db\<rparr>) [StDlqPersisted]"
      using letters by (simp_all add: replay_effect_idle w1)
    show ?thesis
      using h RouteToDlq q f done' idle
      unfolding handle_directive_def Let_def w1_def [symmetric]
      by (cases "hit (se_failpoint (ie_source env)) ''during_dlq_write''"; cases out;
          cases "hit (se_failpoint (ie_source env)) ''after_dlq_commit''"; cases r0) auto
  next
    case (BackoffMs k)
    with h w1 show ?thesis
      unfolding handle_directive_def Let_def w1_def [symmetric] by (auto intro!: replay_effect_idle)
  next
    case (Shutdown e)
    with h show ?thesis by (auto simp: handle_directive_def intro!: replay_effect_idle)
  qed
qed


lemma publish_batch_replay:
  assumes "replaying (w_source w)" "ack_token m = OutboxOffset off"
    and "publish_batch publish cfg env ms (Some m) w = (w', st, res)"
  shows "replay_effect off w w' st"
proof -
  obtain s' cb out where o: "(case validate_publish_limits (ie_encode env) (wc_pipeline cfg) ms of
           Inr _ \<Rightarrow> publish_with_circuit_breaker publish (ie_publish env) (ie_clock env) ms (w_sink w) (w_breaker w)
         | Inl e \<Rightarrow> (w_sink w, w_breaker w, PublishFailure e)) = (s', cb, out)" by (metis prod_cases3)
  obtain n d where n: "handle_publish_outcome out (w_failures w) (wc_dlq cfg) (wc_poll_interval cfg) = (n, d)" by fastforce
  let ?v = "w\<lparr>w_sink := s', w_breaker := cb, w_failures := n\<rparr>"
  obtain u st0 r0 where h: "handle_directive cfg env ms (Some m) out d ?v = (u, st0, r0)" by (metis prod_cases3)
  have "replay_effect off ?v u st0" by (rule handle_directive_replay [OF _ _ h]) (use assms in simp_all)
  then have "replay_effect off w u st0" by (rule replay_effect_cong) simp_all
  then have "replay_effect off w u (StPublishStarted # st0)" by (rule replay_effect_stages) simp
  moreover have "w' = u \<and> st = StPublishStarted # st0"
    using assms(3) o n h by (simp add: publish_batch_def)
  ultimately show ?thesis by simp
qed

lemma process_batch_replay:
  assumes r: "replaying (w_source w)" "ack_token m = OutboxOffset off"
    and p: "process_batch publish cfg env ms (Some m) w = (w', st, res)"
  shows "replay_effect off w w' st"
proof -
  obtain v st0 r0 where f: "finish_batch env (Some m) w = (v, st0, r0)" by (metis prod_cases3)
  obtain u st1 r1 where b: "publish_batch publish cfg env ms (Some m) w = (u, st1, r1)" by (metis prod_cases3)
  have "replay_effect off w v st0" by (rule finish_batch_replay [OF r f])
  then have fin: "replay_effect off w v (StPolled # StFiltered # st0)" "replay_effect off w v (StPolled # StEncoded # StDryRun # st0)"
    by (simp_all add: replay_effect_def)
  have pub: "replay_effect off w u (StPolled # StEncoded # st1)"
    using publish_batch_replay [OF r b] by (simp add: replay_effect_def)
  have idle: "replay_effect off w w []" "replay_effect off w w [StPolled]" "replay_effect off w w [StPolled, StEncoded]"
    by (simp_all add: replay_effect_idle)
  show ?thesis
    using p f b fin pub idle unfolding process_batch_def Let_def
    by (cases r0) (auto split: sum.splits if_splits)
qed

section \<open>One iteration\<close>

text \<open>
  An iteration keeps the mode and the tables; a committed batch moves the cursor past an id of the
  range, from below its end.
\<close>

lemma filter_replay_mem:
  "m \<in> set (filter_replay_batch (Some f) (Some t) ms) \<longleftrightarrow> m \<in> set ms \<and> f \<le> unwrap_or (outbox_id m) 0 \<and> unwrap_or (outbox_id m) 0 \<le> t"
  by (auto simp: filter_replay_batch_def Let_def)

lemma polled_outbox_ids:
  assumes "s_consumer s = None" "poll env n s db = (s', db', Inr ms)" "m \<in> set ms"
  shows "s_last_offset s < unwrap_or (outbox_id m) 0"
proof -
  from poll_simple(3) [OF assms(1,2)] assms(3) obtain row where
    "row \<in> set (polled_rows n s db)" "message_of (s_outbox s) row m"
    by (metis in_set_conv_nth list_all2_conv_all_nth)
  then show ?thesis
    by (auto simp: message_of_def polled_rows_def dest!: in_set_takeD)
qed


definition replay_step :: "int \<Rightarrow> 's world \<Rightarrow> 's world \<Rightarrow> stage list \<Rightarrow> bool" where
  "replay_step t w w' st \<longleftrightarrow>
     letters_only (w_db w) (w_db w') \<and> replaying (w_source w') \<and> s_outbox (w_source w') = s_outbox (w_source w)
   \<and> (if StCheckpointCommitted \<in> set st
      then s_last_offset (w_source w) < t \<and> s_last_offset (w_source w) < s_last_offset (w_source w')
      else s_last_offset (w_source w') = s_last_offset (w_source w))"

lemma poll_batch_replay:
  assumes r: "replaying src" and p: "poll_and_decode env n (Some (f, t)) src db = (src', db', PollBatch ms (Some m))"
  shows "\<exists>off q. db' = db \<and> src' = src\<lparr>s_pending := q\<rparr> \<and> ack_token m = OutboxOffset off
     \<and> s_last_offset src < off \<and> s_last_offset src < t"
proof -
  obtain s1 d1 res where po: "poll env n src db = (s1, d1, res)" by (metis prod_cases3)
  have c: "s_consumer src = None" using r by (simp add: replaying_def)
  from p po obtain all' where all': "res = Inr all'" "all' \<noteq> []" "filter_replay_batch (Some f) (Some t) all' \<noteq> []"
    "m = last all'" "src' = s1" "db' = d1"
    by (auto simp: poll_and_decode_def Let_def split: sum.splits if_splits)
  obtain x where "x \<in> set (filter_replay_batch (Some f) (Some t) all')" using all'(3) by fastforce
  then have "x \<in> set all'" "unwrap_or (outbox_id x) 0 \<le> t" by (simp_all add: filter_replay_mem)
  with polled_outbox_ids [OF c] po all'(1) have "s_last_offset src < t" by fastforce
  with poll_last_ack [OF c] poll_state [OF c] po all' show ?thesis by fastforce
qed

lemma iteration_replay:
  assumes r: "replaying (w_source w)" and c: "wc_replay cfg = Some (f, t)"
    and i: "iteration publish cfg env w = (w', st, res)"
  shows "replay_step t w w' st"
proof (cases "ie_stop env")
  case True
  with i r show ?thesis by (auto simp: iteration_def replay_step_def split: sum.splits)
next
  case False
  obtain src db out where p: "poll_and_decode (ie_source env) (wc_batch_size cfg) (Some (f, t)) (w_source w) (w_db w) = (src, db, out)"
    by (metis prod_cases3)
  have same: "db = w_db w \<and> (\<exists>q. src = (w_source w)\<lparr>s_pending := q\<rparr>)"
    using r p poll_state [of "w_source w" "ie_source env" "wc_batch_size cfg" "w_db w"]
    by (auto simp: poll_and_decode_def replaying_def split: prod.splits)
  then obtain q where q: "db = w_db w" "src = (w_source w)\<lparr>s_pending := q\<rparr>" by blast
  show ?thesis
  proof (cases out)
    case (PollBatch ms cp)
    then obtain m where m: "cp = Some m"
      using p by (auto simp: poll_and_decode_def Let_def split: prod.splits sum.splits if_splits)
    from poll_batch_replay [OF r] p PollBatch m obtain off where
      off: "ack_token m = OutboxOffset off" "s_last_offset (w_source w) < off" "s_last_offset (w_source w) < t"
      by blast
    let ?v = "w\<lparr>w_source := src, w_db := db, w_backoff := wc_poll_interval cfg\<rparr>"
    have "process_batch publish cfg env ms (Some m) ?v = (w', st, res)"
      using i False p PollBatch m c by (simp add: iteration_def)
    from process_batch_replay [OF _ off(1) this] r q
    have e: "replay_effect off ?v w' st" by (simp add: replaying_def)
    then show ?thesis using off q r
      by (auto simp: replay_effect_def replay_step_def replaying_def)
  qed (use i False p c q r in \<open>auto simp: iteration_def replay_step_def replaying_def Let_def split: if_splits\<close>)
qed

lemma worker_loop_replay:
  assumes "replaying (w_source w)" "wc_replay cfg = Some (f, t)" "worker_loop publish cfg envs w = (w', res)"
  shows "letters_only (w_db w) (w_db w') \<and> replaying (w_source w')"
  using assms(1,3)
proof (induction envs arbitrary: w)
  case (Cons e es)
  obtain v st r where i: "iteration publish cfg e w = (v, st, r)" by (metis prod_cases3)
  from iteration_replay [OF Cons.prems(1) assms(2) i]
  have v: "letters_only (w_db w) (w_db v)" "replaying (w_source v)" by (simp_all add: replay_step_def)
  show ?case
  proof (cases r)
    case (LoopAgain d)
    with Cons.prems(2) i have "worker_loop publish cfg es v = (w', res)" by simp
    from Cons.IH [OF v(2) this] v letters_only_trans show ?thesis by blast
  qed (use Cons.prems(2) i v in auto)
qed simp

section \<open>A replay ends\<close>

text \<open>The iterations of a run that commit a checkpoint.\<close>

fun replay_commits ::
    "('env \<Rightarrow> relay_message list \<Rightarrow> 's \<Rightarrow> 's \<times> (relay_error + unit)) \<Rightarrow> worker_config \<Rightarrow> 'env iter_env list \<Rightarrow>
       's world \<Rightarrow> nat" where
  "replay_commits publish cfg [] w = 0"
| "replay_commits publish cfg (e # es) w =
     (case iteration publish cfg e w of
        (w', st, res) \<Rightarrow>
          (if StCheckpointCommitted \<in> set st then 1 else 0)
          + (case res of LoopAgain _ \<Rightarrow> replay_commits publish cfg es w' | _ \<Rightarrow> 0))"

lemma replay_commits_bound:
  assumes "replaying (w_source w)" "wc_replay cfg = Some (f, t)"
  shows "replay_commits publish cfg envs w \<le> nat (t - s_last_offset (w_source w))"
  using assms(1)
proof (induction envs arbitrary: w)
  case (Cons e es)
  obtain v st r where i: "iteration publish cfg e w = (v, st, r)" by (metis prod_cases3)
  from iteration_replay [OF Cons.prems assms(2) i] have s: "replay_step t w v st" .
  then have "replay_commits publish cfg es v \<le> nat (t - s_last_offset (w_source v))"
    by (intro Cons.IH) (simp add: replay_step_def)
  with s i show ?case
    by (cases r) (auto simp: replay_step_def split: if_splits)
qed simp

lemma clean_finish_batch:
  assumes "replaying (w_source w)" "clean_source (ie_source env)" "ack_token m = OutboxOffset off"
  shows "\<exists>w'. finish_batch env (Some m) w = (w', [StCheckpointCommitted], Inr ()) \<and> w_breaker w' = w_breaker w"
proof -
  obtain s1 d1 r1 where a: "acknowledge (ie_source env) m (w_source w) (w_db w) = (s1, d1, r1)"
    using prod_cases3 by blast
  with acknowledge_replay_cursor [OF assms(1,3) a] assms(2) show ?thesis
    by (simp add: finish_batch_def commit_checkpoint_def clean_source_def hit_def)
qed

text \<open>What a replay needs to run without a fault: whole rows and a breaker that is closed.\<close>

definition replay_ready :: "worker_config \<Rightarrow> 's world \<Rightarrow> bool" where
  "replay_ready cfg w \<longleftrightarrow> replaying (w_source w) \<and> 0 < wc_batch_size cfg \<and> cb_state (w_breaker w) = Closed
     \<and> (\<forall>r \<in> set (outbox_messages (w_db w)). \<not> is_claim_check (row_payload r))"

lemma clean_publish_commits:
  assumes "replay_ready cfg w" "fault_free publish cfg env" "ack_token m = OutboxOffset off"
    and "length ms \<le> nat (wc_batch_size cfg)"
  shows "\<exists>w' st. publish_batch publish cfg env ms (Some m) w = (w', st, LoopAgain 0)
    \<and> StCheckpointCommitted \<in> set st \<and> cb_state (w_breaker w') = Closed"
proof -
  obtain s1 r1 where p: "publish (ie_publish env) ms (w_sink w) = (s1, r1)" by fastforce
  with assms(2) have "r1 = Inr ()" unfolding fault_free_def by (metis snd_conv)
  with p have p: "publish (ie_publish env) ms (w_sink w) = (s1, Inr ())" by simp
  define cb where "cb = record_success (w_breaker w)"
  have closed: "cb_state (w_breaker w) = Closed" using assms(1) by (simp add: replay_ready_def)
  then have cb: "cb_state cb = Closed" by (simp add: cb_def record_success_def)
  have b: "publish_with_circuit_breaker publish (ie_publish env) (ie_clock env) ms (w_sink w) (w_breaker w) = (s1, cb, PublishOk)"
    using closed p by (simp add: publish_with_circuit_breaker_def should_allow_def cb_def)
  have lim: "validate_publish_limits (ie_encode env) (wc_pipeline cfg) ms = Inr ()"
    and cs: "clean_source (ie_source env)" using assms(2,4) by (simp_all add: fault_free_def)
  have h: "hit (se_failpoint (ie_source env)) x = Inr ()" for x using cs by (simp add: clean_source_def hit_def)
  let ?v = "w\<lparr>w_sink := s1, w_breaker := cb, w_failures := 0\<rparr>"
  have "replaying (w_source ?v)" using assms(1) by (simp add: replay_ready_def)
  from clean_finish_batch [OF this cs assms(3)] obtain w' where
    f: "finish_batch env (Some m) ?v = (w', [StCheckpointCommitted], Inr ())" "w_breaker w' = cb" by auto
  show ?thesis
    using lim b f cb h by (simp add: publish_batch_def handle_publish_outcome_def handle_directive_def)
qed

lemma clean_replay_iteration:
  assumes r: "replay_ready cfg w" and c: "wc_replay cfg = Some (f, t)" and ff: "fault_free publish cfg env"
  shows "\<exists>w' st res. iteration publish cfg env w = (w', st, res) \<and>
     (res = LoopBreak \<or> (res = LoopAgain 0 \<and> StCheckpointCommitted \<in> set st \<and> cb_state (w_breaker w') = Closed))"
proof -
  let ?n = "wc_batch_size cfg" and ?s = "w_source w"
  have cs: "clean_source (ie_source env)" and st: "\<not> ie_stop env" using ff by (simp_all add: fault_free_def)
  have rp: "replaying ?s" and n: "0 < ?n" using r by (simp_all add: replay_ready_def)
  then have cons: "s_consumer ?s = None" by (simp add: replaying_def)
  have plain: "\<forall>r \<in> set (polled_rows ?n ?s (w_db w)). \<not> is_claim_check (row_payload r)"
    using r by (auto simp: replay_ready_def polled_rows_def dest!: in_set_takeD)
  obtain q ms where poll: "poll (ie_source env) ?n ?s (w_db w) = (?s\<lparr>s_pending := q\<rparr>, w_db w, Inr ms)"
    and ms: "list_all2 (message_of (s_outbox ?s)) (polled_rows ?n ?s (w_db w)) ms"
    using clean_poll [OF cons cs n plain] by blast
  define ms' where "ms' = filter_replay_batch (Some f) (Some t) ms"
  show ?thesis
  proof (cases "ms' = []")
    case True
    then have "ms = [] \<or> filter_replay_batch (Some f) (Some t) ms = []" by (simp add: ms'_def)
    with poll c st show ?thesis by (auto simp: iteration_def poll_and_decode_def Let_def)
  next
    case False
    then have ne: "ms \<noteq> []" by (auto simp: ms'_def filter_replay_batch_def)
    obtain off where ack: "ack_token (last ms) = OutboxOffset off"
      using poll_last_ack [OF cons poll ne] by blast
    have "length ms \<le> nat ?n" using list_all2_lengthD [OF ms] by (simp add: polled_rows_def)
    then have len: "length ms' \<le> nat ?n" unfolding ms'_def filter_replay_batch_def
      by (meson length_filter_le order_trans)
    let ?v = "w\<lparr>w_source := ?s\<lparr>s_pending := q\<rparr>, w_backoff := wc_poll_interval cfg\<rparr>"
    have v: "replay_ready cfg ?v" using r by (simp add: replay_ready_def replaying_def)
    have it: "iteration publish cfg env w = process_batch publish cfg env ms' (Some (last ms)) ?v"
      using poll ne c st False by (simp add: iteration_def poll_and_decode_def ms'_def)
    have h: "hit (se_failpoint (ie_source env)) x = Inr ()" for x using cs by (simp add: clean_source_def hit_def)
    obtain u where u: "finish_batch env (Some (last ms)) ?v = (u, [StCheckpointCommitted], Inr ())" "w_breaker u = w_breaker w"
      using clean_finish_batch [of ?v env "last ms" off] v cs ack by (auto simp: replay_ready_def)
    obtain x stx where x: "publish_batch publish cfg env ms' (Some (last ms)) ?v = (x, stx, LoopAgain 0)"
      "StCheckpointCommitted \<in> set stx" "cb_state (w_breaker x) = Closed"
      using clean_publish_commits [OF v ff ack len] by blast
    have closed: "cb_state (w_breaker w) = Closed" using r by (simp add: replay_ready_def)
    show ?thesis unfolding it process_batch_def Let_def
      using False h u x closed by simp
  qed
qed

section \<open>The command\<close>

text \<open>\<open>read_live_checkpoint\<close>: the largest offset of any relay group, 0 when there is none.\<close>

definition read_live_checkpoint :: "string \<Rightarrow> string \<Rightarrow> tide_db \<Rightarrow> int" where
  "read_live_checkpoint pipeline ob db =
     (case max_opt (map last_change_id
              (filter (\<lambda>r. ro_pipeline r = pipeline \<and> ro_outbox r = ob) (relay_offsets db))) of
        None \<Rightarrow> 0 | Some v \<Rightarrow> v)"

record replay_fate =
  rf_connection :: "relay_error option"
  rf_row_query :: "pg_error option"
  rf_before :: "pg_error option"
  rf_source :: "pg_error option"
  rf_metrics :: "relay_error option"
  rf_after :: "pg_error option"

definition replay_pipeline :: "string \<Rightarrow> relay_config_row \<Rightarrow> pipeline_config" where
  "replay_pipeline name row =
     \<lparr> pc_name = name, pc_direction = Forward, pc_enabled = rc_enabled row, pc_config = rc_config row,
       pc_tenant = rc_tenant row \<rparr>"

text \<open>What \<open>run_replay_once\<close> checks before it starts the worker: the pipeline, its outbox, the checkpoint.\<close>

definition prepare_replay ::
    "schema_env \<Rightarrow> replay_fate \<Rightarrow> string \<Rightarrow> int \<Rightarrow> int \<Rightarrow> int \<Rightarrow> tide_db \<Rightarrow>
       relay_error + pipeline_config \<times> string \<times> int" where
  "prepare_replay schema fate name f t batch db =
     and_then (ensure (0 \<le> f \<and> f \<le> t \<and> 1 \<le> batch \<and> batch \<le> 10000)
       (InvalidConfig name ''replay range must satisfy 0 <= from-id <= to-id and batch-size 1..=10000'')) (\<lambda>_.
     and_then (case rf_connection fate of None \<Rightarrow> Inr () | Some e \<Rightarrow> Inl e) (\<lambda>_.
     and_then (stmt (rf_row_query fate)) (\<lambda>_.
     and_then (ok_or (map_of (relay_configs db) name) (PipelineNotFound name)) (\<lambda>row.
     let p = replay_pipeline name row in
     and_then (ensure (pc_enabled p) (InvalidConfig name ''pipeline is disabled'')) (\<lambda>_.
     and_then (validate_pipeline schema p) (\<lambda>_.
     and_then (require_str p [''source'', ''outbox'']) (\<lambda>ob.
     and_then (stmt (rf_before fate)) (\<lambda>_.
     and_then (case rf_metrics fate of None \<Rightarrow> Inr () | Some e \<Rightarrow> Inl e) (\<lambda>_.
       Inr (p, ob, read_live_checkpoint name ob db))))))))))"

definition changed_checkpoint :: "string \<Rightarrow> int \<Rightarrow> int \<Rightarrow> relay_error" where
  "changed_checkpoint name before after =
     Other (''replay changed live checkpoint for pipeline '' @ quoted name @ '': '' @ show_int before
            @ '' -> '' @ show_int after)"

text \<open>The comparison after the worker returned.\<close>

definition conclude_replay :: "replay_fate \<Rightarrow> string \<Rightarrow> string \<Rightarrow> int \<Rightarrow> tide_db \<Rightarrow> relay_error + int \<times> int" where
  "conclude_replay fate name ob before db =
     and_then (stmt (rf_after fate)) (\<lambda>_.
     let after = read_live_checkpoint name ob db in
     if after \<noteq> before then Inl (changed_checkpoint name before after) else Inr (before, after))"

text \<open>
  \<open>run_replay_once\<close> over the environments its worker meets: the final database, and the result unless
  the worker is still running when the environments end.
\<close>

definition run_replay_once ::
    "('env \<Rightarrow> relay_message list \<Rightarrow> 's \<Rightarrow> 's \<times> (relay_error + unit)) \<Rightarrow> schema_env \<Rightarrow> (string \<Rightarrow> string option) \<Rightarrow>
       replay_fate \<Rightarrow> string \<Rightarrow> int \<Rightarrow> int \<Rightarrow> int \<Rightarrow> string \<Rightarrow> relay_error + 's \<Rightarrow> 'env iter_env list \<Rightarrow> tide_db \<Rightarrow>
       tide_db \<times> (relay_error + int \<times> int) option" where
  "run_replay_once publish schema set_role fate name f t batch sink_name sink envs db =
     (case prepare_replay schema fate name f t batch db of
        Inl e \<Rightarrow> (db, Some (Inl e))
      | Inr (p, ob, before) \<Rightarrow>
          (case worker_inner publish set_role (rf_source fate) ''replay'' p (''replay:'' @ name) sink_name batch (Some (f, t))
                  sink envs db of
             Inl e \<Rightarrow> (db, Some (Inl e))
           | Inr (w, res) \<Rightarrow>
               (w_db w,
                case res of
                  LoopAgain _ \<Rightarrow> None
                | LoopError e \<Rightarrow> Some (Inl e)
                | LoopBreak \<Rightarrow> Some (conclude_replay fate name ob before (w_db w)))))"

lemma read_live_checkpoint_letters: "letters_only db db' \<Longrightarrow> read_live_checkpoint p ob db' = read_live_checkpoint p ob db"
  by (simp add: read_live_checkpoint_def letters_only_simps)

lemma built_source_simple: "build_source e worker p grp db = Inr s \<Longrightarrow> configure_replay f s = Inr s' \<Longrightarrow>
   replaying s' \<and> s_last_offset s' = max i64_min (f - 1)"
  by (auto simp: configure_replay_def replaying_def split: if_splits)

lemma worker_inner_replay:
  assumes "worker_inner publish set_role le worker p grp sink_name batch (Some (f, t)) sink envs db = Inr (w, res)"
  shows "letters_only db (w_db w)"
proof -
  from assms obtain cfg src0 src s where c: "worker_config_of set_role p grp sink_name batch (Some (f, t)) = Inr cfg"
    "build_source le worker p grp db = Inr src0" "configure_replay f src0 = Inr src"
    and l: "worker_loop publish cfg envs (start_world cfg src db s) = (w, res)"
    by (auto simp: worker_inner_def and_then_Inr_iff)
  have "wc_replay cfg = Some (f, t)" using c(1) by (auto simp: worker_config_of_def and_then_Inr_iff)
  with worker_loop_replay [OF _ this l] built_source_simple [OF c(2,3)] show ?thesis
    by (simp add: start_world_def)
qed

section \<open>Properties\<close>


text \<open>
  Whatever fails, a replay commits a checkpoint at most once for each id of its range: the number of
  its batches does not depend on what is published meanwhile.
\<close>

lemma replay_commits_at_most_range:
  assumes "replaying (w_source w)" "wc_replay cfg = Some (f, t)" "s_last_offset (w_source w) = f - 1"
  shows "replay_commits publish cfg envs w \<le> nat (t - f + 1)"
  using replay_commits_bound [OF assms(1,2), of publish envs] assms(3) by (simp add: algebra_simps)

text \<open>
  C10: A replay terminates: without faults its loop breaks, after at most one iteration for each id of
  its range and one more that finds nothing left.
\<close>

theorem replay_terminates:
  assumes "replay_ready cfg w" "wc_replay cfg = Some (f, t)"
    and "\<forall>env \<in> set envs. fault_free publish cfg env"
    and "nat (t - s_last_offset (w_source w)) < length envs"
  shows "\<exists>w'. worker_loop publish cfg envs w = (w', LoopBreak) \<and> letters_only (w_db w) (w_db w')"
  using assms(1,3,4)
proof (induction envs arbitrary: w)
  case (Cons e es)
  from clean_replay_iteration [OF Cons.prems(1) assms(2), of publish e] Cons.prems(2)
  obtain v st res where i: "iteration publish cfg e w = (v, st, res)"
    and res: "res = LoopBreak \<or> (res = LoopAgain 0 \<and> StCheckpointCommitted \<in> set st \<and> cb_state (w_breaker v) = Closed)"
    by auto
  have rp: "replaying (w_source w)" using Cons.prems(1) by (simp add: replay_ready_def)
  from iteration_replay [OF rp assms(2) i] have s: "replay_step t w v st" .
  then have l: "letters_only (w_db w) (w_db v)" by (simp add: replay_step_def)
  show ?case
  proof (cases "res = LoopBreak")
    case True
    with i l show ?thesis by simp
  next
    case False
    with res have c: "res = LoopAgain 0" "StCheckpointCommitted \<in> set st" "cb_state (w_breaker v) = Closed" by auto
    with s have m: "s_last_offset (w_source w) < t" "s_last_offset (w_source w) < s_last_offset (w_source v)"
      by (simp_all add: replay_step_def)
    have "replay_ready cfg v"
      using Cons.prems(1) s c l by (simp add: replay_ready_def replay_step_def letters_only_simps)
    moreover have "nat (t - s_last_offset (w_source v)) < length es" using m Cons.prems(3) by simp
    ultimately obtain w' where "worker_loop publish cfg es v = (w', LoopBreak)" "letters_only (w_db v) (w_db w')"
      using Cons.IH [of v] Cons.prems(2) by auto
    with i c l letters_only_trans show ?thesis by auto
  qed
qed simp

end
