(* ===== verification/Poison_Row.thy ===== *)
theory Poison_Row
  imports Worker_Safety
begin

text \<open>
  A claim-check row whose marker names no large object: what decoding it does to the pipeline that
  has to deliver it.
\<close>

definition broken_claim :: "json \<Rightarrow> bool" where
  "broken_claim pl \<longleftrightarrow> is_claim_check pl \<and>
     (case Option.bind (json_get pl ''oid'') as_str of None \<Rightarrow> True | Some s \<Rightarrow> parse_i64 s = None)"

lemma broken_claim_undecodable:
  "broken_claim pl \<Longrightarrow> \<exists>e. decode_payload env pl i = Inl e \<and> is_transient e"
  by (auto simp: broken_claim_def decode_payload_def split: option.splits)

text \<open>A failing head fails the whole batch.\<close>

lemma decode_broken_head:
  assumes "broken_claim (row_payload r)"
  shows "\<exists>q e. decode_native_rows env name tm (r # rs) p = (q, Inl e) \<and> is_transient e"
  using broken_claim_undecodable [OF assms, of env "row_id r"] by (auto simp: Let_def)

lemma poll_broken_head:
  assumes "s_consumer s = None" "0 < n" "rows_after (s_outbox s) (s_last_offset s) db = r # rs" "broken_claim (row_payload r)"
  shows "\<exists>q e. poll env n s db = (s\<lparr>s_pending := q\<rparr>, db, Inl e)"
proof (cases "fenced_native_rows env (s_outbox s) (s_last_offset s) n db")
  case (Inl e)
  with assms(1) show ?thesis by (auto simp: poll_def poll_simple_native_def)
next
  case (Inr rows)
  have "rows = r # take (nat n - 1) rs"
    using fenced_native_rows_Inr [OF Inr] assms(2,3) by (cases "nat n") auto
  with Inr decode_broken_head [OF assms(4), of env "s_outbox s" "s_template s" "take (nat n - 1) rs" "[]"] assms(1)
  show ?thesis by (auto simp: poll_def poll_simple_native_def)
qed

definition stalled :: "'s world \<Rightarrow> 's world \<Rightarrow> bool" where
  "stalled w w' \<longleftrightarrow> w_db w' = w_db w \<and> w_sink w' = w_sink w \<and> (\<exists>q. w_source w' = (w_source w)\<lparr>s_pending := q\<rparr>)"

lemma stalled_trans: "stalled a b \<Longrightarrow> stalled b c \<Longrightarrow> stalled a c"
  by (auto simp: stalled_def)

lemma stalled_refl [simp]: "stalled w w"
  by (auto simp: stalled_def intro: exI [of _ "s_pending (w_source w)"])

definition poisoned :: "worker_config \<Rightarrow> 's world \<Rightarrow> bool" where
  "poisoned cfg w \<longleftrightarrow> live (w_source w) \<and> 0 < wc_batch_size cfg
     \<and> (\<exists>r rs. rows_after (s_outbox (w_source w)) (s_last_offset (w_source w)) (w_db w) = r # rs
              \<and> broken_claim (row_payload r))"

lemma poisoned_stalled: "poisoned cfg w \<Longrightarrow> stalled w w' \<Longrightarrow> poisoned cfg w'"
  by (auto simp: poisoned_def stalled_def live_def)

lemma iteration_poisoned:
  assumes "poisoned cfg w" "iteration publish cfg env w = (w', st, res)"
  shows "stalled w w' \<and> st = []"
proof -
  obtain q e where p: "poll (ie_source env) (wc_batch_size cfg) (w_source w) (w_db w) =
      ((w_source w)\<lparr>s_pending := q\<rparr>, w_db w, Inl e)"
    using assms(1) poll_broken_head [of "w_source w" "wc_batch_size cfg" "w_db w"]
    unfolding poisoned_def live_def by blast
  show ?thesis
  proof (cases "ie_stop env")
    case True
    with assms(2) show ?thesis by (auto simp: iteration_def)
  next
    case False
    with assms(2) p show ?thesis
      by (auto simp: iteration_def poll_and_decode_def Let_def stalled_def split: if_splits)
  qed
qed

lemma poisoned_loop_stalls:
  assumes "poisoned cfg w" "worker_loop publish cfg envs w = (w', res)"
  shows "stalled w w' \<and> poisoned cfg w'"
  using assms
proof (induction envs arbitrary: w)
  case (Cons e es)
  obtain v st r where i: "iteration publish cfg e w = (v, st, r)" by (metis prod_cases3)
  have v: "stalled w v" "poisoned cfg v"
    using iteration_poisoned [OF Cons.prems(1) i] poisoned_stalled [OF Cons.prems(1)] by auto
  have end': "stalled w (v\<lparr>w_healthy := False\<rparr>)" "poisoned cfg (v\<lparr>w_healthy := False\<rparr>)"
    using v by (simp_all add: stalled_def poisoned_def)
  show ?case
  proof (cases r)
    case (LoopAgain d)
    with Cons.prems(2) i have "worker_loop publish cfg es v = (w', res)" by simp
    from Cons.IH [OF v(2) this] v(1) stalled_trans show ?thesis by blast
  qed (use Cons.prems(2) i end' in auto)
qed simp

text \<open>
  A claim-check row without a readable object id stops its pipeline for good: however long the worker
  runs, it delivers nothing, writes no dead letter and never moves past the row.
\<close>

lemma broken_claim_check_stalls_pipeline:
  assumes "poisoned cfg w" "worker_loop publish cfg envs w = (w', res)"
  shows "w_db w' = w_db w \<and> w_sink w' = w_sink w \<and> s_last_offset (w_source w') = s_last_offset (w_source w)
    \<and> poisoned cfg w'"
  using poisoned_loop_stalls [OF assms] by (auto simp: stalled_def)

definition claim_marker :: json where
  "claim_marker = JObj [(''_cc'', JBool True)]"

lemma claim_marker_broken: "broken_claim claim_marker"
  by (simp add: broken_claim_def claim_marker_def is_claim_check_def)

text \<open>
  C8: Nothing keeps a publisher from publishing the claim-check marker as an ordinary payload: one such
  row, once everything before it is delivered, stops every live pipeline of the outbox.
\<close>

theorem published_marker_stalls_pipeline:
  assumes "outbox_publish f auth now ob claim_marker hs db = Inr db'"
    and "live (w_source w)" "s_outbox (w_source w) = ob" "w_db w = db'" "0 < wc_batch_size cfg"
    and "rows_after ob (s_last_offset (w_source w)) db = []" "s_last_offset (w_source w) < next_id db"
    and "worker_loop publish cfg envs w = (w', res)"
  shows "w_db w' = db' \<and> w_sink w' = w_sink w \<and> s_last_offset (w_source w') = s_last_offset (w_source w)"
proof -
  let ?r = "\<lparr> row_id = next_id db, row_outbox = ob, row_payload = claim_marker, row_headers = hs, row_created_at = now \<rparr>"
  have "outbox_messages db' = outbox_messages db @ [?r]" using outbox_publish_Inr(3) [OF assms(1)] by simp
  moreover have "filter (\<lambda>r. row_outbox r = ob \<and> s_last_offset (w_source w) < row_id r) (outbox_messages db) = []"
    using assms(6) by (simp add: rows_after_def flip: set_empty) 
  ultimately have "rows_after ob (s_last_offset (w_source w)) db' = [?r]"
    using assms(7) by (simp add: rows_after_def)
  then have "poisoned cfg w" using assms(2-5) claim_marker_broken by (simp add: poisoned_def)
  from poisoned_loop_stalls [OF this assms(8)] assms(4) show ?thesis by (auto simp: stalled_def)
qed

end
