(* ===== verification/Compatibility.thy ===== *)
theory Compatibility
  imports Relay_Error
begin

text \<open>
  The relay's compatibility policy (\<open>pg-tide-relay/src/compatibility.rs\<close>): release versions and
  their order, the matrix embedded from \<open>schemas/lifecycle-compatibility-v1.json\<close>, and
  \<open>evaluate\<close>, which every command runs before it touches the extension's tables.
\<close>

section \<open>Versions\<close>

datatype version = Version (major: nat) (minor: nat) (patch: nat)

text \<open>The derived \<open>Ord\<close>: lexicographic in the order of the fields.\<close>

instantiation version :: linorder
begin

definition less_version :: "version \<Rightarrow> version \<Rightarrow> bool" where
  "less_version v w \<longleftrightarrow>
     major v < major w \<or>
     major v = major w \<and> (minor v < minor w \<or> minor v = minor w \<and> patch v < patch w)"

definition less_eq_version :: "version \<Rightarrow> version \<Rightarrow> bool" where
  "less_eq_version v w \<longleftrightarrow> v < w \<or> v = w"

instance
proof
  fix x y z :: version
  show "x < y \<longleftrightarrow> x \<le> y \<and> \<not> y \<le> x" "x \<le> x" "x \<le> y \<Longrightarrow> y \<le> z \<Longrightarrow> x \<le> z"
    "x \<le> y \<Longrightarrow> y \<le> x \<Longrightarrow> x = y" "x \<le> y \<or> y \<le> x"
    by (cases x; cases y; cases z; auto simp: less_version_def less_eq_version_def)+
qed

end

lemma version_less [simp]:
  "Version a b c < Version x y z \<longleftrightarrow> a < x \<or> a = x \<and> (b < y \<or> b = y \<and> c < z)"
  by (simp add: less_version_def)

lemma version_less_eq [simp]:
  "Version a b c \<le> Version x y z \<longleftrightarrow> a < x \<or> a = x \<and> (b < y \<or> b = y \<and> c \<le> z)"
  by (auto simp: less_eq_version_def)

text \<open>\<open>parse_release\<close>: three decimal parts, none empty, none with a leading zero, nothing more.\<close>

definition bad_part :: "string \<Rightarrow> bool" where
  "bad_part p \<longleftrightarrow> 1 < length p \<and> starts_with ''0'' p"

definition parse_release :: "string \<Rightarrow> version option" where
  "parse_release v =
     (case split_on (CHR ''.'') v of
        a # b # c # rest \<Rightarrow>
          (case (parse_u32 a, parse_u32 b, parse_u32 c) of
             (Some x, Some y, Some z) \<Rightarrow>
               if rest \<noteq> []
                \<or> list_ex (\<lambda>p. p = []) (split_on (CHR ''.'') v)
                \<or> list_ex bad_part (split_on (CHR ''.'') v)
               then None else Some (Version x y z)
           | _ \<Rightarrow> None)
      | _ \<Rightarrow> None)"

section \<open>The embedded policy\<close>

record matrix_row =
  mr_extension :: string
  mr_relay :: string
  mr_status :: string

record embedded_policy =
  ep_policy_version :: string
  ep_error_code :: string
  ep_minimum :: string
  ep_maximum :: string
  ep_matrix :: "matrix_row list"

definition compatibility_error_code :: string where
  "compatibility_error_code = ''PGTIDE_EXTENSION_VERSION_INCOMPATIBLE''"

definition listed :: "string \<Rightarrow> string \<Rightarrow> string \<Rightarrow> matrix_row" where
  "listed e r s = \<lparr> mr_extension = e, mr_relay = r, mr_status = s \<rparr>"

definition lifecycle_matrix :: "matrix_row list" where
  "lifecycle_matrix =
    [listed ''0.51.0'' ''0.51.0'' ''supported'',
     listed ''0.51.0'' ''0.52.0'' ''supported'',
     listed ''0.52.0'' ''0.52.0'' ''supported'',
     listed ''0.52.0'' ''0.53.0'' ''supported'',
     listed ''0.53.0'' ''0.53.0'' ''supported'',
     listed ''0.53.0'' ''0.54.0'' ''supported'',
     listed ''0.54.0'' ''0.54.0'' ''supported'',
     listed ''0.53.0'' ''0.52.0'' ''rejected'',
     listed ''0.54.0'' ''0.53.0'' ''rejected'',
     listed ''<0.53.0'' ''0.54.0'' ''rejected'',
     listed ''>0.54.0'' ''0.54.0'' ''rejected'']"

definition embedded_file :: embedded_policy where
  "embedded_file =
    \<lparr> ep_policy_version = ''v1'',
      ep_error_code = ''PGTIDE_EXTENSION_VERSION_INCOMPATIBLE'',
      ep_minimum = ''0.53.0'', ep_maximum = ''0.54.0'',
      ep_matrix = lifecycle_matrix \<rparr>"

text \<open>\<open>embedded_policy\<close> and \<open>window_bounds\<close>, on the deserialised file.\<close>

definition checked_policy :: "embedded_policy \<Rightarrow> relay_error + embedded_policy" where
  "checked_policy p =
     (if ep_error_code p \<noteq> compatibility_error_code
      then Inl (Config ''embedded lifecycle policy has an unexpected compatibility error code'')
      else Inr p)"

definition window_bounds :: "embedded_policy \<Rightarrow> relay_error + version \<times> version" where
  "window_bounds p =
     and_then (ok_or (parse_release (ep_minimum p))
                 (Config ''embedded lifecycle policy has a malformed minimum version'')) (\<lambda>lo.
     and_then (ok_or (parse_release (ep_maximum p))
                 (Config ''embedded lifecycle policy has a malformed maximum version'')) (\<lambda>hi.
     Inr (lo, hi)))"

section \<open>Error texts\<close>

text \<open>\<open>str::chars\<close> on UTF-8 bytes: a character is a byte with the continuation bytes after it.\<close>

definition cont_byte :: "char \<Rightarrow> bool" where
  "cont_byte c \<longleftrightarrow> 128 \<le> byte c \<and> byte c < 192"

function chars :: "string \<Rightarrow> string list" where
  "chars [] = []"
| "chars (a # r) = (a # takeWhile cont_byte r) # chars (dropWhile cont_byte r)"
  by pat_completeness auto
termination
  by (relation "measure length") (simp_all add: length_dropWhile_le le_imp_less_Suc)

definition bounded_version :: "string option \<Rightarrow> string" where
  "bounded_version v =
     concat (map (\<lambda>c. if has_control c then ''?'' else c) (take 64 (chars (unwrap_or v ''<missing>''))))"

definition supported_range :: "embedded_policy \<Rightarrow> string" where
  "supported_range p = ep_minimum p @ ''..='' @ ep_maximum p"

definition next_action_text :: "embedded_policy \<Rightarrow> string" where
  "next_action_text p =
     ''Upgrade or restore pg_tide to '' @ ep_minimum p @ '' or '' @ ep_maximum p @ '', then restart pg-tide.''"

definition incompatible :: "string \<Rightarrow> string option \<Rightarrow> string \<Rightarrow> embedded_policy \<Rightarrow> relay_error" where
  "incompatible relay ext reason p =
     IncompatibleExtensionVersion
       \<lparr> iv_installed_version = bounded_version ext,
         iv_relay_version = bounded_version (Some relay),
         iv_policy_version = ep_policy_version p,
         iv_compatibility_class = ''incompatible'',
         iv_supported_range = supported_range p,
         iv_next_action = next_action_text p,
         iv_reason = reason \<rparr>"

section \<open>The decision\<close>

record compatibility_decision =
  cd_relay_version :: string
  cd_extension_version :: string
  cd_policy_version :: string
  cd_compatibility_class :: string
  cd_supported_range :: string
  cd_next_action :: string

definition evaluate_with :: "embedded_policy \<Rightarrow> string \<Rightarrow> string option \<Rightarrow> relay_error + compatibility_decision" where
  "evaluate_with file relay_version extension_version =
     and_then (checked_policy file) (\<lambda>p.
     and_then (window_bounds p) (\<lambda>(lo, hi).
     and_then (ok_or (parse_release relay_version)
                 (incompatible relay_version extension_version ''malformed relay version'' p)) (\<lambda>relay.
     and_then (ok_or extension_version
                 (incompatible relay_version None ''pg_tide is missing from pg_extension'' p)) (\<lambda>ext_text.
     and_then (ok_or (parse_release ext_text)
                 (incompatible relay_version (Some ext_text) ''malformed extension version'' p)) (\<lambda>ext.
     case List.find (\<lambda>r. parse_release (mr_relay r) = Some relay \<and> parse_release (mr_extension r) = Some ext)
            (filter (\<lambda>r. mr_status r = ''supported'') (ep_matrix p)) of
       Some r \<Rightarrow>
         Inr \<lparr> cd_relay_version = mr_relay r, cd_extension_version = mr_extension r,
               cd_policy_version = ep_policy_version p, cd_compatibility_class = mr_status r,
               cd_supported_range = supported_range p, cd_next_action = next_action_text p \<rparr>
     | None \<Rightarrow>
         Inl (incompatible relay_version (Some ext_text)
                (if ext < lo then ''extension version is below the supported runtime window''
                 else if hi < ext then ''extension version is newer than the supported runtime window''
                 else ''relay and extension versions are not listed in the policy'') p))))))"

definition evaluate :: "string \<Rightarrow> string option \<Rightarrow> relay_error + compatibility_decision" where
  "evaluate = evaluate_with embedded_file"

definition policy_rows :: "relay_error + (string \<times> string \<times> string) list" where
  "policy_rows =
     and_then (checked_policy embedded_file) (\<lambda>p.
       Inr (map (\<lambda>r. (mr_extension r, mr_relay r, mr_status r))
              (filter (\<lambda>r. mr_status r = ''supported'' \<and> parse_release (mr_extension r) \<noteq> None
                         \<and> parse_release (mr_relay r) \<noteq> None) (ep_matrix p))))"

text \<open>\<open>check_client\<close>: the query for the installed version, then \<open>evaluate\<close>.\<close>

definition check_client :: "(pg_error + string option) \<Rightarrow> string \<Rightarrow> relay_error + compatibility_decision" where
  "check_client queried relay_version =
     and_then (map_err Postgres queried) (\<lambda>ext. evaluate relay_version ext)"

section \<open>What the decision means\<close>

lemma parse_policy_versions [simp]:
  "parse_release ''0.51.0'' = Some (Version 0 51 0)"
  "parse_release ''0.52.0'' = Some (Version 0 52 0)"
  "parse_release ''0.53.0'' = Some (Version 0 53 0)"
  "parse_release ''0.54.0'' = Some (Version 0 54 0)"
  by (simp_all add: parse_release_def parse_u32_def strip_prefix_def parse_digits_def is_digit_def
        digits_value_def byte_def bad_part_def starts_with_def)

definition supported_pairs :: "(version \<times> version) set" where
  "supported_pairs =
    {(Version 0 51 0, Version 0 51 0), (Version 0 51 0, Version 0 52 0), (Version 0 52 0, Version 0 52 0),
     (Version 0 52 0, Version 0 53 0), (Version 0 53 0, Version 0 53 0), (Version 0 53 0, Version 0 54 0),
     (Version 0 54 0, Version 0 54 0)}"

lemma policy_accepted: "checked_policy embedded_file = Inr embedded_file"
  by (simp add: checked_policy_def embedded_file_def compatibility_error_code_def)

lemma policy_window: "window_bounds embedded_file = Inr (Version 0 53 0, Version 0 54 0)"
  by (simp add: window_bounds_def embedded_file_def)

lemma supported_rows:
  "filter (\<lambda>r. mr_status r = ''supported'') (ep_matrix embedded_file) = take 7 lifecycle_matrix"
  by (simp add: embedded_file_def lifecycle_matrix_def listed_def)

lemma lookup_some_iff:
  "List.find (\<lambda>r. parse_release (mr_relay r) = Some v \<and> parse_release (mr_extension r) = Some w)
     (take 7 lifecycle_matrix) \<noteq> None \<longleftrightarrow> (w, v) \<in> supported_pairs"
  by (simp add: lifecycle_matrix_def listed_def supported_pairs_def find_None_iff) blast

lemma evaluate_parsed:
  assumes "parse_release r = Some v" "parse_release e = Some w"
  shows "is_ok (evaluate r (Some e)) \<longleftrightarrow> (w, v) \<in> supported_pairs"
  unfolding lookup_some_iff [symmetric]
  by (simp add: evaluate_def evaluate_with_def policy_accepted policy_window assms supported_rows
        split: option.splits)

lemma evaluate_ok_iff:
  "is_ok (evaluate r e) \<longleftrightarrow>
     (\<exists>t v w. e = Some t \<and> parse_release r = Some v \<and> parse_release t = Some w \<and> (w, v) \<in> supported_pairs)"
proof (cases "\<exists>t v w. e = Some t \<and> parse_release r = Some v \<and> parse_release t = Some w")
  case True
  then show ?thesis using evaluate_parsed by auto
next
  case False
  then show ?thesis
    by (cases e; cases "parse_release r"; cases "parse_release (the e)")
       (auto simp: evaluate_def evaluate_with_def policy_accepted policy_window)
qed

lemma supported_row_versions:
  "x \<in> set (take 7 lifecycle_matrix) \<Longrightarrow>
   \<exists>v w. parse_release (mr_relay x) = Some v \<and> parse_release (mr_extension x) = Some w \<and> w \<le> v
     \<and> major v = major w \<and> minor v \<le> Suc (minor w) \<and> patch v = 0 \<and> patch w = 0"
  by (auto simp: lifecycle_matrix_def listed_def)

lemma evaluate_decision:
  assumes "evaluate r (Some e) = Inr d"
  shows "\<exists>x \<in> set (take 7 lifecycle_matrix). cd_relay_version d = mr_relay x
     \<and> cd_extension_version d = mr_extension x
     \<and> parse_release (mr_relay x) = parse_release r \<and> parse_release (mr_extension x) = parse_release e"
proof -
  from assms obtain v w x where v: "parse_release r = Some v" "parse_release e = Some w"
    and x: "List.find (\<lambda>x. parse_release (mr_relay x) = Some v \<and> parse_release (mr_extension x) = Some w)
        (take 7 lifecycle_matrix) = Some x"
    and d: "cd_relay_version d = mr_relay x" "cd_extension_version d = mr_extension x"
    by (auto simp: evaluate_def evaluate_with_def policy_accepted policy_window and_then_Inr_iff
        supported_rows split: option.splits)
  from find_Some_D [OF x] v d show ?thesis by auto
qed



text \<open>
  The release 0.54.0 of the relay accepts exactly the two ends of the window it announces; every
  other installed version, a missing and a malformed one are refused.
\<close>

lemma relay_054_accepts_its_window:
  "is_ok (evaluate ''0.54.0'' e) \<longleftrightarrow>
     (\<exists>t. e = Some t \<and> parse_release t \<in> {Some (Version 0 53 0), Some (Version 0 54 0)})"
  by (auto simp: evaluate_ok_iff supported_pairs_def)

section \<open>The size of the error text\<close>

lemma has_control_append:
  "ys = [] \<or> \<not> cont_byte (hd ys) \<Longrightarrow> has_control (xs @ ys) \<longleftrightarrow> has_control xs \<or> has_control ys"
proof (induction xs rule: has_control.induct)
  case (2 a)
  then show ?case by (cases ys) (auto simp: ctl2_def cont_byte_def)
qed auto

definition mask_controls :: "nat \<Rightarrow> string \<Rightarrow> string" where
  "mask_controls n s = concat (map (\<lambda>c. if has_control c then ''?'' else c) (take n (chars s)))"

lemma mask_controls_Cons:
  "mask_controls (Suc n) (a # r) =
     (if has_control (a # takeWhile cont_byte r) then ''?'' else a # takeWhile cont_byte r)
     @ mask_controls n (dropWhile cont_byte r)"
  by (simp add: mask_controls_def)

lemma mask_controls_head:
  "s = [] \<or> \<not> cont_byte (hd s) \<Longrightarrow> mask_controls n s = [] \<or> \<not> cont_byte (hd (mask_controls n s))"
  by (cases s; cases n) (auto simp: mask_controls_def cont_byte_def byte_def)

lemma dropWhile_head: "dropWhile P xs = [] \<or> \<not> P (hd (dropWhile P xs))"
  by (cases "dropWhile P xs = []") (simp_all add: hd_dropWhile)

lemma mask_controls_clean: "\<not> has_control (mask_controls n s)"
proof (induction s arbitrary: n rule: chars.induct)
  case (2 a r)
  show ?case
  proof (cases n)
    case (Suc m)
    have "mask_controls m (dropWhile cont_byte r) = [] \<or> \<not> cont_byte (hd (mask_controls m (dropWhile cont_byte r)))"
      by (rule mask_controls_head) (rule dropWhile_head)
    from has_control_append [OF this] show ?thesis
      unfolding Suc mask_controls_Cons using "2" by (simp add: ctl1_def byte_def)
  qed (simp add: mask_controls_def)
qed (simp add: mask_controls_def)

definition n_chars :: "string \<Rightarrow> nat" where
  "n_chars s = length (filter (\<lambda>c. \<not> cont_byte c) s)"

lemma n_chars_append [simp]: "n_chars (a @ b) = n_chars a + n_chars b"
  by (simp add: n_chars_def)

lemma n_chars_masked: "n_chars (if has_control c then ''?'' else c) \<le> max 1 (n_chars c)"
  by (simp add: n_chars_def)

lemma n_chars_conts: "n_chars (takeWhile cont_byte r) = 0"
  by (auto simp: n_chars_def filter_empty_conv dest: set_takeWhileD)

lemma n_chars_mask_controls: "n_chars (mask_controls n s) \<le> n"
proof (induction s arbitrary: n rule: chars.induct)
  case (2 a r)
  show ?case
  proof (cases n)
    case (Suc m)
    have "n_chars (a # takeWhile cont_byte r) \<le> 1"
      using n_chars_conts [of r] by (simp add: n_chars_def)
    then have "n_chars (if has_control (a # takeWhile cont_byte r) then ''?'' else a # takeWhile cont_byte r) \<le> 1"
      by (simp add: n_chars_def)
    with "2.IH" [of m] show ?thesis unfolding Suc mask_controls_Cons n_chars_append by simp
  qed (simp add: mask_controls_def n_chars_def)
qed (simp add: mask_controls_def n_chars_def)

lemma bounded_version_mask: "bounded_version v = mask_controls 64 (unwrap_or v ''<missing>'')"
  by (simp add: bounded_version_def mask_controls_def)

lemma n_chars_Cons: "\<not> cont_byte c \<Longrightarrow> n_chars (c # s) = Suc (n_chars s)"
  by (simp add: n_chars_def)

lemma n_chars_Nil: "n_chars [] = 0"
  by (simp add: n_chars_def)

definition refusal_reasons :: "string list" where
  "refusal_reasons =
    [''malformed relay version'', ''pg_tide is missing from pg_extension'', ''malformed extension version'',
     ''extension version is below the supported runtime window'',
     ''extension version is newer than the supported runtime window'',
     ''relay and extension versions are not listed in the policy'']"

lemma refusal_reasons_simps:
  "''malformed relay version'' \<in> set refusal_reasons"
  "''pg_tide is missing from pg_extension'' \<in> set refusal_reasons"
  "''malformed extension version'' \<in> set refusal_reasons"
  "(if b then ''extension version is below the supported runtime window''
    else if c then ''extension version is newer than the supported runtime window''
    else ''relay and extension versions are not listed in the policy'') \<in> set refusal_reasons"
  by (cases b; cases c; simp add: refusal_reasons_def)+

lemma refusal_reason_text:
  "list_all (\<lambda>s. list_all (\<lambda>c. 32 \<le> byte c \<and> byte c < 127) s \<and> n_chars s \<le> 60) refusal_reasons"
  by (simp add: refusal_reasons_def byte_def n_chars_Cons n_chars_Nil cont_byte_def)

lemma evaluate_error:
  assumes "evaluate r e = Inl err"
  shows "\<exists>t reason. err = incompatible r t reason embedded_file \<and> reason \<in> set refusal_reasons"
proof (cases "parse_release r")
  case None
  with assms have "err = incompatible r e ''malformed relay version'' embedded_file"
    by (simp add: evaluate_def evaluate_with_def policy_accepted policy_window)
  then show ?thesis using refusal_reasons_simps(1-3) by blast
next
  case v: (Some v)
  show ?thesis
  proof (cases e)
    case None
    with assms v have "err = incompatible r None ''pg_tide is missing from pg_extension'' embedded_file"
      by (simp add: evaluate_def evaluate_with_def policy_accepted policy_window)
    then show ?thesis using refusal_reasons_simps(1-3) by blast
  next
    case e: (Some t)
    show ?thesis
    proof (cases "parse_release t")
      case None
      with assms v e have "err = incompatible r (Some t) ''malformed extension version'' embedded_file"
        by (simp add: evaluate_def evaluate_with_def policy_accepted policy_window)
      then show ?thesis using refusal_reasons_simps(1-3) by blast
    next
      case (Some w)
      have "List.find (\<lambda>x. parse_release (mr_relay x) = Some v \<and> parse_release (mr_extension x) = Some w)
          (take 7 lifecycle_matrix) = None"
        using assms by (simp add: evaluate_def evaluate_with_def policy_accepted policy_window supported_rows
            v e Some split: option.splits)
      then have "evaluate r e = Inl (incompatible r (Some t)
          (if w < Version 0 53 0 then ''extension version is below the supported runtime window''
           else if Version 0 54 0 < w then ''extension version is newer than the supported runtime window''
           else ''relay and extension versions are not listed in the policy'') embedded_file)"
        by (simp add: evaluate_def evaluate_with_def policy_accepted policy_window supported_rows v e Some)
      with assms have "err = incompatible r (Some t)
          (if w < Version 0 53 0 then ''extension version is below the supported runtime window''
           else if Version 0 54 0 < w then ''extension version is newer than the supported runtime window''
           else ''relay and extension versions are not listed in the policy'') embedded_file" by (metis Inl_inject)
      then show ?thesis using refusal_reasons_simps(4) by blast
    qed
  qed
qed

lemma has_control_Cons:
  "byte a \<noteq> 194 \<Longrightarrow> has_control (a # s) \<longleftrightarrow> ctl1 a \<or> has_control s"
  by (cases s) (auto simp: ctl2_def)

lemma has_control_masked_append:
  "\<not> cont_byte c \<Longrightarrow> has_control (mask_controls n s @ c # ys) \<longleftrightarrow> has_control (c # ys)"
  using has_control_append [of "c # ys" "mask_controls n s"] mask_controls_clean by simp

lemma incompatible_text_clean:
  "list_all (\<lambda>c. 32 \<le> byte c \<and> byte c < 127) reason \<Longrightarrow>
   \<not> has_control (show_incompatible
     \<lparr> iv_installed_version = mask_controls 64 a, iv_relay_version = mask_controls 64 b,
       iv_policy_version = ''v1'', iv_compatibility_class = ''incompatible'',
       iv_supported_range = ''0.53.0..=0.54.0'',
       iv_next_action = ''Upgrade or restore pg_tide to 0.53.0 or 0.54.0, then restart pg-tide.'',
       iv_reason = reason \<rparr>)"
proof -
  assume "list_all (\<lambda>c. 32 \<le> byte c \<and> byte c < 127) reason"
  then have "\<not> has_control reason"
    by (induction reason rule: has_control.induct) (auto simp: ctl1_def ctl2_def)
  then show ?thesis
    by (simp add: show_incompatible_def has_control_Cons has_control_masked_append ctl1_def byte_def
        cont_byte_def del: has_control.simps(3))
qed


lemma incompatible_text_short:
  "n_chars (show_incompatible
     \<lparr> iv_installed_version = mask_controls 64 a, iv_relay_version = mask_controls 64 b,
       iv_policy_version = ''v1'', iv_compatibility_class = ''incompatible'',
       iv_supported_range = ''0.53.0..=0.54.0'',
       iv_next_action = ''Upgrade or restore pg_tide to 0.53.0 or 0.54.0, then restart pg-tide.'',
       iv_reason = reason \<rparr>) \<le> 391 + n_chars reason"
  using n_chars_mask_controls [of 64 a] n_chars_mask_controls [of 64 b]
  by (simp add: show_incompatible_def n_chars_Cons n_chars_Nil cont_byte_def byte_def)

text \<open>
  Whatever the version strings hold, the refusal of a relay is a text of at most 460 characters
  without a control character.
\<close>

lemma refusal_text_is_bounded_and_printable:
  assumes "evaluate r e = Inl err"
  shows "\<not> has_control (show_relay_error err) \<and> n_chars (show_relay_error err) \<le> 460"
proof -
  obtain t reason where err: "err = incompatible r t reason embedded_file" and reason: "reason \<in> set refusal_reasons"
    using evaluate_error [OF assms] by blast
  from reason refusal_reason_text
  have r: "list_all (\<lambda>c. 32 \<le> byte c \<and> byte c < 127) reason" "n_chars reason \<le> 60"
    by (simp_all add: list_all_iff)
  have shown: "show_relay_error err = show_incompatible
     \<lparr> iv_installed_version = mask_controls 64 (unwrap_or t ''<missing>''), iv_relay_version = mask_controls 64 r,
       iv_policy_version = ''v1'', iv_compatibility_class = ''incompatible'',
       iv_supported_range = ''0.53.0..=0.54.0'',
       iv_next_action = ''Upgrade or restore pg_tide to 0.53.0 or 0.54.0, then restart pg-tide.'',
       iv_reason = reason \<rparr>"
    by (simp add: err incompatible_def bounded_version_mask supported_range_def next_action_text_def
        embedded_file_def)
  have "n_chars (show_relay_error err) \<le> 391 + n_chars reason"
    unfolding shown by (rule incompatible_text_short)
  moreover have "\<not> has_control (show_relay_error err)"
    unfolding shown by (rule incompatible_text_clean) (rule r)
  ultimately show ?thesis using r by linarith
qed

lemma refusal_text_is_bounded_and_printable_example:
  "\<exists>err. evaluate ''0.54.0'' (Some [CHR 0x07]) = Inl err \<and> \<not> has_control (show_relay_error err)"
proof -
  have "\<not> is_ok (evaluate ''0.54.0'' (Some [CHR 0x07]))"
    by (simp add: evaluate_ok_iff parse_release_def)
  then obtain err where err: "evaluate ''0.54.0'' (Some [CHR 0x07]) = Inl err"
    by (cases "evaluate ''0.54.0'' (Some [CHR 0x07])") auto
  from refusal_text_is_bounded_and_printable [OF this] err show ?thesis by blast
qed

end
