(* ===== verification/Status_Report.thy ===== *)
theory Status_Report
  imports Runtime_Status Compatibility Outbox
begin

text \<open>
  What operators see of the pipelines: the view \<open>tide.relay_pipeline_status\<close>
  (\<open>sql/pg_tide--0.44.0--0.45.0.sql\<close>) over the catalog, the offsets, the dead letters and the rows of
  \<^theory_text>\<open>Runtime_Status\<close>, and the JSON of \<open>pg-tide status\<close> (\<open>pg-tide-relay/src/cmd/status.rs\<close>) over the
  view.  Times are microseconds; the printing of a time is an argument.
\<close>

section \<open>The view\<close>

record status_view_row =
  sv_pipeline_id :: string
  sv_direction :: string
  sv_tenant :: string
  sv_enabled :: bool
  sv_group :: string
  sv_ownership :: string
  sv_health :: string
  sv_consumer_lag :: "int option"
  sv_last_offset :: "int option"
  sv_checkpoint_success_at :: "int option"
  sv_error_code :: "string option"
  sv_error_component :: "string option"
  sv_error_class :: "string option"
  sv_error_at :: "int option"
  sv_retry_attempt :: "int option"
  sv_retry_state :: "string option"
  sv_dlq_depth :: int
  sv_state_update_at :: "int option"

definition minutes :: "int \<Rightarrow> int" where "minutes n = n * 60 * 1000000"

definition left_join :: "('a \<Rightarrow> 'b \<Rightarrow> bool) \<Rightarrow> 'a list \<Rightarrow> 'b list \<Rightarrow> ('a \<times> 'b option) list" where
  "left_join on as bs =
     concat (map (\<lambda>a. case filter (on a) bs of [] \<Rightarrow> [(a, None)] | ms \<Rightarrow> map (\<lambda>b. (a, Some b)) ms) as)"

record configured_row =
  cf_pipeline_id :: string
  cf_direction :: string
  cf_enabled :: bool
  cf_tenant :: string
  cf_outbox :: "string option"

definition configured_pipelines :: "tide_db \<Rightarrow> configured_row list" where
  "configured_pipelines db =
     map (\<lambda>(n, c). \<lparr> cf_pipeline_id = n, cf_direction = ''forward'', cf_enabled = rc_enabled c, cf_tenant = rc_tenant c,
                     cf_outbox = Option.bind (json_path (rc_config c) [''source'', ''outbox'']) json_text \<rparr>)
       (relay_configs db)
     @ map (\<lambda>(n, c). \<lparr> cf_pipeline_id = n, cf_direction = ''reverse'', cf_enabled = rc_enabled c, cf_tenant = rc_tenant c,
                       cf_outbox = None \<rparr>)
       (relay_inbox_configs db)"

definition status_of :: "configured_row \<Rightarrow> status_row \<Rightarrow> bool" where
  "status_of c s \<longleftrightarrow> st_pipeline s = cf_pipeline_id c \<and> st_direction s = cf_direction c \<and> st_tenant s = cf_tenant c"

definition group_of :: "status_row option \<Rightarrow> string" where
  "group_of s = (case s of None \<Rightarrow> ''default'' | Some r \<Rightarrow> st_group r)"

definition offset_of :: "configured_row \<times> status_row option \<Rightarrow> relay_offset_row \<Rightarrow> bool" where
  "offset_of cs o' \<longleftrightarrow>
     ro_pipeline o' = cf_pipeline_id (fst cs) \<and> ro_tenant o' = cf_tenant (fst cs)
   \<and> (case cf_outbox (fst cs) of None \<Rightarrow> True | Some ob \<Rightarrow> ro_outbox o' = ob)
   \<and> ro_group o' = group_of (snd cs)"

definition ownership_of :: "int \<Rightarrow> configured_row \<Rightarrow> status_row option \<Rightarrow> string" where
  "ownership_of now c s =
     (if \<not> cf_enabled c then ''unowned''
      else case Option.bind s owner_token of
             None \<Rightarrow> ''unowned''
           | Some _ \<Rightarrow> (case Option.bind s last_owner_heartbeat of
                          None \<Rightarrow> ''stale''
                        | Some h \<Rightarrow> if h < now - minutes 2 then ''stale'' else ''owned''))"

definition health_of :: "configured_row \<Rightarrow> status_row option \<Rightarrow> string" where
  "health_of c s =
     (if \<not> cf_enabled c then ''disabled''
      else if Option.bind s last_error_class = Some ''permanent'' then ''permanently_failed''
      else if Option.bind s retry_state \<noteq> None then ''retrying''
      else if Option.bind s owner_token = None then ''unknown''
      else ''healthy'')"

definition view_row :: "int \<Rightarrow> tide_db \<Rightarrow> (configured_row \<times> status_row option) \<times> relay_offset_row option \<Rightarrow> status_view_row" where
  "view_row now db row =
     (case row of ((c, s), o') \<Rightarrow>
       \<lparr> sv_pipeline_id = cf_pipeline_id c, sv_direction = cf_direction c, sv_tenant = cf_tenant c,
         sv_enabled = cf_enabled c, sv_group = group_of s,
         sv_ownership = ownership_of now c s, sv_health = health_of c s,
         sv_consumer_lag = (case (cf_outbox c, o') of
             (Some ob, Some r) \<Rightarrow>
               Some (int (length (filter (\<lambda>m. row_outbox m = ob \<and> last_change_id r < row_id m) (outbox_messages db))))
           | _ \<Rightarrow> None),
         sv_last_offset = map_option last_change_id o',
         sv_checkpoint_success_at = None,
         sv_error_code = Option.bind s last_error_code,
         sv_error_component = Option.bind s last_error_component,
         sv_error_class = Option.bind s last_error_class,
         sv_error_at = Option.bind s last_error_at,
         sv_retry_attempt = (if Option.bind s retry_state = None then None else Some 0),
         sv_retry_state = Option.bind s retry_state,
         sv_dlq_depth = int (length (filter (\<lambda>d. \<not> resolved d \<and> d_pipeline (entry d) = cf_pipeline_id c) (dlq_table db))),
         sv_state_update_at = map_option last_state_update_at s \<rparr>)"

text \<open>
  No statement of either program writes \<open>last_checkpoint_success_at\<close> or \<open>retry_attempt\<close>: the columns
  keep their defaults, \<open>NULL\<close> and 0.  The offsets table has one row per group, pipeline and outbox, so
  \<open>DISTINCT ON\<close> keeps every row.
\<close>

definition pipeline_status :: "int \<Rightarrow> tide_db \<Rightarrow> status_row list \<Rightarrow> status_view_row list" where
  "pipeline_status now db st =
     map (view_row now db) (left_join offset_of (left_join status_of (configured_pipelines db) st) (relay_offsets db))"

section \<open>The command\<close>

definition bounded_error_code :: "string option \<Rightarrow> string option" where
  "bounded_error_code v =
     (case v of None \<Rightarrow> None
      | Some code \<Rightarrow>
          if code \<in> {''unavailable'', ''timeout'', ''throttled'', ''authentication'', ''authorization'',
                     ''tls_verification'', ''invalid_destination'', ''message_too_large'', ''protocol_rejection'',
                     ''invalid_config'', ''shutdown'', ''unknown''} then Some code else None)"

definition bounded_error_class :: "string option \<Rightarrow> string option" where
  "bounded_error_class v =
     (case v of None \<Rightarrow> None | Some c \<Rightarrow> if c \<in> {''transient'', ''permanent''} then Some c else None)"

definition json_or_unknown :: "json option \<Rightarrow> json" where
  "json_or_unknown v = unwrap_or v (JStr ''unknown'')"

definition stale_json :: "(int \<Rightarrow> string) \<Rightarrow> int \<Rightarrow> int option \<Rightarrow> json" where
  "stale_json rfc3339 now at =
     (case at of None \<Rightarrow> JStr ''unknown''
      | Some t \<Rightarrow> JStr (if now - t > minutes 5 then ''stale'' else rfc3339 t))"

definition retry_json :: "int \<Rightarrow> status_view_row \<Rightarrow> json" where
  "retry_json now r =
     (if sv_retry_attempt r \<noteq> None \<and> (case sv_state_update_at r of None \<Rightarrow> False | Some t \<Rightarrow> now - t > minutes 5)
      then JStr ''stale''
      else json_or_unknown (map_option JInt (sv_retry_attempt r)))"

text \<open>The object that \<open>json!\<close> builds, its keys in the order of the map.\<close>

definition status_row_json :: "(int \<Rightarrow> string) \<Rightarrow> int \<Rightarrow> status_view_row \<Rightarrow> json" where
  "status_row_json rfc3339 now r =
     JObj
       [(''consumer_lag'', json_or_unknown (map_option JInt (sv_consumer_lag r))),
        (''direction'', JStr (sv_direction r)),
        (''enabled'', JBool (sv_enabled r)),
        (''health'', JStr (sv_health r)),
        (''last_checkpoint_success_at'', stale_json rfc3339 now (sv_checkpoint_success_at r)),
        (''last_error_at'', json_or_unknown (map_option (\<lambda>t. JStr (rfc3339 t)) (sv_error_at r))),
        (''last_error_class'', json_or_unknown (map_option JStr (bounded_error_class (sv_error_class r)))),
        (''last_error_code'', json_or_unknown (map_option JStr (bounded_error_code (sv_error_code r)))),
        (''last_error_component'', json_or_unknown (map_option JStr (sv_error_component r))),
        (''last_offset'', json_or_unknown (map_option JInt (sv_last_offset r))),
        (''ownership'', JStr (sv_ownership r)),
        (''pipeline_id'', JStr (sv_pipeline_id r)),
        (''retry_attempt'', retry_json now r),
        (''retry_state'', json_or_unknown (map_option JStr (sv_retry_state r))),
        (''unresolved_dlq_depth'', JInt (sv_dlq_depth r))]"

definition decision_json :: "compatibility_decision \<Rightarrow> json" where
  "decision_json d =
     JObj
       [(''compatibility_class'', JStr (cd_compatibility_class d)),
        (''extension_version'', JStr (cd_extension_version d)),
        (''next_action'', JStr (cd_next_action d)),
        (''policy_version'', JStr (cd_policy_version d)),
        (''relay_version'', JStr (cd_relay_version d)),
        (''supported_range'', JStr (cd_supported_range d))]"

definition status_data :: "(int \<Rightarrow> string) \<Rightarrow> int \<Rightarrow> compatibility_decision \<Rightarrow> status_view_row list \<Rightarrow> json" where
  "status_data rfc3339 now d rows =
     JObj [(''compatibility'', decision_json d), (''pipelines'', JArr (map (status_row_json rfc3339 now) rows))]"

text \<open>
  The rows are sorted by pipeline, then direction.  The text of a boxed error stands for the error;
  \<open>connect\<close> and \<open>queried\<close> are the connection's outcomes.
\<close>

record status_env =
  se_now :: int
  se_rfc3339 :: "int \<Rightarrow> string"
  se_connect :: "string + unit"
  se_version :: "pg_error + string option"
  se_rows :: "string option"

definition query_rows :: "status_env \<Rightarrow> tide_db \<Rightarrow> status_row list \<Rightarrow> string + status_view_row list" where
  "query_rows env db st =
     (case se_rows env of
        Some e \<Rightarrow> Inl e
      | None \<Rightarrow> Inr (sort_key sv_pipeline_id (sort_key sv_direction (pipeline_status (se_now env) db st))))"

definition collect_status :: "status_env \<Rightarrow> string \<Rightarrow> tide_db \<Rightarrow> status_row list \<Rightarrow> string + json" where
  "collect_status env relay_version db st =
     and_then (map_err (\<lambda>e. ''connection failed: '' @ e) (se_connect env)) (\<lambda>_.
     and_then (map_err show_relay_error (check_client (se_version env) relay_version)) (\<lambda>d.
     and_then (query_rows env db st) (\<lambda>rows.
       Inr (status_data (se_rfc3339 env) (se_now env) d rows))))"

section \<open>What the report says\<close>

lemma left_join_match: "a \<in> set as \<Longrightarrow> b \<in> set bs \<Longrightarrow> on a b \<Longrightarrow> (a, Some b) \<in> set (left_join on as bs)"
proof -
  assume a: "a \<in> set as" and "b \<in> set bs" "on a b"
  then have b: "b \<in> set (filter (on a) bs)" by simp
  then have "(case filter (on a) bs of [] \<Rightarrow> [(a, None)] | ms \<Rightarrow> map (\<lambda>b. (a, Some b)) ms) = map (\<lambda>b. (a, Some b)) (filter (on a) bs)"
    by (cases "filter (on a) bs") auto
  with a b show ?thesis unfolding left_join_def by force
qed

lemma left_join_total: "a \<in> set as \<Longrightarrow> \<exists>o'. (a, o') \<in> set (left_join on as bs)"
  unfolding left_join_def by (cases "filter (on a) bs") force+

lemma left_join_fst: "fst ` set (left_join on as bs) = set as"
proof
  show "set as \<subseteq> fst ` set (left_join on as bs)" using left_join_total [of _ as on bs] by force
  show "fst ` set (left_join on as bs) \<subseteq> set as"
    by (auto simp: left_join_def split: list.splits)
qed

lemma find_row_key: "find_row k rows = Some r \<Longrightarrow> r \<in> set rows \<and> status_key_of r = k"
  using find_Some_D [of "\<lambda>r. status_key_of r = k" rows r] by (simp add: find_row_def)

text \<open>A status row of a configured pipeline is a row of the view.\<close>

lemma status_row_in_view:
  assumes "(n, c) \<in> set (relay_configs db)" and "find_row (grp, n, ''forward'', rc_tenant c) st = Some s"
  obtains o' where "view_row now db
    ((\<lparr> cf_pipeline_id = n, cf_direction = ''forward'', cf_enabled = rc_enabled c, cf_tenant = rc_tenant c,
        cf_outbox = Option.bind (json_path (rc_config c) [''source'', ''outbox'']) json_text \<rparr>, Some s), o')
      \<in> set (pipeline_status now db st)" and "st_group s = grp"
proof -
  let ?c = "\<lparr> cf_pipeline_id = n, cf_direction = ''forward'', cf_enabled = rc_enabled c, cf_tenant = rc_tenant c,
        cf_outbox = Option.bind (json_path (rc_config c) [''source'', ''outbox'']) json_text \<rparr>"
  have s: "s \<in> set st" "status_key_of s = (grp, n, ''forward'', rc_tenant c)" using find_row_key [OF assms(2)] by auto
  have "?c \<in> set (configured_pipelines db)" using assms(1) by (force simp: configured_pipelines_def)
  then have "(?c, Some s) \<in> set (left_join status_of (configured_pipelines db) st)"
    using s by (intro left_join_match) (auto simp: status_of_def status_key_of_def)
  from left_join_total [OF this] obtain o' where "((?c, Some s), o') \<in> set (left_join offset_of (left_join status_of (configured_pipelines db) st) (relay_offsets db))"
    by blast
  then have "view_row now db ((?c, Some s), o') \<in> set (pipeline_status now db st)"
    unfolding pipeline_status_def by (simp only: set_map) blast
  moreover have "st_group s = grp" using s(2) by (simp add: status_key_of_def)
  ultimately show ?thesis by (rule that)
qed

text \<open>Every code and class that a worker records survives the command's filter.\<close>

lemma recorded_errors_pass_filter:
  "bounded_error_code (last_error_code (error_row e now r)) = last_error_code (error_row e now r)
   \<and> bounded_error_class (last_error_class (error_row e now r)) = last_error_class (error_row e now r)"
  by (cases "public_code e"; cases "retry_class_of e") (simp_all add: error_row_def bounded_error_code_def bounded_error_class_def)

lemma every_pipeline_reported:
  "sv_pipeline_id ` set (pipeline_status now db st) = fst ` set (relay_configs db) \<union> fst ` set (relay_inbox_configs db)"
proof -
  have v: "sv_pipeline_id (view_row now db x) = cf_pipeline_id (fst (fst x))" for x
    by (simp add: view_row_def split: prod.splits)
  have "sv_pipeline_id ` set (pipeline_status now db st)
      = cf_pipeline_id ` (fst ` (fst ` set (left_join offset_of (left_join status_of (configured_pipelines db) st) (relay_offsets db))))"
    by (simp add: pipeline_status_def image_image v)
  also have "\<dots> = cf_pipeline_id ` set (configured_pipelines db)" by (simp only: left_join_fst)
  also have "\<dots> = fst ` set (relay_configs db) \<union> fst ` set (relay_inbox_configs db)"
    by (auto simp: configured_pipelines_def image_Un image_image split_def)
  finally show ?thesis .
qed

section \<open>A failure outlives its recovery\<close>

definition clean_life :: "string \<Rightarrow> pipeline_config \<Rightarrow> worker_task \<Rightarrow> int \<times> int \<times> string \<Rightarrow> worker_task" where
  "clean_life grp p t life =
     (case life of (start, stop, tok) \<Rightarrow> run_pipeline_worker True True start stop grp p tok (Returned (Inr ())) t)"

definition failed_at :: "int \<Rightarrow> status_row option \<Rightarrow> bool" where
  "failed_at b s \<longleftrightarrow> Option.bind s last_error_class = Some ''permanent'' \<and> Option.bind s last_error_at = Some b"

lemma failed_owned: "failed_at b s \<Longrightarrow> failed_at b (Some (owned_row k tok now s))"
  by (cases s) (auto simp: failed_at_def owned_row_def)

lemma failed_start:
  "failed_at b (find_row (pipeline_key grp p) (tk_status t)) \<Longrightarrow>
   failed_at b (find_row (pipeline_key grp p) (tk_status (worker_started True True now grp p tok t)))"
  by (simp add: worker_started_def find_upsert_status failed_owned)

lemma failed_clean_life:
  "failed_at b (find_row (pipeline_key grp p) (tk_status t)) \<Longrightarrow>
   failed_at b (find_row (pipeline_key grp p) (tk_status (clean_life grp p t life)))"
  by (simp add: clean_life_def run_pipeline_worker_def worker_finished_def outcome_of_def Let_def find_upsert_status
      failed_owned failed_start split: prod.splits)

lemma failed_clean_lives:
  "failed_at b (find_row (pipeline_key grp p) (tk_status t)) \<Longrightarrow>
   failed_at b (find_row (pipeline_key grp p) (tk_status (foldl (clean_life grp p) t lives)))"
  by (induction lives arbitrary: t) (simp_all add: failed_clean_life)

lemma failed_run:
  assumes "pc_direction p = Forward" "\<not> is_transient e"
  shows "failed_at b (find_row (pipeline_key grp p) (tk_status (run_pipeline_worker True True a b grp p tok (Returned (Inl e)) t)))"
proof -
  have "retry_class_of e = Permanent" using assms(2) by (simp add: retry_class_permanent)
  with assms(1) show ?thesis
    by (simp add: run_pipeline_worker_def worker_finished_def outcome_of_def Let_def find_record_error
        find_upsert_status pipeline_key_def direction_text_def failed_at_def owned_row_def error_row_def split: option.splits)
qed

text \<open>
  A pipeline that once failed permanently is reported as permanently failed for ever: however often
  its worker has since run and ended without an error, while the new worker runs, owns the pipeline, is
  seen within the two minutes and is healthy for the probes, the status still shows the old error.
\<close>

lemma recovered_pipeline_reported_failed:
  assumes "(pc_name p, c) \<in> set (relay_configs db)" "rc_enabled c" "rc_tenant c = pc_tenant p"
    and "pc_direction p = Forward" "\<not> is_transient e"
    and "failed = run_pipeline_worker True True a b grp p tok (Returned (Inl e)) t"
    and "running = worker_started True True start grp p tok' (foldl (clean_life grp p) failed lives)"
    and "start \<le> now" "now \<le> start + minutes 2"
  shows "pc_name p \<in> set (healthy_pipelines (tk_health running))
    \<and> (\<exists>v \<in> set (pipeline_status now db (tk_status running)).
        sv_pipeline_id v = pc_name p \<and> sv_group v = grp \<and> sv_ownership v = ''owned''
        \<and> sv_health v = ''permanently_failed'' \<and> sv_error_at v = Some b)"
proof
  show "pc_name p \<in> set (healthy_pipelines (tk_health running))"
    by (simp add: assms(7) worker_started_def mark_pipeline_health_def)
  have "failed_at b (find_row (pipeline_key grp p) (tk_status running))"
    unfolding assms(6,7) by (intro failed_start failed_clean_lives failed_run assms(4,5))
  moreover obtain s where s: "find_row (pipeline_key grp p) (tk_status running) = Some s"
      "owner_token s = Some tok'" "last_owner_heartbeat s = Some start"
    by (simp add: assms(7) worker_started_def find_upsert_status owned_row_def split: option.splits)
  ultimately have f: "last_error_class s = Some ''permanent''" "last_error_at s = Some b"
    by (simp_all add: failed_at_def)
  from s(1) have "find_row (grp, pc_name p, ''forward'', rc_tenant c) (tk_status running) = Some s"
    by (simp add: pipeline_key_def assms(3))
  then show "\<exists>v \<in> set (pipeline_status now db (tk_status running)).
        sv_pipeline_id v = pc_name p \<and> sv_group v = grp \<and> sv_ownership v = ''owned''
        \<and> sv_health v = ''permanently_failed'' \<and> sv_error_at v = Some b"
  proof (rule status_row_in_view [OF assms(1)])
    fix o' assume v: "view_row now db ((\<lparr> cf_pipeline_id = pc_name p, cf_direction = ''forward'', cf_enabled = rc_enabled c,
        cf_tenant = rc_tenant c, cf_outbox = Option.bind (json_path (rc_config c) [''source'', ''outbox'']) json_text \<rparr>, Some s), o')
      \<in> set (pipeline_status now db (tk_status running))" and "st_group s = grp"
    with f s assms(2,9) show ?thesis
      by (intro bexI [OF _ v]) (simp add: view_row_def group_of_def ownership_of_def health_of_def)
  qed
qed

lemma recovered_pipeline_reported_failed_example:
  "\<exists>v \<in> set (pipeline_status (minutes 1)
      (empty_db\<lparr>relay_configs := [(''p'', \<lparr> rc_enabled = True, rc_config = JNull, rc_tenant = ''default'' \<rparr>)]\<rparr>)
      (tk_status (worker_started True True 30 ''g'' sample_pipeline ''w3''
        (clean_life ''g'' sample_pipeline
          (run_pipeline_worker True True 0 10 ''g'' sample_pipeline ''w1'' (Returned (Inl (Config ''bad''))) idle_task)
          (15, 20, ''w2''))))).
     sv_health v = ''permanently_failed''"
  using recovered_pipeline_reported_failed [of sample_pipeline "\<lparr> rc_enabled = True, rc_config = JNull, rc_tenant = ''default'' \<rparr>"
      "empty_db\<lparr>relay_configs := [(''p'', \<lparr> rc_enabled = True, rc_config = JNull, rc_tenant = ''default'' \<rparr>)]\<rparr>"
      "Config ''bad''" _ 0 10 "''g''" "''w1''" idle_task _ 30 "''w3''" "[(15, 20, ''w2'')]" "minutes 1"]
  by (auto simp: sample_pipeline_def minutes_def)

end
