(* ===== verification/Operator_Errors.thy ===== *)
theory Operator_Errors
  imports Ext_Base
begin

text \<open>
  The catalog of operator errors (\<open>pg-tide-relay/src/operator_errors.rs\<close>) and the diagnostics the
  commands print from it (\<open>pg-tide-relay/src/cmd/diagnostic.rs\<close>).  The lemmas show that no code the
  relay or the extension reports is missing from the catalog.
\<close>

section \<open>The catalog\<close>

record descriptor =
  d_code :: string
  d_surface :: string
  d_component :: string
  d_summary :: string
  d_likely_cause :: string
  d_next_action :: string
  d_runbook :: string
  d_retryable :: bool
  d_cli_exit_code :: "nat option"
  d_safe_context_keys :: "string list"
  d_since :: string

definition catalog_entry :: "string \<Rightarrow> string \<Rightarrow> string \<Rightarrow> string \<Rightarrow> string \<Rightarrow> string \<Rightarrow> string \<Rightarrow> bool \<Rightarrow> nat option
    \<Rightarrow> string list \<Rightarrow> string \<Rightarrow> descriptor" where
  "catalog_entry code surface component summary cause action runbook retryable exit_code keys since =
     \<lparr> d_code = code, d_surface = surface, d_component = component, d_summary = summary,
       d_likely_cause = cause, d_next_action = action, d_runbook = runbook, d_retryable = retryable,
       d_cli_exit_code = exit_code, d_safe_context_keys = keys, d_since = since \<rparr>"

definition catalog_part1 :: "descriptor list" where
  "catalog_part1 =
    [catalog_entry ''operator.failure'' ''cli'' ''relay''
       ''The requested operation could not be completed.''
       ''The relay dependency or catalog state is unavailable.''
       ''Run `pg-tide doctor` and inspect the relay logs.''
       ''relay-will-not-start'' False (Some 1) [] ''v0.47.0'',
     catalog_entry ''PGTIDE_EXTENSION_VERSION_INCOMPATIBLE'' ''cli'' ''postgres.extension''
       ''The installed pg_tide extension is outside the relay lifecycle policy.''
       ''The extension and relay versions are not compatible.''
       ''Upgrade the extension or relay to an adjacent supported version.''
       ''failed-upgrade'' False (Some 1) [''installed_version'', ''relay_version''] ''v0.47.0'',
     catalog_entry ''PGTIDE_POSTGRES_UNAVAILABLE'' ''cli'' ''postgres''
       ''PostgreSQL is unavailable.''
       ''The database is unreachable or refused the connection.''
       ''Check PostgreSQL reachability and retry the command.''
       ''relay-will-not-start'' True (Some 1) [] ''v0.54.0'',
     catalog_entry ''PGTIDE_POSTGRES_AUTHENTICATION'' ''cli'' ''postgres''
       ''PostgreSQL authentication was rejected.''
       ''The configured database credentials are invalid or expired.''
       ''Check the URL file or secret and retry with valid credentials.''
       ''relay-will-not-start'' False (Some 1) [] ''v0.54.0'',
     catalog_entry ''PGTIDE_POSTGRES_AUTHORIZATION'' ''cli'' ''postgres''
       ''PostgreSQL denied the requested operation.''
       ''The database role lacks a required schema or table privilege.''
       ''Grant the documented pg_tide privileges and retry.''
       ''relay-will-not-start'' False (Some 1) [] ''v0.54.0'',
     catalog_entry ''PGTIDE_CATALOG_MISSING'' ''cli'' ''postgres.catalog''
       ''The pg_tide catalog is missing.''
       ''The extension has not been installed or its migration is incomplete.''
       ''Install or upgrade pg_tide, then run `pg-tide doctor` again.''
       ''failed-upgrade'' False (Some 1) [] ''v0.54.0'',
     catalog_entry ''PGTIDE_PIPELINE_NOT_FOUND'' ''cli'' ''postgres.catalog''
       ''The requested pipeline was not found.''
       ''The pipeline name is absent from the PostgreSQL catalog.''
       ''Check the pipeline name and configure it before retrying.''
       ''pipeline-undiscovered'' False (Some 1) [''pipeline''] ''v0.54.0'',
     catalog_entry ''PGTIDE_PIPELINE_INVALID'' ''cli'' ''relay.pipeline''
       ''The pipeline configuration is invalid.''
       ''A required pipeline field or secret reference is invalid.''
       ''Run `pg-tide config validate` and correct the reported configuration.''
       ''relay-will-not-start'' False (Some 1) [''pipeline''] ''v0.54.0'',
     catalog_entry ''PGTIDE_PIPELINE_NOT_DISCOVERED'' ''cli'' ''relay.pipeline''
       ''The pipeline was not discovered by the relay.''
       ''The catalog row is absent, disabled, or outside the relay tenant.''
       ''Check catalog configuration, tenant ownership, and relay logs.''
       ''pipeline-undiscovered'' False (Some 1) [''pipeline''] ''v0.54.0'',
     catalog_entry ''PGTIDE_PIPELINE_NOT_OWNED'' ''cli'' ''relay.pipeline''
       ''The relay does not own the requested pipeline.''
       ''Another relay holds the advisory lock or tenant ownership is different.''
       ''Check relay group and tenant ownership before retrying.''
       ''ownership-ambiguity'' True (Some 1) [''pipeline''] ''v0.54.0'',
     catalog_entry ''PGTIDE_CONNECTOR_UNAVAILABLE'' ''cli'' ''connector''
       ''The destination connector is unavailable.''
       ''The destination service is unreachable or not ready.''
       ''Check destination health and retry the operation.''
       ''relay-will-not-start'' True (Some 1) [''connector''] ''v0.54.0'']"

definition catalog_part2 :: "descriptor list" where
  "catalog_part2 =
    [catalog_entry ''PGTIDE_CONNECTOR_TIMEOUT'' ''cli'' ''connector''
       ''The destination connector timed out.''
       ''The destination exceeded its configured request timeout.''
       ''Check destination latency and retry the operation.''
       ''relay-will-not-start'' True (Some 1) [''connector''] ''v0.54.0'',
     catalog_entry ''PGTIDE_CONNECTOR_THROTTLED'' ''cli'' ''connector''
       ''The destination connector throttled the request.''
       ''The destination rate limit was exceeded.''
       ''Wait for the destination rate limit to recover, then retry.''
       ''relay-will-not-start'' True (Some 1) [''connector''] ''v0.54.0'',
     catalog_entry ''PGTIDE_CONNECTOR_AUTHENTICATION'' ''cli'' ''connector''
       ''The destination connector rejected authentication.''
       ''The destination credential is invalid, expired, or unavailable.''
       ''Refresh the destination credential and validate the pipeline.''
       ''relay-will-not-start'' False (Some 1) [''connector''] ''v0.54.0'',
     catalog_entry ''PGTIDE_CONNECTOR_AUTHORIZATION'' ''cli'' ''connector''
       ''The destination connector denied authorization.''
       ''The destination identity lacks permission for the target.''
       ''Grant the required destination permission and retry.''
       ''relay-will-not-start'' False (Some 1) [''connector''] ''v0.54.0'',
     catalog_entry ''PGTIDE_TLS_VERIFICATION_FAILED'' ''cli'' ''connector''
       ''TLS verification failed.''
       ''The certificate, trust store, hostname, or TLS mode is invalid.''
       ''Check the CA and hostname configuration; do not disable verification.''
       ''relay-will-not-start'' False (Some 1) [''connector''] ''v0.54.0'',
     catalog_entry ''PGTIDE_WEBHOOK_SSRF_REJECTED'' ''cli'' ''connector.webhook''
       ''The webhook destination was rejected by SSRF protection.''
       ''The endpoint resolves to a private, loopback, link-local, or otherwise blocked address.''
       ''Use an approved public HTTPS endpoint or review the webhook policy.''
       ''webhook-authentication-failure'' False (Some 1) [''connector''] ''v0.54.0'',
     catalog_entry ''PGTIDE_CONNECTOR_INVALID_DESTINATION'' ''cli'' ''connector''
       ''The destination address or topic is invalid.''
       ''The configured destination does not exist or violates connector rules.''
       ''Correct the destination and run `pg-tide config validate`.''
       ''relay-will-not-start'' False (Some 1) [''connector''] ''v0.54.0'',
     catalog_entry ''PGTIDE_CONNECTOR_MESSAGE_TOO_LARGE'' ''cli'' ''connector''
       ''The connector rejected a message that exceeded its limit.''
       ''The batch or message is larger than the destination limit.''
       ''Reduce message or batch size and retry.''
       ''relay-will-not-start'' False (Some 1) [''connector''] ''v0.54.0'',
     catalog_entry ''PGTIDE_CONNECTOR_PROTOCOL_REJECTION'' ''cli'' ''connector''
       ''The destination rejected the request protocol.''
       ''The destination schema, topic, or request format is incompatible.''
       ''Check the destination contract and pipeline configuration.''
       ''relay-will-not-start'' False (Some 1) [''connector''] ''v0.54.0'',
     catalog_entry ''PGTIDE_CONNECTOR_INVALID_CONFIG'' ''cli'' ''connector''
       ''The connector configuration is invalid.''
       ''A required destination setting is missing or malformed.''
       ''Run `pg-tide config validate` and correct the connector settings.''
       ''relay-will-not-start'' False (Some 1) [''connector''] ''v0.54.0'',
     catalog_entry ''PGTIDE_CONNECTOR_UNKNOWN'' ''cli'' ''connector''
       ''The destination connector failed unexpectedly.''
       ''The destination returned an unclassified failure.''
       ''Run `pg-tide doctor`, inspect the connector logs, and retry if safe.''
       ''relay-will-not-start'' True (Some 1) [''connector''] ''v0.54.0'']"

definition catalog_part3 :: "descriptor list" where
  "catalog_part3 =
    [catalog_entry ''PGTIDE_REPLAY_INPUT_INVALID'' ''cli'' ''relay.replay''
       ''The replay or DLQ input is invalid.''
       ''The pipeline, ID range, or DLQ key does not satisfy replay requirements.''
       ''Check replay arguments and use a bounded valid range.''
       ''dlq-growth'' False (Some 1) [''pipeline''] ''v0.54.0'',
     catalog_entry ''PGTIDE_MAINTENANCE_SWEEP_FAILED'' ''cli'' ''postgres.maintenance''
       ''The maintenance sweep could not be completed.''
       ''The catalog or outbox cleanup operation failed.''
       ''Check PostgreSQL health and retry the bounded sweep.''
       ''cleanup-failure'' True (Some 1) [''outbox''] ''v0.54.0'',
     catalog_entry ''PGTIDE_SHUTDOWN_FAILED'' ''cli'' ''relay.shutdown''
       ''The relay could not complete graceful shutdown.''
       ''An in-flight operation or coordination channel closed unexpectedly.''
       ''Inspect relay logs and verify that ownership was released before restarting.''
       ''ownership-ambiguity'' True (Some 1) [] ''v0.54.0'',
     catalog_entry ''PGTIDE_SUPPORT_BUNDLE_WRITE_FAILED'' ''cli'' ''support.bundle''
       ''The support bundle could not be written.''
       ''The output directory is missing or is not writable.''
       ''Choose a writable empty directory and retry the diagnostic command.''
       ''relay-will-not-start'' False (Some 1) [] ''v0.54.0'',
     catalog_entry ''PGTIDE_INTERNAL_FAILURE'' ''cli'' ''relay''
       ''The relay encountered an internal failure.''
       ''An unexpected error occurred outside a classified operational path.''
       ''Run `pg-tide doctor`, collect redacted diagnostics, and contact the maintainers.''
       ''relay-will-not-start'' True (Some 1) [] ''v0.54.0'',
     catalog_entry ''PGTIDE_CONFIG_UNSUPPORTED_SURFACE'' ''sql'' ''postgres.catalog''
       ''The requested configuration surface is not supported.''
       ''The function targets a removed or unsupported v1 surface.''
       ''Use the documented supported SQL API alternative.''
       ''failed-upgrade'' False (None) [''surface''] ''v0.48.0'',
     catalog_entry ''PGTIDE_OUTBOX_ALREADY_EXISTS'' ''sql'' ''postgres.outbox''
       ''The outbox already exists.''
       ''A create operation used an existing outbox name.''
       ''Choose a new name or use the existing outbox.''
       ''relay-will-not-start'' False (None) [''outbox''] ''v0.54.0'',
     catalog_entry ''PGTIDE_OUTBOX_NOT_FOUND'' ''sql'' ''postgres.outbox''
       ''The outbox was not found.''
       ''The requested outbox name is absent from the catalog.''
       ''Check the outbox name and create it before retrying.''
       ''relay-will-not-start'' False (None) [''outbox''] ''v0.54.0'',
     catalog_entry ''PGTIDE_INBOX_ALREADY_EXISTS'' ''sql'' ''postgres.inbox''
       ''The inbox already exists.''
       ''A create operation used an existing inbox name.''
       ''Choose a new name or use the existing inbox.''
       ''relay-will-not-start'' False (None) [''inbox''] ''v0.54.0'',
     catalog_entry ''PGTIDE_INBOX_NOT_FOUND'' ''sql'' ''postgres.inbox''
       ''The inbox was not found.''
       ''The requested inbox name is absent from the catalog.''
       ''Check the inbox name and create it before retrying.''
       ''relay-will-not-start'' False (None) [''inbox''] ''v0.54.0'',
     catalog_entry ''PGTIDE_RELAY_NOT_FOUND'' ''sql'' ''postgres.catalog''
       ''The relay pipeline was not found.''
       ''The requested relay name is absent from the catalog.''
       ''Check the relay name and configure it before retrying.''
       ''pipeline-undiscovered'' False (None) [''pipeline''] ''v0.54.0'']"

definition catalog_part4 :: "descriptor list" where
  "catalog_part4 =
    [catalog_entry ''PGTIDE_INVALID_ARGUMENT'' ''sql'' ''postgres.validation''
       ''A SQL function argument is invalid.''
       ''A required identifier, range, or option failed validation.''
       ''Correct the argument using the documented SQL constraints.''
       ''relay-will-not-start'' False (None) [] ''v0.54.0'',
     catalog_entry ''PGTIDE_SWEEP_FAILED'' ''sql'' ''postgres.maintenance''
       ''The outbox sweep failed.''
       ''The cleanup query or catalog state could not complete.''
       ''Check PostgreSQL health and retry the bounded sweep.''
       ''cleanup-failure'' True (None) [''outbox''] ''v0.54.0'',
     catalog_entry ''PGTIDE_PUBLISH_DENIED'' ''sql'' ''postgres.authorization''
       ''Publishing to the outbox was denied.''
       ''The current role lacks the configured publish privilege.''
       ''Grant publish permission to the role or use an authorized role.''
       ''relay-will-not-start'' False (None) [''outbox''] ''v0.54.0'',
     catalog_entry ''PGTIDE_AUTHORIZATION_FAILED'' ''sql'' ''postgres.authorization''
       ''The PostgreSQL authorization check failed.''
       ''The current role or catalog privilege is insufficient.''
       ''Review the pg_tide grants and retry with an authorized role.''
       ''relay-will-not-start'' False (None) [''outbox''] ''v0.54.0'',
     catalog_entry ''PGTIDE_SPI_ERROR'' ''sql'' ''postgres.catalog''
       ''The PostgreSQL catalog operation failed.''
       ''The database returned an internal or unexpected catalog error.''
       ''Inspect the PostgreSQL error context and verify catalog health.''
       ''relay-will-not-start'' True (None) [] ''v0.54.0'']"

definition catalog :: "descriptor list" where
  "catalog = catalog_part1 @ catalog_part2 @ catalog_part3 @ catalog_part4"

text \<open>\<open>operator_errors::find\<close>.\<close>

definition find_descriptor :: "string \<Rightarrow> descriptor option" where
  "find_descriptor code = List.find (\<lambda>d. d_code d = code) catalog"

section \<open>Diagnostics\<close>

record diagnostic =
  dg_code :: string
  dg_component :: string
  dg_message :: string
  dg_likely_cause :: string
  dg_next_action :: string

definition fallback_diagnostic :: "string \<Rightarrow> diagnostic" where
  "fallback_diagnostic component =
     \<lparr> dg_code = ''operator.failure'', dg_component = component,
       dg_message = ''The requested operation could not be completed.'',
       dg_likely_cause = ''The relay dependency or catalog state is unavailable.'',
       dg_next_action = ''Run `pg-tide doctor` and inspect the relay logs.'' \<rparr>"

definition diagnostic_for :: "string \<Rightarrow> string \<Rightarrow> diagnostic" where
  "diagnostic_for component code =
     (case (case find_descriptor code of Some d \<Rightarrow> Some d | None \<Rightarrow> find_descriptor ''operator.failure'') of
        None \<Rightarrow> fallback_diagnostic component
      | Some d \<Rightarrow>
          \<lparr> dg_code = d_code d, dg_component = component, dg_message = d_summary d,
            dg_likely_cause = d_likely_cause d,
            dg_next_action = (if code = ''operator.failure'' then d_next_action d
                              else d_next_action d @ '' (runbook: '' @ d_runbook d @ '').'') \<rparr>)"

text \<open>The classification of a boxed error by its lower-case text.\<close>

definition code_of_text :: "string \<Rightarrow> string" where
  "code_of_text text =
     (if str_contains ''support.bundle'' text then ''PGTIDE_SUPPORT_BUNDLE_WRITE_FAILED''
      else if str_contains ''shutdown'' text then ''PGTIDE_SHUTDOWN_FAILED''
      else if str_contains ''replay'' text \<or> str_contains ''dlq'' text then ''PGTIDE_REPLAY_INPUT_INVALID''
      else if str_contains ''webhook'' text \<and> str_contains ''ssrf'' text then ''PGTIDE_WEBHOOK_SSRF_REJECTED''
      else if str_contains ''tls'' text \<or> str_contains ''ssl'' text then ''PGTIDE_TLS_VERIFICATION_FAILED''
      else if str_contains ''authentication'' text then ''PGTIDE_POSTGRES_AUTHENTICATION''
      else if str_contains ''not found'' text \<and> str_contains ''pipeline'' text then ''PGTIDE_PIPELINE_NOT_FOUND''
      else if str_contains ''not discovered'' text then ''PGTIDE_PIPELINE_NOT_DISCOVERED''
      else if str_contains ''not owned'' text then ''PGTIDE_PIPELINE_NOT_OWNED''
      else if str_contains ''catalog'' text \<and> str_contains ''missing'' text then ''PGTIDE_CATALOG_MISSING''
      else if str_contains ''preflight'' text \<or> str_contains ''invalid config'' text then ''PGTIDE_PIPELINE_INVALID''
      else if str_contains ''permission'' text \<or> str_contains ''authorization'' text then ''PGTIDE_POSTGRES_AUTHORIZATION''
      else if str_contains ''connection failed'' text \<or> str_contains ''connect'' text then ''PGTIDE_POSTGRES_UNAVAILABLE''
      else if str_contains ''sweep'' text then ''PGTIDE_MAINTENANCE_SWEEP_FAILED''
      else ''operator.failure'')"

definition from_error :: "string \<Rightarrow> string \<Rightarrow> diagnostic" where
  "from_error component shown = diagnostic_for component (code_of_text (to_ascii_lowercase shown))"

definition from_relay_error :: "string \<Rightarrow> relay_error \<Rightarrow> diagnostic" where
  "from_relay_error component e = diagnostic_for component (operator_code_for component e)"

text \<open>A boxed error is a relay error or another one, known by its text.\<close>

definition from_boxed_error :: "string \<Rightarrow> relay_error + string \<Rightarrow> diagnostic" where
  "from_boxed_error component e =
     (case e of Inl re \<Rightarrow> from_relay_error component re | Inr shown \<Rightarrow> from_error component shown)"

text \<open>The envelope of \<open>cmd/output.rs\<close>, as the JSON that \<open>serde\<close> prints.\<close>

definition diagnostic_json :: "diagnostic \<Rightarrow> json" where
  "diagnostic_json d =
     JObj [(''code'', JStr (dg_code d)), (''component'', JStr (dg_component d)), (''message'', JStr (dg_message d)),
           (''likely_cause'', JStr (dg_likely_cause d)), (''next_action'', JStr (dg_next_action d))]"

definition output_envelope :: "string \<Rightarrow> string \<Rightarrow> diagnostic + json \<Rightarrow> json" where
  "output_envelope command observed_at outcome =
     JObj [(''schema_version'', JInt 1), (''command'', JStr command),
           (''ok'', JBool (is_ok outcome)), (''observed_at'', JStr observed_at),
           (''data'', case outcome of Inr v \<Rightarrow> v | Inl _ \<Rightarrow> JNull),
           (''error'', case outcome of Inr _ \<Rightarrow> JNull | Inl d \<Rightarrow> diagnostic_json d)]"

section \<open>The catalog is complete\<close>

definition catalog_codes :: "string list" where
  "catalog_codes = map d_code catalog"

lemma catalog_codes_parts:
  "map d_code catalog_part1 @ map d_code catalog_part2 @ map d_code catalog_part3 @ map d_code catalog_part4 = catalog_codes"
  by (simp add: catalog_codes_def catalog_def)

lemma find_descriptor_code: "code \<in> set catalog_codes \<Longrightarrow> \<exists>d. find_descriptor code = Some d \<and> d_code d = code"
proof -
  assume "code \<in> set catalog_codes"
  then have "find_descriptor code \<noteq> None"
    by (auto simp: find_descriptor_def catalog_codes_def find_None_iff)
  then obtain d where d: "find_descriptor code = Some d" by blast
  with find_Some_D [of "\<lambda>d. d_code d = code" catalog d] show ?thesis by (simp add: find_descriptor_def)
qed

lemma catalog_codes_list:
  "catalog_codes =
    map d_code catalog_part1 @ map d_code catalog_part2 @ map d_code catalog_part3 @ map d_code catalog_part4"
  by (simp add: catalog_codes_parts)

lemmas part_codes = catalog_part1_def catalog_part2_def catalog_part3_def catalog_part4_def catalog_entry_def

text \<open>The codes of the catalog, as the source lists them.\<close>

lemma catalog_codes_explicit:
  "catalog_codes =
    [''operator.failure'', ''PGTIDE_EXTENSION_VERSION_INCOMPATIBLE'',
     ''PGTIDE_POSTGRES_UNAVAILABLE'', ''PGTIDE_POSTGRES_AUTHENTICATION'',
     ''PGTIDE_POSTGRES_AUTHORIZATION'', ''PGTIDE_CATALOG_MISSING'',
     ''PGTIDE_PIPELINE_NOT_FOUND'', ''PGTIDE_PIPELINE_INVALID'',
     ''PGTIDE_PIPELINE_NOT_DISCOVERED'', ''PGTIDE_PIPELINE_NOT_OWNED'',
     ''PGTIDE_CONNECTOR_UNAVAILABLE'', ''PGTIDE_CONNECTOR_TIMEOUT'',
     ''PGTIDE_CONNECTOR_THROTTLED'', ''PGTIDE_CONNECTOR_AUTHENTICATION'',
     ''PGTIDE_CONNECTOR_AUTHORIZATION'', ''PGTIDE_TLS_VERIFICATION_FAILED'',
     ''PGTIDE_WEBHOOK_SSRF_REJECTED'', ''PGTIDE_CONNECTOR_INVALID_DESTINATION'',
     ''PGTIDE_CONNECTOR_MESSAGE_TOO_LARGE'', ''PGTIDE_CONNECTOR_PROTOCOL_REJECTION'',
     ''PGTIDE_CONNECTOR_INVALID_CONFIG'', ''PGTIDE_CONNECTOR_UNKNOWN'',
     ''PGTIDE_REPLAY_INPUT_INVALID'', ''PGTIDE_MAINTENANCE_SWEEP_FAILED'',
     ''PGTIDE_SHUTDOWN_FAILED'', ''PGTIDE_SUPPORT_BUNDLE_WRITE_FAILED'',
     ''PGTIDE_INTERNAL_FAILURE'', ''PGTIDE_CONFIG_UNSUPPORTED_SURFACE'',
     ''PGTIDE_OUTBOX_ALREADY_EXISTS'', ''PGTIDE_OUTBOX_NOT_FOUND'',
     ''PGTIDE_INBOX_ALREADY_EXISTS'', ''PGTIDE_INBOX_NOT_FOUND'',
     ''PGTIDE_RELAY_NOT_FOUND'', ''PGTIDE_INVALID_ARGUMENT'',
     ''PGTIDE_SWEEP_FAILED'', ''PGTIDE_PUBLISH_DENIED'',
     ''PGTIDE_AUTHORIZATION_FAILED'', ''PGTIDE_SPI_ERROR'']"
  by (simp add: catalog_codes_list part_codes)

lemma catalog_codes_distinct: "distinct catalog_codes"
  by (simp add: catalog_codes_explicit)

lemma postgres_code_catalogued: "postgres_operator_code err \<in> set catalog_codes"
  by (auto simp: postgres_operator_code_def catalog_codes_explicit split: option.splits)

lemma connector_code_catalogued: "connector_operator_code c code \<in> set catalog_codes"
  by (cases code) (simp_all add: connector_operator_code_def catalog_codes_explicit)

lemma relay_code_catalogued: "error_operator_code cmp e \<in> set catalog_codes"
  by (cases e, simp_all add: postgres_code_catalogued connector_code_catalogued)
    (simp_all add: catalog_codes_explicit)

lemma operator_code_catalogued: "operator_code_for cmp e \<in> set catalog_codes"
proof -
  have "{''PGTIDE_SUPPORT_BUNDLE_WRITE_FAILED'', ''PGTIDE_MAINTENANCE_SWEEP_FAILED'',
         ''PGTIDE_REPLAY_INPUT_INVALID'', ''PGTIDE_SHUTDOWN_FAILED''} \<subseteq> set catalog_codes"
    by (simp add: catalog_codes_explicit)
  then show ?thesis using relay_code_catalogued [of cmp e]
    by (simp add: operator_code_for_def)
qed

lemma extension_code_catalogued: "error_code x \<in> set catalog_codes"
  by (cases x) (simp_all add: catalog_codes_explicit)

definition text_codes :: "string set" where
  "text_codes = {''PGTIDE_SUPPORT_BUNDLE_WRITE_FAILED'', ''PGTIDE_SHUTDOWN_FAILED'',
     ''PGTIDE_REPLAY_INPUT_INVALID'', ''PGTIDE_WEBHOOK_SSRF_REJECTED'', ''PGTIDE_TLS_VERIFICATION_FAILED'',
     ''PGTIDE_POSTGRES_AUTHENTICATION'', ''PGTIDE_PIPELINE_NOT_FOUND'', ''PGTIDE_PIPELINE_NOT_DISCOVERED'',
     ''PGTIDE_PIPELINE_NOT_OWNED'', ''PGTIDE_CATALOG_MISSING'', ''PGTIDE_PIPELINE_INVALID'',
     ''PGTIDE_POSTGRES_AUTHORIZATION'', ''PGTIDE_POSTGRES_UNAVAILABLE'', ''PGTIDE_MAINTENANCE_SWEEP_FAILED'',
     ''operator.failure''}"

lemma text_codes_catalogued: "text_codes \<subseteq> set catalog_codes"
  by (simp add: text_codes_def catalog_codes_explicit)

lemma if_memberI: "a \<in> S \<Longrightarrow> b \<in> S \<Longrightarrow> (if c then a else b) \<in> S"
  by simp

lemma code_of_text_codes: "code_of_text shown \<in> text_codes"
  unfolding code_of_text_def by (intro if_memberI) (simp_all add: text_codes_def)

lemma diagnostic_for_code: "code \<in> set catalog_codes \<Longrightarrow> dg_code (diagnostic_for component code) = code"
  using find_descriptor_code [of code] by (auto simp: diagnostic_for_def)

text \<open>C40: Every code that the relay reports for an error, that the extension puts into its messages,
  or that the classification of a foreign error's text yields has a descriptor in the catalog, so a
  diagnostic carries exactly that code and never the built-in fallback; the codes of the catalog are
  distinct.\<close>

theorem every_reported_code_is_catalogued:
  "dg_code (from_relay_error component e) = operator_code_for component e
   \<and> dg_code (diagnostic_for component (error_code x)) = error_code x
   \<and> dg_code (from_error component shown) = code_of_text (to_ascii_lowercase shown)
   \<and> distinct (map d_code catalog)"
proof (intro conjI)
  show "dg_code (from_relay_error component e) = operator_code_for component e"
    by (simp add: from_relay_error_def diagnostic_for_code operator_code_catalogued)
  show "dg_code (diagnostic_for component (error_code x)) = error_code x"
    by (simp add: diagnostic_for_code extension_code_catalogued)
  show "dg_code (from_error component shown) = code_of_text (to_ascii_lowercase shown)"
    using text_codes_catalogued code_of_text_codes
    by (auto simp: from_error_def intro!: diagnostic_for_code)
  show "distinct (map d_code catalog)"
    using catalog_codes_distinct by (simp add: catalog_codes_def)
qed

text \<open>The words are searched in the whole text, names included.\<close>

lemma pipeline_name_misclassified:
  "code_of_text ''pipeline orders not found'' = ''PGTIDE_PIPELINE_NOT_FOUND''
   \<and> code_of_text ''pipeline dlq-orders not found'' = ''PGTIDE_REPLAY_INPUT_INVALID''"
  by code_simp

end
