(* ===== verification/Doctor.thy ===== *)
theory Doctor
  imports Status_Report Operator_Errors Relay_Cluster
begin

text \<open>
  \<open>pg-tide doctor\<close> (\<open>pg-tide-relay/src/cmd/doctor.rs\<close>): the JSON collection that the support bundle
  shares, and the longer list of checks of the text form.  What PostgreSQL answers to each query is a
  field of \<open>doctor_db\<close>, a failed query included; of a printed line its level and its subject are kept.
\<close>

section \<open>The answers of the database\<close>

record doctor_db =
  dq_connect :: "string + unit"
  dq_version :: "pg_error + string option"
  dq_schema :: "pg_error + bool"
  dq_table :: "string \<Rightarrow> pg_error + bool"
  dq_pipelines :: "pg_error + pipeline_config list"
  dq_tls :: "(bool \<times> string) option"
  dq_change_id_column :: "pg_error + bool"
  dq_truncate_routine :: "pg_error + bool"
  dq_regclass :: "string \<Rightarrow> pg_error + bool"
  dq_regprocedure :: "string \<Rightarrow> pg_error + bool"
  dq_count :: "string \<Rightarrow> pg_error + int"
  dq_layout :: "string option"
  dq_partitioned :: "pg_error + bool"
  dq_privilege :: "string \<Rightarrow> pg_error + bool"
  dq_advisory_lock :: "pg_error + bool"
  dq_listen :: "pg_error + unit"
  dq_partition_warning :: "string option"

text \<open>\<open>.map(|r| r.get(0)).unwrap_or(..)\<close>: a failed query reads as its default.\<close>

fun answer_or :: "'a \<Rightarrow> pg_error + 'a \<Rightarrow> 'a" where
  "answer_or d (Inl e) = d"
| "answer_or d (Inr v) = v"

type_synonym boxed_error = "relay_error + string"

definition boxed_pg :: "pg_error + 'a \<Rightarrow> boxed_error + 'a" where
  "boxed_pg q = map_err (\<lambda>e. Inr (pg_text e)) q"

section \<open>The JSON collection\<close>

definition required_tables :: "string list" where
  "required_tables =
    [''tide_outbox_config'', ''tide_outbox_messages'', ''tide_inbox_config'', ''relay_outbox_config'',
     ''relay_inbox_config'', ''relay_consumer_offsets'', ''relay_runtime_status'']"

definition pass_fail :: "bool \<Rightarrow> json" where
  "pass_fail ok = JStr (if ok then ''pass'' else ''fail'')"

definition table_check :: "string \<Rightarrow> bool \<Rightarrow> json" where
  "table_check table exists =
     JObj [(''component'', JStr (''postgres.tide.'' @ table)), (''status'', pass_fail exists)]"

definition severity_text :: "severity \<Rightarrow> string" where
  "severity_text s = (case s of SevError \<Rightarrow> ''error'' | SevWarning \<Rightarrow> ''warning'')"

definition issue_json :: "preflight_issue \<Rightarrow> json" where
  "issue_json i =
     JObj [(''pipeline'', JStr (pi_pipeline i)), (''reason'', JStr (pi_reason i)),
           (''severity'', JStr (severity_text (pi_severity i)))]"

record doctor_collection =
  dc_data :: json
  dc_healthy :: bool

definition collect_doctor_data :: "schema_env \<Rightarrow> string \<Rightarrow> doctor_db \<Rightarrow> boxed_error + doctor_collection" where
  "collect_doctor_data env relay_version q =
     and_then (map_err (\<lambda>e. Inr (''connection failed: '' @ e)) (dq_connect q)) (\<lambda>_.
     and_then (map_err Inl (check_client (dq_version q) relay_version)) (\<lambda>decision.
     and_then (boxed_pg (dq_schema q)) (\<lambda>schema_exists.
     and_then (map_result (\<lambda>t. boxed_pg (dq_table q t)) required_tables) (\<lambda>exists.
     and_then (boxed_pg (dq_pipelines q)) (\<lambda>pipelines.
       (let issues = validate_pipelines env pipelines
        in Inr \<lparr> dc_data =
             JObj [(''compatibility'', decision_json decision),
                   (''extension_version'', JStr (cd_extension_version decision)),
                   (''pipelines'', JObj
                     [(''count'', JInt (int (length pipelines))),
                      (''preflight_issues'', JArr (map issue_json issues))]),
                   (''schema'', JObj [(''status'', pass_fail schema_exists)]),
                   (''tables'', JArr (map2 table_check required_tables exists))],
             dc_healthy = (schema_exists \<and> (\<forall>e \<in> set exists. e) \<and> report_valid issues) \<rparr>))))))"

definition run_doctor_json :: "schema_env \<Rightarrow> string \<Rightarrow> doctor_db \<Rightarrow> boxed_error + json" where
  "run_doctor_json env relay_version q =
     and_then (collect_doctor_data env relay_version q) (\<lambda>c.
       if dc_healthy c then Inr (dc_data c) else Inl (Inr ''doctor found one or more failed checks''))"

text \<open>The one envelope that the JSON form prints, with the success of the command.\<close>

definition doctor_json_output :: "schema_env \<Rightarrow> string \<Rightarrow> string \<Rightarrow> doctor_db \<Rightarrow> json \<times> bool" where
  "doctor_json_output env relay_version observed_at q =
     (case run_doctor_json env relay_version q of
        Inr data \<Rightarrow> (output_envelope ''doctor'' observed_at (Inr data), True)
      | Inl e \<Rightarrow> (output_envelope ''doctor'' observed_at (Inl (from_boxed_error ''postgres.catalog'' e)), False))"

section \<open>The text form\<close>

datatype level = LvOk | LvWarn | LvFail | LvInfo

type_synonym finding = "(level \<times> string) list \<times> bool"

text \<open>A check that fails the doctor, and one that only warns.\<close>

definition must :: "bool \<Rightarrow> string \<Rightarrow> finding" where
  "must ok what = ([(if ok then LvOk else LvFail, what)], ok)"

definition should :: "bool \<Rightarrow> level \<Rightarrow> string \<Rightarrow> finding" where
  "should ok otherwise what = ([(if ok then LvOk else otherwise, what)], True)"

definition tls_check :: "string \<Rightarrow> doctor_db \<Rightarrow> finding" where
  "tls_check url q =
     (case dq_tls q of
        None \<Rightarrow> ([], True)
      | Some (ssl, version) \<Rightarrow>
          if ssl then
            should (\<not> (str_contains ''TLSv1.1'' version \<or> str_contains ''TLSv1.0'' version)) LvWarn (''TLS '' @ version)
          else if str_contains ''sslmode=require'' url \<or> str_contains ''sslmode=verify-ca'' url
               \<or> str_contains ''sslmode=verify-full'' url
          then ([(LvWarn, ''plaintext although sslmode requests TLS'')], True)
          else ([(LvInfo, ''plaintext'')], True))"

definition text_tables :: "string list" where
  "text_tables =
    [''tide_outbox_config'', ''tide_outbox_messages'', ''tide_inbox_config'', ''relay_outbox_config'',
     ''relay_inbox_config'', ''relay_consumer_offsets'']"

definition schema_checks :: "doctor_db \<Rightarrow> finding list" where
  "schema_checks q =
     must (answer_or False (dq_schema q)) ''schema''
     # map (\<lambda>t. must (answer_or False (dq_table q t)) t) text_tables
     @ [([(if answer_or False (dq_change_id_column q) then LvOk else LvWarn, ''last_change_id'')],
         answer_or False (dq_change_id_column q)),
        ([(LvInfo, show_int (answer_or 0 (dq_count q ''forward'')) @ '' forward pipeline(s), ''
                   @ show_int (answer_or 0 (dq_count q ''reverse'')) @ '' reverse pipeline(s)'')], True),
        should (answer_or False (dq_truncate_routine q)) LvWarn ''outbox_truncate_delivered'']"

definition retention_checks :: "doctor_db \<Rightarrow> finding list" where
  "retention_checks q =
     map (\<lambda>t. must (answer_or False (dq_regclass q t)) t) [''outbox_cleanup_state'', ''outbox_storage_config'']
     @ map (\<lambda>v. must (answer_or False (dq_regclass q v)) v) [''outbox_retention_status'', ''relay_pipeline_lag'']
     @ [must (answer_or False (dq_regprocedure q ''tide.outbox_sweep(text,integer,boolean)'')) ''outbox_sweep'',
        should (answer_or False (dq_regprocedure q ''tide.outbox_maintain_partitions(integer,boolean)'')) LvWarn
          ''outbox_maintain_partitions'']
     @ (if answer_or False (dq_regclass q ''outbox_cleanup_state'')
        then [should (answer_or 0 (dq_count q ''stale_cleanup'') = 0) LvWarn ''cleanup state''] else [])
     @ [should (\<not> 0 < answer_or 0 (dq_count q ''default_rows'')) LvWarn ''default partitions'',
        must (0 < answer_or 0 (dq_count q ''cleanup_index'')) ''cleanup index'',
        (case dq_layout q of
           Some layout \<Rightarrow> must (layout = (if answer_or False (dq_partitioned q) then ''id_range'' else ''heap'')) ''storage layout''
         | None \<Rightarrow> must False ''storage layout'')]"

definition relay_checks :: "int \<Rightarrow> doctor_db \<Rightarrow> finding list" where
  "relay_checks dlq_warn_threshold q =
     [must (answer_or False (dq_privilege q ''tide.relay_dlq'')) ''INSERT on relay_dlq'',
      should (answer_or False (dq_advisory_lock q)) LvWarn ''advisory lock'',
      must (is_ok (dq_listen q)) ''LISTEN tide_relay_config'',
      should (\<not> dlq_warn_threshold < answer_or 0 (dq_count q ''dlq_hourly'')) LvWarn ''DLQ hourly rate'',
      (case dq_partition_warning q of None \<Rightarrow> ([], True) | Some ob \<Rightarrow> ([(LvWarn, ''partition '' @ ob)], True))]"

definition receipt_checks :: "doctor_db \<Rightarrow> finding list" where
  "receipt_checks q =
     (let there = answer_or False (dq_table q ''relay_delivery_receipts'')
      in [if there then should (answer_or False (dq_privilege q ''tide.relay_delivery_receipts'')) LvWarn ''INSERT on receipts''
          else ([(LvInfo, ''receipts not found'')], True),
          should (answer_or False (dq_privilege q ''lo_get(oid)'')) LvWarn ''EXECUTE on lo_get'']
         @ (if there then [should (\<not> 1000000 < answer_or 0 (dq_count q ''receipts'')) LvWarn ''receipt rows''] else []))"

definition text_findings :: "string \<Rightarrow> int \<Rightarrow> doctor_db \<Rightarrow> finding list" where
  "text_findings url threshold q =
     tls_check url q # schema_checks q @ retention_checks q @ relay_checks threshold q @ receipt_checks q"

definition run_doctor_with_threshold ::
    "string \<Rightarrow> string \<Rightarrow> int \<Rightarrow> doctor_db \<Rightarrow> (level \<times> string) list \<times> (boxed_error + unit)" where
  "run_doctor_with_threshold relay_version url threshold q =
     (case dq_connect q of
        Inl _ \<Rightarrow> ([], Inl (Inr ''connection failed: verify PostgreSQL reachability and TLS settings''))
      | Inr _ \<Rightarrow>
          (case check_client (dq_version q) relay_version of
             Inl e \<Rightarrow> ([(LvOk, ''connected''), (LvFail, show_relay_error e)], Inl (Inl e))
           | Inr decision \<Rightarrow>
               (let found = text_findings url threshold q
                in ((LvOk, ''connected'') # (LvOk, ''compatibility'') # concat (map fst found),
                    if \<forall>f \<in> set found. snd f then Inr () else Inl (Inr ''doctor found one or more failed checks'')))))"

definition run_doctor_text :: "string \<Rightarrow> string \<Rightarrow> doctor_db \<Rightarrow> (level \<times> string) list \<times> (boxed_error + unit)" where
  "run_doctor_text relay_version url q = run_doctor_with_threshold relay_version url 100 q"

section \<open>What a passing doctor means\<close>

lemma snd_must [simp]: "snd (must ok what) = ok"
  by (simp add: must_def)

lemma snd_should [simp]: "snd (should ok l what)"
  by (simp add: should_def)

lemma boxed_pg_Inr [simp]: "boxed_pg v = Inr x \<longleftrightarrow> v = Inr x"
  by (cases v) (simp_all add: boxed_pg_def)

text \<open>The verdict of the text form, check by check.\<close>

lemma text_findings_pass:
  "(\<forall>f \<in> set (text_findings url threshold q). snd f) \<longleftrightarrow>
     answer_or False (dq_schema q) \<and> (\<forall>t \<in> set text_tables. answer_or False (dq_table q t))
   \<and> answer_or False (dq_change_id_column q)
   \<and> (\<forall>v \<in> {''outbox_cleanup_state'', ''outbox_storage_config'', ''outbox_retention_status'', ''relay_pipeline_lag''}.
        answer_or False (dq_regclass q v))
   \<and> answer_or False (dq_regprocedure q ''tide.outbox_sweep(text,integer,boolean)'')
   \<and> 0 < answer_or 0 (dq_count q ''cleanup_index'')
   \<and> dq_layout q = Some (if answer_or False (dq_partitioned q) then ''id_range'' else ''heap'')
   \<and> answer_or False (dq_privilege q ''tide.relay_dlq'') \<and> is_ok (dq_listen q)"
proof -
  have tls: "snd (tls_check url q)" by (simp add: tls_check_def split: option.splits prod.splits)
  have schema: "(\<forall>f \<in> set (schema_checks q). snd f) \<longleftrightarrow>
      answer_or False (dq_schema q) \<and> (\<forall>t \<in> set text_tables. answer_or False (dq_table q t))
      \<and> answer_or False (dq_change_id_column q)"
    by (auto simp: schema_checks_def)
  have retention: "(\<forall>f \<in> set (retention_checks q). snd f) \<longleftrightarrow>
      (\<forall>v \<in> {''outbox_cleanup_state'', ''outbox_storage_config'', ''outbox_retention_status'', ''relay_pipeline_lag''}.
        answer_or False (dq_regclass q v))
      \<and> answer_or False (dq_regprocedure q ''tide.outbox_sweep(text,integer,boolean)'')
      \<and> 0 < answer_or 0 (dq_count q ''cleanup_index'')
      \<and> dq_layout q = Some (if answer_or False (dq_partitioned q) then ''id_range'' else ''heap'')"
    by (cases "dq_layout q") (auto simp: retention_checks_def)
  have relay: "(\<forall>f \<in> set (relay_checks threshold q). snd f) \<longleftrightarrow>
      answer_or False (dq_privilege q ''tide.relay_dlq'') \<and> is_ok (dq_listen q)"
    by (auto simp: relay_checks_def split: option.splits)
  have receipts: "\<forall>f \<in> set (receipt_checks q). snd f"
    by (simp add: receipt_checks_def Let_def)
  show ?thesis
    unfolding text_findings_def set_simps set_append ball_simps ball_Un schema retention relay
    using tls receipts by auto
qed

lemma text_doctor_result:
  "snd (run_doctor_with_threshold rv url threshold q) = Inr () \<longleftrightarrow>
     is_ok (dq_connect q) \<and> is_ok (check_client (dq_version q) rv) \<and> (\<forall>f \<in> set (text_findings url threshold q). snd f)"
  by (cases "dq_connect q"; cases "check_client (dq_version q) rv")
    (simp_all add: run_doctor_with_threshold_def Let_def)

lemma text_findings_pipelines [simp]:
  "text_findings url threshold (q\<lparr>dq_pipelines := x\<rparr>) = text_findings url threshold q"
  by (simp add: text_findings_def tls_check_def schema_checks_def retention_checks_def relay_checks_def receipt_checks_def Let_def)

lemma list_all2_obtain: "list_all2 P xs ys \<Longrightarrow> x \<in> set xs \<Longrightarrow> \<exists>y \<in> set ys. P x y"
  by (induction rule: list_all2_induct) auto

lemma collect_healthy:
  "collect_doctor_data env rv q = Inr c \<Longrightarrow> dc_healthy c \<Longrightarrow>
   \<exists>ps. dq_pipelines q = Inr ps \<and> report_valid (validate_pipelines env ps) \<and> dq_schema q = Inr True
     \<and> (\<forall>t \<in> set required_tables. dq_table q t = Inr True)"
proof -
  assume c: "collect_doctor_data env rv q = Inr c" and h: "dc_healthy c"
  from c obtain exists ps s where q: "map_result (\<lambda>t. boxed_pg (dq_table q t)) required_tables = Inr exists"
      "dq_pipelines q = Inr ps" "dq_schema q = Inr s"
      and d: "dc_healthy c \<longleftrightarrow> s \<and> (\<forall>e \<in> set exists. e) \<and> report_valid (validate_pipelines env ps)"
    by (auto simp: collect_doctor_data_def Let_def and_then_Inr_iff)
  have all: "s \<and> (\<forall>e \<in> set exists. e) \<and> report_valid (validate_pipelines env ps)" by (rule iffD1 [OF d h])
  have l: "list_all2 (\<lambda>t e. dq_table q t = Inr e) required_tables exists" using q(1) by (simp add: map_result_Inr_iff)
  have "dq_table q t = Inr True" if "t \<in> set required_tables" for t
    using list_all2_obtain [OF l that] all by metis
  then show ?thesis using q(2,3) all by (intro exI [of _ ps]) simp
qed

section \<open>The doctor and the relay\<close>

text \<open>The rows of the doctor's query, forward pipelines and reverse ones.\<close>

definition doctor_pipelines :: "tide_db \<Rightarrow> pipeline_config list" where
  "doctor_pipelines db =
     map pipeline_of_row (relay_configs db)
     @ map (\<lambda>r. (pipeline_of_row r)\<lparr>pc_direction := Reverse\<rparr>) (relay_inbox_configs db)"

lemma load_pipelines_doctor: "load_pipelines fate r db = Inr ps \<Longrightarrow> set ps \<subseteq> set (doctor_pipelines db)"
  by (auto simp: load_pipelines_def doctor_pipelines_def split: option.splits if_splits)

lemma doctor_output_healthy:
  "snd (doctor_json_output env rv at q) \<Longrightarrow>
   \<exists>ps. dq_pipelines q = Inr ps \<and> report_valid (validate_pipelines env ps)"
proof (cases "run_doctor_json env rv q")
  case (Inr d)
  then obtain c where "collect_doctor_data env rv q = Inr c" "dc_healthy c"
    by (auto simp: run_doctor_json_def and_then_Inr_iff split: if_splits)
  from collect_healthy [OF this] show ?thesis by blast
qed (simp add: doctor_json_output_def)

lemma report_valid_subset:
  "report_valid (validate_pipelines env ps) \<Longrightarrow> set qs \<subseteq> set ps \<Longrightarrow> report_valid (validate_pipelines env qs)"
  unfolding report_valid_iff by blast

text \<open>
  C12: When the JSON doctor of a build finds a catalog healthy, no relay of that build is halted by it: the
  next reconciliation that can read the catalog leaves the coordinator ready, whatever the relay's
  tenant, workers and locks are.
\<close>

theorem healthy_doctor_means_no_halt:
  assumes "dq_pipelines q = Inr (doctor_pipelines db)"
    and "snd (doctor_json_output (co_schema env) rv at q)" and "rf_load fate = None"
  shows "coordinator_ready (rl_health (fst (reconcile env fate db r g)))
    \<and> postgres_reachable (rl_health (fst (reconcile env fate db r g)))"
proof -
  have valid: "report_valid (validate_pipelines (co_schema env) (doctor_pipelines db))"
    using doctor_output_healthy [OF assms(2)] assms(1) by simp
  obtain ps where ps: "load_pipelines fate r db = Inr ps"
    using assms(3) by (cases "load_pipelines fate r db") (simp_all add: load_pipelines_def)
  have "report_valid (validate_pipelines (co_schema env) ps)"
    using report_valid_subset [OF valid load_pipelines_doctor [OF ps]] .
  from reconcile_valid [OF ps this] show ?thesis by (simp add: refresh_health_def Let_def)
qed


section \<open>A healthy catalog and a broken pipeline\<close>

definition sound_catalog :: doctor_db where
  "sound_catalog =
     \<lparr> dq_connect = Inr (), dq_version = Inr (Some ''0.54.0''), dq_schema = Inr True, dq_table = \<lambda>_. Inr True,
       dq_pipelines = Inr (doctor_pipelines print_db), dq_tls = None, dq_change_id_column = Inr True,
       dq_truncate_routine = Inr True, dq_regclass = \<lambda>_. Inr True, dq_regprocedure = \<lambda>_. Inr True,
       dq_count = \<lambda>_. Inr 1, dq_layout = Some ''heap'', dq_partitioned = Inr False, dq_privilege = \<lambda>_. Inr True,
       dq_advisory_lock = Inr True, dq_listen = Inr (), dq_partition_warning = None \<rparr>"

lemma current_version_accepted: "\<exists>d. check_client (Inr (Some ''0.54.0'')) ''0.54.0'' = Inr d"
proof -
  have "is_ok (evaluate ''0.54.0'' (Some ''0.54.0''))" by (simp add: evaluate_ok_iff supported_pairs_def)
  then show ?thesis by (auto simp: check_client_def is_ok_iff)
qed

lemma sound_catalog_healthy: "snd (doctor_json_output (co_schema two_tenants_env) ''0.54.0'' at sound_catalog)"
proof -
  have ps: "doctor_pipelines print_db = [print_pipeline]"
    by (simp add: doctor_pipelines_def print_db_def pipeline_of_row_def print_pipeline_def empty_db_def)
  obtain d where "check_client (Inr (Some ''0.54.0'')) ''0.54.0'' = Inr d" using current_version_accepted by blast
  then have "\<exists>c. collect_doctor_data (co_schema two_tenants_env) ''0.54.0'' sound_catalog = Inr c \<and> dc_healthy c"
    using print_preflight by (simp add: collect_doctor_data_def sound_catalog_def ps boxed_pg_def required_tables_def Let_def)
  then show ?thesis by (auto simp: doctor_json_output_def run_doctor_json_def split: sum.splits)
qed

theorem healthy_doctor_means_no_halt_witness:
  "coordinator_ready (rl_health (fst (reconcile two_tenants_env calm print_db (new_coordinator ''g'' None 50) fresh_pg)))"
  using healthy_doctor_means_no_halt [OF _ sound_catalog_healthy, of print_db calm "new_coordinator ''g'' None 50" fresh_pg]
  by (simp add: sound_catalog_def calm_def)


end
