(* ===== verification/Support_Bundle.thy ===== *)
theory Support_Bundle
  imports Doctor "HOL-Library.Word" "HOL-Library.Sublist"
begin

text \<open>
  The support bundle of \<open>pg-tide doctor --bundle\<close> (\<open>pg-tide-relay/src/cmd/doctor.rs\<close>): the bounded and
  redacted values, and the directory that is written beside the target and renamed into place.  The
  file system maps resolved paths to nodes; each of its calls can fail, with a text.  The printer of
  JSON values and the digest are arguments.
\<close>

unbundle bit_operations_syntax

section \<open>Bounding and redaction\<close>

definition max_pipelines :: nat where "max_pipelines = 100"
definition max_string_bytes :: nat where "max_string_bytes = 256"
definition max_bundle_bytes :: nat where "max_bundle_bytes = 1024 * 1024"

definition is_char_boundary :: "string \<Rightarrow> nat \<Rightarrow> bool" where
  "is_char_boundary s i \<longleftrightarrow> i = 0 \<or> i = length s \<or> (i < length s \<and> \<not> cont_byte (s ! i))"

text \<open>\<open>while !value.is_char_boundary(end) { end -= 1 }\<close>.\<close>

fun boundary_below :: "string \<Rightarrow> nat \<Rightarrow> nat" where
  "boundary_below s 0 = 0"
| "boundary_below s (Suc i) = (if is_char_boundary s (Suc i) then Suc i else boundary_below s i)"

definition bound_string :: "string \<Rightarrow> nat \<Rightarrow> json \<times> nat" where
  "bound_string s n =
     (if str_contains ''://'' s then (JStr ''[REDACTED]'', Suc n)
      else if length s > max_string_bytes then (JStr (take (boundary_below s max_string_bytes) s), Suc n)
      else (JStr s, n))"

definition dropped_keys :: "string list" where
  "dropped_keys =
    [''payload'', ''headers'', ''config'', ''environment'', ''certificate'', ''certificates'', ''key'', ''keys'',
     ''logs'', ''message'', ''reason'', ''url'']"

lemma size_list_take [termination_simp]: "size_list f (take n xs) \<le> size_list f xs"
proof (induction xs arbitrary: n)
  case (Cons x xs)
  then show ?case by (cases n) simp_all
qed simp

fun bound_json :: "json \<Rightarrow> nat \<Rightarrow> json \<times> nat"
and bound_values :: "json list \<Rightarrow> nat \<Rightarrow> json list \<times> nat"
and bound_fields :: "(string \<times> json) list \<Rightarrow> nat \<Rightarrow> (string \<times> json) list \<times> nat" where
  "bound_json (JStr s) n = bound_string s n"
| "bound_json (JArr vs) n =
     (let (vs', n') = bound_values (take max_pipelines vs) (n + (length vs - max_pipelines)) in (JArr vs', n'))"
| "bound_json (JObj kvs) n = (let (kvs', n') = bound_fields kvs n in (JObj kvs', n'))"
| "bound_json v n = (v, n)"
| "bound_values [] n = ([], n)"
| "bound_values (v # vs) n = (let (v', n1) = bound_json v n; (vs', n2) = bound_values vs n1 in (v' # vs', n2))"
| "bound_fields [] n = ([], n)"
| "bound_fields ((k, v) # kvs) n =
     (if k \<in> set dropped_keys then bound_fields kvs (Suc n)
      else (let (v', n1) = bound_json v n; (kvs', n2) = bound_fields kvs n1 in ((k, v') # kvs', n2)))"

section \<open>The files of a bundle\<close>

definition failed_collection :: "string \<Rightarrow> json" where
  "failed_collection code =
     JObj [(''collection'', JObj [(''error_code'', JStr code), (''status'', JStr ''failed'')])]"

definition versions_data :: "string \<Rightarrow> json \<Rightarrow> json" where
  "versions_data relay_version doctor =
     (let compat = unwrap_or (json_get doctor ''compatibility'') JNull
      in JObj
        [(''compatibility_class'', unwrap_or (json_get compat ''compatibility_class'') JNull),
         (''extension_version'', unwrap_or (json_get compat ''extension_version'') JNull),
         (''policy_version'', unwrap_or (json_get compat ''policy_version'') JNull),
         (''relay_version'', unwrap_or (json_get compat ''relay_version'') (JStr relay_version))])"

text \<open>A row without one of the five keys is left out (\<open>?\<close> inside \<open>filter_map\<close>).\<close>

definition error_code_row :: "json \<Rightarrow> json option" where
  "error_code_row p =
     Option.bind (json_get p ''pipeline_id'') (\<lambda>i.
     Option.bind (json_get p ''last_error_code'') (\<lambda>c.
     Option.bind (json_get p ''last_error_component'') (\<lambda>m.
     Option.bind (json_get p ''last_error_class'') (\<lambda>k.
     Option.bind (json_get p ''last_error_at'') (\<lambda>t.
       Some (JObj [(''last_error_at'', t), (''last_error_class'', k), (''last_error_code'', c),
                   (''last_error_component'', m), (''pipeline_id'', i)]))))))"

definition status_pipelines :: "json \<Rightarrow> json list option" where
  "status_pipelines status = Option.bind (json_get status ''pipelines'') as_array"

definition error_codes_data :: "json \<Rightarrow> json" where
  "error_codes_data status =
     JObj [(''pipelines'', JArr (case status_pipelines status of
                               None \<Rightarrow> [] | Some ps \<Rightarrow> List.map_filter error_code_row ps))]"

text \<open>\<open>str::lines\<close> and the four first fields of a line of the embedded table of metrics.\<close>

definition str_lines :: "string \<Rightarrow> string list" where
  "str_lines s =
     (let ls = split_on (CHR 0x0A) s
      in map (\<lambda>l. unwrap_or (strip_suffix [CHR 0x0D] l) l) (if ls \<noteq> [] \<and> last ls = [] then butlast ls else ls))"

definition metric_row :: "string \<Rightarrow> json option" where
  "metric_row line =
     (case split_on (CHR 0x09) line of
        name # kind # unit # labels # _ \<Rightarrow>
          Some (JObj [(''labels'', JArr (map JStr (split_on (CHR '','') labels))), (''name'', JStr name),
                      (''type'', JStr kind), (''unit'', JStr unit)])
      | _ \<Rightarrow> None)"

definition metrics_metadata :: "string \<Rightarrow> json" where
  "metrics_metadata tsv = JObj [(''metrics'', JArr (List.map_filter metric_row (drop 1 (str_lines tsv))))]"

definition ok_failed :: "bool \<Rightarrow> json" where
  "ok_failed collected = JObj [(''status'', JStr (if collected then ''ok'' else ''failed''))]"

definition bundle_file :: "json \<Rightarrow> bool \<Rightarrow> bool \<Rightarrow> json" where
  "bundle_file value collected healthy =
     JObj [(''collection'', ok_failed collected), (''data'', value),
           (''health'', JStr (if healthy then ''pass'' else ''fail'')), (''schema_version'', JInt 1)]"

text \<open>What the caller hands over, and the parts that are not of this file.\<close>

record bundle_input =
  bi_doctor :: json
  bi_status :: json
  bi_doctor_ok :: bool
  bi_status_ok :: bool
  bi_healthy :: bool

record bundle_env =
  be_relay_version :: string
  be_tsv :: string
  be_print :: "json \<Rightarrow> string"
  be_sha256 :: "string \<Rightarrow> string"
  be_now :: string

definition bounded_input :: "bundle_input \<Rightarrow> json \<times> json \<times> nat" where
  "bounded_input i =
     (let (doctor, n1) = bound_json (bi_doctor i) 0; (status, n2) = bound_json (bi_status i) n1
      in (doctor, status, n2))"

definition payloads :: "bundle_env \<Rightarrow> bundle_input \<Rightarrow> (string \<times> json \<times> bool) list" where
  "payloads env i =
     (case bounded_input i of (doctor, status, n) \<Rightarrow>
       [(''versions.json'', versions_data (be_relay_version env) doctor, bi_doctor_ok i),
        (''doctor.json'', doctor, bi_doctor_ok i),
        (''status.json'', status, bi_status_ok i),
        (''error-codes.json'', error_codes_data status, bi_status_ok i),
        (''metrics-metadata.json'', metrics_metadata (be_tsv env), True)])"

definition entries :: "bundle_env \<Rightarrow> bundle_input \<Rightarrow> (string \<times> string \<times> bool) list" where
  "entries env i =
     map (\<lambda>(name, value, collected). (name, be_print env (bundle_file value collected (bi_healthy i)), collected))
       (payloads env i)"

definition saturating_add :: "nat \<Rightarrow> nat \<Rightarrow> nat" where
  "saturating_add a b = min (2 ^ 64 - 1) (a + b)"

definition total_bytes :: "(string \<times> string \<times> bool) list \<Rightarrow> nat" where
  "total_bytes es = foldl saturating_add 0 (map (\<lambda>(name, bytes, collected). length bytes) es)"

definition manifest :: "bundle_env \<Rightarrow> bundle_input \<Rightarrow> json" where
  "manifest env i =
     (let total = (case status_pipelines (bi_status i) of None \<Rightarrow> 0 | Some ps \<Rightarrow> length ps)
      in JObj
        [(''created_at'', JStr (be_now env)),
         (''included_files'', JArr (map (\<lambda>(name, bytes, collected).
            JObj [(''bytes'', JInt (int (length bytes))), (''collection'', ok_failed collected),
                  (''filename'', JStr name), (''sha256'', JStr (be_sha256 env bytes))]) (entries env i))),
         (''redaction_policy_version'', JStr ''v1''),
         (''relay_version'', JStr (be_relay_version env)),
         (''schema_version'', JInt 1),
         (''sharing_warning'', JStr ''Support data is bounded and redacted; review it before sharing.''),
         (''truncation_counts'', JObj
           [(''fields'', JInt (int (snd (snd (bounded_input i))))),
            (''pipelines_omitted'', JInt (int (total - max_pipelines))),
            (''pipelines_total'', JInt (int total))])])"

section \<open>The file system\<close>

type_synonym perms = "16 word"

datatype node = Dir perms | RegularFile perms string

type_synonym fs = "string list \<Rightarrow> node option"

text \<open>
  A path as the user gave it; \<open>parent\<close> of a one-component relative path is the empty path, and no
  directory has the empty name.
\<close>

datatype path = Relative "string list" | Absolute "string list"

fun path_parent :: "path \<Rightarrow> path option" where
  "path_parent (Relative []) = None"
| "path_parent (Relative cs) = Some (Relative (butlast cs))"
| "path_parent (Absolute []) = None"
| "path_parent (Absolute cs) = Some (Absolute (butlast cs))"

definition walk :: "string list \<Rightarrow> string list \<Rightarrow> string list" where
  "walk start cs = foldl (\<lambda>p c. if c = ''.'' then p else if c = ''..'' then butlast p else p @ [c]) start cs"

fun locate :: "string list \<Rightarrow> path \<Rightarrow> string list option" where
  "locate cwd (Relative cs) = (if cs = [] then None else Some (walk cwd cs))"
| "locate cwd (Absolute cs) = Some (walk [] cs)"

definition is_dir_at :: "fs \<Rightarrow> string list \<Rightarrow> bool" where
  "is_dir_at fs p \<longleftrightarrow> (case fs p of Some (Dir m) \<Rightarrow> True | _ \<Rightarrow> False)"

text \<open>The failures of one run of the command, each with its text.\<close>

datatype write_fate = WriteOk | NotOpened string | WriteCut nat string

record fs_fate =
  ff_umask :: perms
  ff_mkdir :: "nat \<Rightarrow> string option"
  ff_chmod :: "string option"
  ff_write :: "string \<Rightarrow> write_fate"
  ff_rename :: "string option"
  ff_remove :: bool

definition remove_dir_all :: "bool \<Rightarrow> string list \<Rightarrow> fs \<Rightarrow> fs" where
  "remove_dir_all fails d fs = (if fails then fs else (\<lambda>p. if prefix d p then None else fs p))"

definition rename_dir :: "string list \<Rightarrow> string list \<Rightarrow> fs \<Rightarrow> fs" where
  "rename_dir src dst fs =
     (\<lambda>p. if prefix dst p then fs (src @ drop (length dst) p) else if prefix src p then None else fs p)"

definition set_private_directory :: "fs_fate \<Rightarrow> string list \<Rightarrow> fs \<Rightarrow> fs \<times> (boxed_error + unit)" where
  "set_private_directory fate d fs =
     (case ff_chmod fate of Some e \<Rightarrow> (fs, Inl (Inr e)) | None \<Rightarrow> (fs(d \<mapsto> Dir 0x1C0), Inr ()))"

text \<open>\<open>create_new\<close> with mode \<open>0600\<close>, less the mask; then the bytes and \<open>sync_all\<close>.\<close>

definition write_private_file :: "fs_fate \<Rightarrow> string list \<Rightarrow> string \<Rightarrow> string \<Rightarrow> fs \<Rightarrow> fs \<times> (boxed_error + unit)" where
  "write_private_file fate d name bytes fs =
     (let p = d @ [name]; mode = 0x180 AND NOT (ff_umask fate)
      in if fs p \<noteq> None then (fs, Inl (Inr ''File exists''))
         else case ff_write fate name of
                NotOpened e \<Rightarrow> (fs, Inl (Inr e))
              | WriteCut n e \<Rightarrow> (fs(p \<mapsto> RegularFile mode (take n bytes)), Inl (Inr e))
              | WriteOk \<Rightarrow> (fs(p \<mapsto> RegularFile mode bytes), Inr ()))"

fun write_files :: "fs_fate \<Rightarrow> string list \<Rightarrow> (string \<times> string) list \<Rightarrow> fs \<Rightarrow> fs \<times> (boxed_error + unit)" where
  "write_files fate d [] fs = (fs, Inr ())"
| "write_files fate d ((name, bytes) # rest) fs =
     (case write_private_file fate d name bytes fs of
        (fs', Inl e) \<Rightarrow> (fs', Inl e)
      | (fs', Inr _) \<Rightarrow> write_files fate d rest fs')"

section \<open>Writing a bundle\<close>

definition too_large :: boxed_error where
  "too_large = Inr ''support.bundle.write_failed: bundle exceeds 1 MiB''"

definition write_bundle_contents ::
    "fs_fate \<Rightarrow> bundle_env \<Rightarrow> bundle_input \<Rightarrow> string list \<Rightarrow> fs \<Rightarrow> fs \<times> (boxed_error + unit)" where
  "write_bundle_contents fate env i d fs =
     (let es = entries env i; total = total_bytes es
      in if total > max_bundle_bytes then (fs, Inl too_large)
         else case set_private_directory fate d fs of
                (fs1, Inl e) \<Rightarrow> (fs1, Inl e)
              | (fs1, Inr _) \<Rightarrow>
                  (case write_files fate d (map (\<lambda>(name, bytes, collected). (name, bytes)) es) fs1 of
                     (fs2, Inl e) \<Rightarrow> (fs2, Inl e)
                   | (fs2, Inr _) \<Rightarrow>
                       (let bytes = be_print env (manifest env i)
                        in if total + length bytes > max_bundle_bytes
                           then (remove_dir_all (ff_remove fate) d fs2, Inl too_large)
                           else write_private_file fate d ''manifest.json'' bytes fs2)))"

text \<open>\<open>stamp\<close> is the process id and the time of day; an existing candidate is skipped.\<close>

definition candidate :: "string \<Rightarrow> nat \<Rightarrow> string" where
  "candidate stamp attempt = ''.pg-tide-bundle-'' @ stamp @ ''-'' @ show_nat attempt"

fun temporary_sibling ::
    "fs_fate \<Rightarrow> string \<Rightarrow> string list \<Rightarrow> nat list \<Rightarrow> fs \<Rightarrow> fs \<times> (boxed_error + string list)" where
  "temporary_sibling fate stamp parent [] fs =
     (fs, Inl (Inr ''support.bundle.write_failed: temporary directory unavailable''))"
| "temporary_sibling fate stamp parent (a # as) fs =
     (let p = parent @ [candidate stamp a]
      in if fs p \<noteq> None then temporary_sibling fate stamp parent as fs
         else case ff_mkdir fate a of
                Some e \<Rightarrow> (fs, Inl (Inr e))
              | None \<Rightarrow> (fs(p \<mapsto> Dir (0x1FF AND NOT (ff_umask fate))), Inr p))"

definition write_support_bundle ::
    "fs_fate \<Rightarrow> bundle_env \<Rightarrow> string \<Rightarrow> string list \<Rightarrow> path \<Rightarrow> bundle_input \<Rightarrow> fs \<Rightarrow> fs \<times> (boxed_error + path \<times> bool)" where
  "write_support_bundle fate env stamp cwd target i fs =
     (let parent = unwrap_or (path_parent target) (Relative [''.''])
      in case (locate cwd parent, locate cwd target) of
           (Some dir, Some dst) \<Rightarrow>
             if \<not> is_dir_at fs dir
             then (fs, Inl (Inr ''support.bundle.write_failed: parent directory is unavailable''))
             else if fs dst \<noteq> None
             then (fs, Inl (Inr ''support.bundle.target_exists: target directory already exists''))
             else (case temporary_sibling fate stamp dir [0..<100] fs of
                 (fs1, Inl e) \<Rightarrow> (fs1, Inl e)
               | (fs1, Inr tmp) \<Rightarrow>
                   (case write_bundle_contents fate env i tmp fs1 of
                      (fs2, Inl e) \<Rightarrow> (remove_dir_all (ff_remove fate) tmp fs2, Inl e)
                    | (fs2, Inr _) \<Rightarrow>
                        (case ff_rename fate of
                           Some e \<Rightarrow> (remove_dir_all (ff_remove fate) tmp fs2,
                                      Inl (Inr (''support.bundle.write_failed: rename failed: '' @ e)))
                         | None \<Rightarrow> (rename_dir tmp dst fs2, Inr (target, bi_healthy i)))))
         | _ \<Rightarrow> (fs, Inl (Inr ''support.bundle.write_failed: parent directory is unavailable'')))"

text \<open>The collectors' outcomes and the bundle.\<close>

definition collect_support_bundle ::
    "fs_fate \<Rightarrow> bundle_env \<Rightarrow> string \<Rightarrow> string list \<Rightarrow> path \<Rightarrow> boxed_error + doctor_collection \<Rightarrow> string + json
     \<Rightarrow> fs \<Rightarrow> fs \<times> (boxed_error + path \<times> bool)" where
  "collect_support_bundle fate env stamp cwd target doctor status fs =
     write_support_bundle fate env stamp cwd target
       \<lparr> bi_doctor = (case doctor of Inr c \<Rightarrow> dc_data c | Inl _ \<Rightarrow> failed_collection ''postgres.unavailable''),
         bi_status = (case status of Inr v \<Rightarrow> v | Inl _ \<Rightarrow> failed_collection ''postgres.unavailable''),
         bi_doctor_ok = is_ok doctor, bi_status_ok = is_ok status,
         bi_healthy = ((case doctor of Inr c \<Rightarrow> dc_healthy c | Inl _ \<Rightarrow> False) \<and> is_ok status) \<rparr> fs"

section \<open>Bounded values\<close>

definition clean_text :: "string \<Rightarrow> bool" where
  "clean_text s \<longleftrightarrow> \<not> str_contains ''://'' s \<and> length s \<le> max_string_bytes"

fun bounded_value :: "json \<Rightarrow> bool" where
  "bounded_value (JStr s) = clean_text s"
| "bounded_value (JArr vs) = (length vs \<le> max_pipelines \<and> (\<forall>v \<in> set vs. bounded_value v))"
| "bounded_value (JObj kvs) = (\<forall>(k, v) \<in> set kvs. k \<notin> set dropped_keys \<and> bounded_value v)"
| "bounded_value v = True"

lemma take_after: "take (length (takeWhile P r) + j) r = takeWhile P r @ take j (dropWhile P r)"
  by (simp add: take_add dropWhile_eq_drop takeWhile_eq_take [symmetric])

lemma nth_dropWhile_after: "r ! (length (takeWhile P r) + j) = dropWhile P r ! j"
  by (metis nth_append_length_plus takeWhile_dropWhile_id)

lemma boundary_below_le: "boundary_below s n \<le> n"
  by (induction n) auto

lemma boundary_below_boundary: "is_char_boundary s (boundary_below s n)"
  by (induction n) (auto simp: is_char_boundary_def)

lemma concat_chars: "concat (chars s) = s"
  by (induction s rule: chars.induct) simp_all

text \<open>A cut at a boundary keeps whole characters.\<close>

lemma boundary_whole_chars: "is_char_boundary s i \<Longrightarrow> \<exists>k. take i s = concat (take k (chars s))"
proof (induction s arbitrary: i rule: chars.induct)
  case 1
  then show ?case by simp
next
  case (2 a r)
  let ?t = "takeWhile cont_byte r" and ?d = "dropWhile cont_byte r"
  have r: "r = ?t @ ?d" by simp
  show ?case
  proof (cases "i = 0")
    case True
    then show ?thesis by (intro exI [of _ 0]) simp
  next
    case False
    have i: "Suc (length ?t) \<le> i"
    proof (rule ccontr)
      assume "\<not> Suc (length ?t) \<le> i"
      with False have n: "i - 1 < length ?t" "0 < i" by auto
      then have "r ! (i - 1) = ?t ! (i - 1)" by (metis r nth_append)
      moreover have "cont_byte (?t ! (i - 1))" using set_takeWhileD [OF nth_mem [OF n(1)]] by simp
      ultimately have "cont_byte ((a # r) ! i)" using n(2) by (simp add: nth_Cons')
      moreover have "i \<noteq> length (a # r)" using n length_takeWhile_le [of cont_byte r] by simp
      ultimately show False using 2(2) False by (simp add: is_char_boundary_def)
    qed
    define j where "j = i - Suc (length ?t)"
    have ij: "i = Suc (length ?t + j)" using i by (simp add: j_def)
    have "is_char_boundary ?d j"
    proof -
      have "(a # r) ! i = ?d ! j" unfolding ij by (simp add: nth_dropWhile_after)
      moreover have "length r = length ?t + length ?d" by (metis r length_append)
      ultimately show ?thesis using 2(2) False ij by (auto simp: is_char_boundary_def)
    qed
    from 2(1) [OF this] obtain k where k: "take j ?d = concat (take k (chars ?d))" by blast
    have "take i (a # r) = (a # ?t) @ take j ?d"
      unfolding ij by (simp add: take_after)
    then show ?thesis using k by (intro exI [of _ "Suc k"]) simp
  qed
qed

lemma bound_string_clean: "\<exists>t. fst (bound_string s n) = JStr t \<and> clean_text t"
proof -
  have "\<not> str_contains ''://'' s \<Longrightarrow> \<not> str_contains ''://'' (take m s)" for m
    by (metis append_take_drop_id append_assoc str_contains_iff)
  moreover have "boundary_below s max_string_bytes \<le> max_string_bytes" by (rule boundary_below_le)
  ultimately show ?thesis
    by (auto simp: bound_string_def clean_text_def max_string_bytes_def starts_with_def)
qed

lemma bound_string_count: "n \<le> snd (bound_string s n) \<and> (snd (bound_string s n) = n \<longleftrightarrow> clean_text s)"
  by (auto simp: bound_string_def clean_text_def)

text \<open>Every value comes out bounded, a bounded value unchanged, and the count says which it was.\<close>

lemma bound_values_length: "length (fst (bound_values vs n)) = length vs"
  by (induction vs arbitrary: n) (simp_all split: prod.splits, metis fst_conv)

lemma bound_json_bounded:
  "bounded_value (fst (bound_json v n))"
  "\<forall>x \<in> set (fst (bound_values vs n)). bounded_value x"
  "\<forall>(k, x) \<in> set (fst (bound_fields kvs n)). k \<notin> set dropped_keys \<and> bounded_value x"
proof (induction v n and vs n and kvs n rule: bound_json_bound_values_bound_fields.induct)
  case (1 s n)
  then show ?case using bound_string_clean [of s n] by auto
next
  case (2 vs n)
  then show ?case
    using bound_values_length [of "take max_pipelines vs" "n + (length vs - max_pipelines)"]
    by (auto split: prod.splits)
qed (auto split: prod.splits)

lemma bound_json_fixed:
  "bounded_value v \<Longrightarrow> bound_json v n = (v, n)"
  "(\<forall>x \<in> set vs. bounded_value x) \<Longrightarrow> bound_values vs n = (vs, n)"
  "(\<forall>(k, x) \<in> set kvs. k \<notin> set dropped_keys \<and> bounded_value x) \<Longrightarrow> bound_fields kvs n = (kvs, n)"
proof (induction v n and vs n and kvs n rule: bound_json_bound_values_bound_fields.induct)
  case (1 s n)
  then show ?case by (simp add: bound_string_def clean_text_def)
qed (simp_all split: if_splits)

lemma bound_json_counts:
  "n \<le> snd (bound_json v n) \<and> (snd (bound_json v n) = n \<longrightarrow> bounded_value v)"
  "n \<le> snd (bound_values vs n) \<and> (snd (bound_values vs n) = n \<longrightarrow> (\<forall>x \<in> set vs. bounded_value x))"
  "n \<le> snd (bound_fields kvs n) \<and> (snd (bound_fields kvs n) = n \<longrightarrow> (\<forall>(k, x) \<in> set kvs. k \<notin> set dropped_keys \<and> bounded_value x))"
proof (induction v n and vs n and kvs n rule: bound_json_bound_values_bound_fields.induct)
  case (1 s n)
  then show ?case using bound_string_count [of n s] by simp
next
  case (2 vs n)
  obtain vs' n' where b: "bound_values (take max_pipelines vs) (n + (length vs - max_pipelines)) = (vs', n')" by fastforce
  with 2 have m: "n + (length vs - max_pipelines) \<le> n'"
      "n' = n + (length vs - max_pipelines) \<longrightarrow> (\<forall>x \<in> set (take max_pipelines vs). bounded_value x)" by auto
  have "length vs \<le> max_pipelines \<and> (\<forall>x \<in> set vs. bounded_value x)" if "n' = n"
    using m that by (cases "length vs \<le> max_pipelines") auto
  with m(1) b show ?case by simp
next
  case (3 kvs n)
  obtain kvs' n' where "bound_fields kvs n = (kvs', n')" by fastforce
  with 3 show ?case by simp
next
  case (6 v vs n)
  obtain v' n1 where v: "bound_json v n = (v', n1)" by fastforce
  obtain vs' n2 where vs: "bound_values vs n1 = (vs', n2)" by fastforce
  from 6(1) v have "n \<le> n1 \<and> (n1 = n \<longrightarrow> bounded_value v)" by simp
  moreover from 6(2) [OF v [symmetric] refl] vs have "n1 \<le> n2 \<and> (n2 = n1 \<longrightarrow> (\<forall>x \<in> set vs. bounded_value x))" by simp
  ultimately show ?case using v vs by simp
next
  case (8 k v kvs n)
  show ?case
  proof (cases "k \<in> set dropped_keys")
    case True
    with 8(1) show ?thesis by simp
  next
    case False
    obtain v' n1 where v: "bound_json v n = (v', n1)" by fastforce
    obtain kvs' n2 where kvs: "bound_fields kvs n1 = (kvs', n2)" by fastforce
    from 8(2) [OF False] v have "n \<le> n1 \<and> (n1 = n \<longrightarrow> bounded_value v)" by simp
    moreover from 8(3) [OF False v [symmetric] refl] kvs
    have "n1 \<le> n2 \<and> (n2 = n1 \<longrightarrow> (\<forall>(k, x) \<in> set kvs. k \<notin> set dropped_keys \<and> bounded_value x))" by simp
    ultimately show ?thesis using v kvs False by simp
  qed
qed simp_all

lemma bound_json_untouched: "snd (bound_json v n) = n \<longleftrightarrow> bounded_value v"
  using bound_json_counts(1) [of n v] bound_json_fixed(1) [of v n] by auto

lemma bounded_get: "bounded_value v \<Longrightarrow> json_get v k = Some w \<Longrightarrow> bounded_value w"
  by (cases v) (auto dest: map_of_SomeD)

lemma bounded_get_or: "bounded_value v \<Longrightarrow> bounded_value d \<Longrightarrow> bounded_value (unwrap_or (json_get v k) d)"
  by (cases "json_get v k") (auto dest: bounded_get)

lemma bounded_versions:
  assumes "bounded_value d" "clean_text rv"
  shows "bounded_value (versions_data rv d)"
proof -
  have "bounded_value (unwrap_or (json_get d ''compatibility'') JNull)"
    by (rule bounded_get_or) (simp_all add: assms)
  from bounded_get_or [OF this] show ?thesis
    by (simp add: versions_data_def Let_def dropped_keys_def assms(2))
qed

lemma bounded_error_row: "bounded_value p \<Longrightarrow> error_code_row p = Some r \<Longrightarrow> bounded_value r"
  by (auto simp: error_code_row_def dropped_keys_def bind_eq_Some_conv dest: bounded_get)

lemma bounded_error_codes:
  assumes "bounded_value status"
  shows "bounded_value (error_codes_data status)"
proof (cases "status_pipelines status")
  case None
  then show ?thesis by (simp add: error_codes_data_def dropped_keys_def)
next
  case (Some ps)
  then obtain w where w: "json_get status ''pipelines'' = Some w" "as_array w = Some ps"
    by (auto simp: status_pipelines_def bind_eq_Some_conv)
  have ps: "w = JArr ps" using w(2) by (cases w) simp_all
  have "bounded_value (JArr ps)" using bounded_get [OF assms w(1)] unfolding ps .
  then have "length ps \<le> max_pipelines" and all: "\<forall>p \<in> set ps. bounded_value p" by simp_all
  then have "length (List.map_filter error_code_row ps) \<le> max_pipelines"
    by (auto simp: List.map_filter_def intro: order_trans [OF length_filter_le])
  moreover have "bounded_value r" if "r \<in> set (List.map_filter error_code_row ps)" for r
    using that all bounded_error_row by (auto simp: List.map_filter_def)
  ultimately show ?thesis using Some by (simp add: error_codes_data_def dropped_keys_def)
qed

lemma bounded_input_bounded:
  "bounded_value (fst (bounded_input i)) \<and> bounded_value (fst (snd (bounded_input i)))"
  using bound_json_bounded(1) [of "bi_doctor i" 0] bound_json_bounded(1) [of "bi_status i"]
  by (auto simp: bounded_input_def Let_def split: prod.splits)

text \<open>
  C17: Whatever the collectors return, the data of the four diagnostic files is bounded and redacted: no
  text in it holds a URL or is longer than 256 bytes, no list has more than 100 elements, no key of the
  excluded ones appears.  The manifest counts no truncated field exactly when the collected data was
  already so, and then the two reports are in the bundle as they were collected.
\<close>

theorem bundle_values_are_bounded:
  assumes "clean_text (be_relay_version env)"
  shows "list_all (\<lambda>(name, value, collected). bounded_value value) (take 4 (payloads env i))
    \<and> (snd (snd (bounded_input i)) = 0 \<longleftrightarrow> bounded_value (bi_doctor i) \<and> bounded_value (bi_status i))
    \<and> (snd (snd (bounded_input i)) = 0 \<longrightarrow>
        map_of (payloads env i) ''doctor.json'' = Some (bi_doctor i, bi_doctor_ok i)
      \<and> map_of (payloads env i) ''status.json'' = Some (bi_status i, bi_status_ok i))"
proof -
  obtain d n1 where d: "bound_json (bi_doctor i) 0 = (d, n1)" by fastforce
  obtain s n2 where s: "bound_json (bi_status i) n1 = (s, n2)" by fastforce
  have b: "bounded_input i = (d, s, n2)" by (simp add: bounded_input_def d s)
  have "bounded_value d" "bounded_value s" using bounded_input_bounded [of i] by (simp_all add: b)
  then have files: "list_all (\<lambda>(name, value, collected). bounded_value value) (take 4 (payloads env i))"
    by (simp add: payloads_def b bounded_versions assms bounded_error_codes)
  have n: "n1 = 0 \<longleftrightarrow> bounded_value (bi_doctor i)" "n2 = n1 \<longleftrightarrow> bounded_value (bi_status i)"
    using bound_json_untouched [of "bi_doctor i" 0] bound_json_untouched [of "bi_status i" n1] by (simp_all add: d s)
  have "n1 \<le> n2" using bound_json_counts(1) [of n1 "bi_status i"] by (simp add: s)
  with n have count: "n2 = 0 \<longleftrightarrow> bounded_value (bi_doctor i) \<and> bounded_value (bi_status i)" by auto
  moreover have "d = bi_doctor i" "s = bi_status i" if "n2 = 0"
    using that count d s bound_json_fixed(1) by (metis fst_conv)+
  ultimately show ?thesis using files by (simp add: b payloads_def)
qed

section \<open>All or nothing\<close>

text \<open>Nothing is below a path that does not exist.\<close>

definition closed_fs :: "fs \<Rightarrow> bool" where
  "closed_fs fs \<longleftrightarrow> (\<forall>p q. fs p = None \<longrightarrow> fs (p @ q) = None)"

text \<open>The file system with one private directory of private files more.\<close>

definition with_directory :: "fs \<Rightarrow> string list \<Rightarrow> perms \<Rightarrow> (string \<times> string) list \<Rightarrow> fs" where
  "with_directory fs d umask files =
     (\<lambda>p. if prefix d p then
            (case drop (length d) p of
               [] \<Rightarrow> Some (Dir 0x1C0)
             | [n] \<Rightarrow> map_option (RegularFile (0x180 AND NOT umask)) (map_of files n)
             | _ \<Rightarrow> None)
          else fs p)"

definition bundle_contents :: "bundle_env \<Rightarrow> bundle_input \<Rightarrow> (string \<times> string) list" where
  "bundle_contents env i =
     map (\<lambda>(name, bytes, collected). (name, bytes)) (entries env i) @ [(''manifest.json'', be_print env (manifest env i))]"

definition outside :: "string list \<Rightarrow> fs \<Rightarrow> fs \<Rightarrow> bool" where
  "outside d fs fs' \<longleftrightarrow> (\<forall>p. \<not> prefix d p \<longrightarrow> fs' p = fs p)"

lemma outside_refl: "outside d fs fs"
  by (simp add: outside_def)

lemma outside_trans: "outside d f g \<Longrightarrow> outside d g h \<Longrightarrow> outside d f h"
  by (simp add: outside_def)

lemma outside_update: "prefix d p \<Longrightarrow> outside d fs (fs(p := v))"
  by (auto simp: outside_def)

lemma outside_with_directory: "outside d fs (with_directory fs d u files)"
  by (simp add: outside_def with_directory_def)

lemma closed_below: "closed_fs fs \<Longrightarrow> fs d = None \<Longrightarrow> prefix d p \<Longrightarrow> fs p = None"
  by (auto simp: closed_fs_def elim: prefixE)

lemma remove_restores: "closed_fs fs \<Longrightarrow> fs d = None \<Longrightarrow> outside d fs fs' \<Longrightarrow> remove_dir_all False d fs' = fs"
  by (auto simp: remove_dir_all_def outside_def fun_eq_iff closed_below)

lemma outside_remove: "outside d fs fs' \<Longrightarrow> outside d fs (remove_dir_all fails d fs')"
  by (auto simp: remove_dir_all_def outside_def)

lemma fresh_directory:
  assumes "closed_fs fs" "fs d = None"
  shows "(fs(d \<mapsto> m))(d \<mapsto> Dir 0x1C0) = with_directory fs d u []"
proof
  fix p
  show "((fs(d \<mapsto> m))(d \<mapsto> Dir 0x1C0)) p = with_directory fs d u [] p"
  proof (cases "prefix d p")
    case True
    then obtain q where q: "p = d @ q" by (auto simp: prefix_def)
    have none: "fs (d @ q) = None" using closed_below [OF assms True] by (simp add: q)
    show ?thesis
    proof (cases q)
      case Nil
      then show ?thesis by (simp add: q with_directory_def)
    next
      case (Cons a as)
      then show ?thesis using none by (cases as) (simp_all add: q with_directory_def)
    qed
  next
    case False
    then show ?thesis by (auto simp: with_directory_def)
  qed
qed

lemma write_one:
  assumes "write_private_file fate d n b fs = (fs', r)"
  shows "outside d fs fs'"
proof -
  have "prefix d (d @ [n])" by simp
  then show ?thesis using assms outside_update [OF \<open>prefix d (d @ [n])\<close>] outside_refl
    by (auto simp: write_private_file_def Let_def split: if_splits write_fate.splits)
qed

lemma write_one_done:
  assumes "write_private_file fate d n b (with_directory fs d (ff_umask fate) files) = (fs', Inr u)"
  shows "fs' = with_directory fs d (ff_umask fate) (files @ [(n, b)])" and "n \<notin> fst ` set files"
proof -
  let ?w = "with_directory fs d (ff_umask fate)"
  from assms have none: "?w files (d @ [n]) = None"
    and fs': "fs' = (?w files)(d @ [n] \<mapsto> RegularFile (0x180 AND NOT (ff_umask fate)) b)"
    by (auto simp: write_private_file_def Let_def split: if_splits write_fate.splits)
  from none have n: "map_of files n = None" by (simp add: with_directory_def)
  then show "n \<notin> fst ` set files" by (simp add: map_of_eq_None_iff)
  show "fs' = ?w (files @ [(n, b)])"
  proof
    fix p
    show "fs' p = ?w (files @ [(n, b)]) p"
    proof (cases "prefix d p")
      case True
      then obtain q where q: "p = d @ q" by (auto simp: prefix_def)
      consider "q = []" | "q = [n]" | m where "q = [m]" "m \<noteq> n" | a b as where "q = a # b # as"
        by (metis neq_Nil_conv)
      then show ?thesis by cases (simp_all add: q fs' with_directory_def map_add_def n split: option.splits)
    next
      case False
      then show ?thesis by (auto simp: fs' with_directory_def)
    qed
  qed
qed

lemma write_files_outside: "write_files fate d files fs = (fs', r) \<Longrightarrow> outside d fs fs'"
proof (induction files arbitrary: fs)
  case (Cons f files)
  obtain n b where f: "f = (n, b)" by force
  obtain fs1 r1 where w: "write_private_file fate d n b fs = (fs1, r1)" by force
  from write_one [OF w] Cons f w show ?case
    by (cases r1) (auto intro: outside_trans)
qed (simp add: outside_refl)

lemma write_files_done:
  "write_files fate d files (with_directory fs d (ff_umask fate) before) = (fs', Inr u) \<Longrightarrow>
   fs' = with_directory fs d (ff_umask fate) (before @ files)"
proof (induction files arbitrary: before)
  case (Cons f files)
  obtain n b where f: "f = (n, b)" by force
  obtain fs1 r1 where w: "write_private_file fate d n b (with_directory fs d (ff_umask fate) before) = (fs1, r1)" by force
  with Cons.prems f obtain u' where r1: "r1 = Inr u'" by (cases r1) auto
  from write_one_done(1) [OF w [unfolded r1]] Cons.IH [of "before @ [(n, b)]"] Cons.prems f w r1 show ?case by simp
qed simp

lemma write_bundle_outside:
  "write_bundle_contents fate env i d fs = (fs', r) \<Longrightarrow> outside d fs fs'"
proof -
  assume w: "write_bundle_contents fate env i d fs = (fs', r)"
  obtain fs1 r1 where c: "set_private_directory fate d fs = (fs1, r1)" by force
  have 1: "outside d fs fs1"
    using c outside_update [of d d fs] by (auto simp: set_private_directory_def outside_refl split: option.splits)
  obtain fs2 r2 where f: "write_files fate d (map (\<lambda>(name, bytes, collected). (name, bytes)) (entries env i)) fs1 = (fs2, r2)" by force
  have 2: "outside d fs fs2" using outside_trans [OF 1 write_files_outside [OF f]] .
  obtain fs3 r3 where m: "write_private_file fate d ''manifest.json'' (be_print env (manifest env i)) fs2 = (fs3, r3)" by force
  have 3: "outside d fs fs3" using outside_trans [OF 2 write_one [OF m]] .
  show ?thesis using w c f m 1 2 3 outside_refl [of d fs] outside_remove [OF 2]
    by (auto simp: write_bundle_contents_def Let_def split: if_splits sum.splits)
qed

lemma foldl_saturating_mono: "m \<le> 2 ^ 64 - 1 \<Longrightarrow> m \<le> foldl saturating_add m ns"
proof (induction ns arbitrary: m)
  case (Cons n ns)
  have "m \<le> saturating_add m n" "saturating_add m n \<le> 2 ^ 64 - 1" using Cons.prems by (simp_all add: saturating_add_def)
  with Cons.IH [of "saturating_add m n"] show ?case by simp
qed simp

lemma total_saturates:
  "foldl saturating_add n ns \<le> M \<Longrightarrow> M < 2 ^ 64 - 1 \<Longrightarrow> foldl saturating_add n ns = n + sum_list ns"
proof (induction ns arbitrary: n)
  case (Cons a ns)
  have "saturating_add n a \<le> foldl saturating_add (saturating_add n a) ns"
    by (rule foldl_saturating_mono) (simp add: saturating_add_def)
  with Cons.prems have "saturating_add n a < 2 ^ 64 - 1" by simp
  then have "saturating_add n a = n + a" by (auto simp: saturating_add_def min_def split: if_splits)
  with Cons.IH [of "n + a"] Cons.prems show ?case by simp
qed simp

lemma total_exact: "total_bytes es \<le> max_bundle_bytes \<Longrightarrow> total_bytes es = (\<Sum>(name, bytes, collected) \<leftarrow> es. length bytes)"
  using total_saturates [of 0 _ max_bundle_bytes] by (simp add: total_bytes_def max_bundle_bytes_def)

lemma write_bundle_done:
  assumes "write_bundle_contents fate env i d (fs(d \<mapsto> m)) = (fs', Inr u)" "closed_fs fs" "fs d = None"
  shows "fs' = with_directory fs d (ff_umask fate) (bundle_contents env i)
    \<and> (\<Sum>(name, bytes) \<leftarrow> bundle_contents env i. length bytes) \<le> max_bundle_bytes"
proof -
  let ?es = "map (\<lambda>(name, bytes, collected). (name, bytes)) (entries env i)" and ?m = "be_print env (manifest env i)"
  from assms(1) have small: "total_bytes (entries env i) + length ?m \<le> max_bundle_bytes"
    by (auto simp: write_bundle_contents_def Let_def not_less split: if_splits sum.splits prod.splits)
  obtain fs2 where f: "write_files fate d ?es ((fs(d \<mapsto> m))(d \<mapsto> Dir 0x1C0)) = (fs2, Inr ())"
    and w: "write_private_file fate d ''manifest.json'' ?m fs2 = (fs', Inr u)"
    using assms(1) by (auto simp: write_bundle_contents_def set_private_directory_def Let_def
        split: if_splits sum.splits prod.splits option.splits)
  have "fs2 = with_directory fs d (ff_umask fate) ?es"
    using write_files_done [OF f [unfolded fresh_directory [OF assms(2,3), where u = "ff_umask fate"]]] by simp
  with w have "fs' = with_directory fs d (ff_umask fate) (bundle_contents env i)"
    using write_one_done(1) by (simp add: bundle_contents_def)
  moreover have "(\<Sum>(name, bytes) \<leftarrow> bundle_contents env i. length bytes) = total_bytes (entries env i) + length ?m"
    using small total_exact [of "entries env i"] by (simp add: bundle_contents_def split_def o_def)
  ultimately show ?thesis using small by simp
qed

lemma rename_with_directory:
  assumes "closed_fs fs" "fs tmp = None"
  shows "rename_dir tmp dst (with_directory fs tmp u files) = with_directory fs dst u files"
proof
  fix p
  show "rename_dir tmp dst (with_directory fs tmp u files) p = with_directory fs dst u files p"
    using closed_below [OF assms, of p] by (auto simp: rename_dir_def with_directory_def)
qed

lemma temporary_sibling_cases:
  assumes "temporary_sibling fate stamp dir as fs = (fs', r)"
  shows "(\<exists>e. r = Inl e \<and> fs' = fs) \<or> (\<exists>tmp m. r = Inr tmp \<and> fs tmp = None \<and> fs' = fs(tmp \<mapsto> Dir m))"
  using assms by (induction as) (auto simp: Let_def split: if_splits option.splits)

text \<open>
  C16: The bundle is written entirely or not at all.  If the command succeeds, the target did not exist
  and is now a directory of mode 0700 with exactly the five files and the manifest, each with its whole
  content and closed to group and others, together at most 1 MiB, and nothing else has changed; if it
  fails, nothing that existed is touched, and unless the removal of the temporary directory fails too,
  the file system is as before.
\<close>

theorem bundle_all_or_nothing:
  assumes "closed_fs fs" and "write_support_bundle fate env stamp cwd target i fs = (fs', r)"
  shows "case r of
      Inr (path, healthy) \<Rightarrow> path = target \<and> healthy = bi_healthy i
        \<and> (\<exists>dst. locate cwd target = Some dst \<and> fs dst = None
             \<and> fs' = with_directory fs dst (ff_umask fate) (bundle_contents env i))
        \<and> (\<Sum>(name, bytes) \<leftarrow> bundle_contents env i. length bytes) \<le> max_bundle_bytes
    | Inl e \<Rightarrow> (ff_remove fate \<or> fs' = fs) \<and> (\<forall>p. fs p \<noteq> None \<longrightarrow> fs' p = fs p)"
proof (cases "\<exists>e. r = Inl e \<and> fs' = fs")
  case True
  then show ?thesis by auto
next
  case False
  let ?parent = "unwrap_or (path_parent target) (Relative [''.''])"
  from assms(2) False obtain dir dst where l: "locate cwd ?parent = Some dir" "locate cwd target = Some dst"
      "is_dir_at fs dir" "fs dst = None"
    by (auto simp: write_support_bundle_def Let_def split: option.splits if_splits)
  obtain fs1 r1 where t: "temporary_sibling fate stamp dir [0..<100] fs = (fs1, r1)" by force
  with temporary_sibling_cases [OF t] assms(2) False l obtain tmp m where
    tmp: "r1 = Inr tmp" "fs tmp = None" "fs1 = fs(tmp \<mapsto> Dir m)"
    by (auto simp: write_support_bundle_def Let_def split: if_splits)
  obtain fs2 r2 where c: "write_bundle_contents fate env i tmp fs1 = (fs2, r2)" by force
  have out: "outside tmp fs fs2"
  proof (rule outside_trans [OF _ write_bundle_outside [OF c]])
    show "outside tmp fs fs1" by (simp add: tmp(3) outside_update)
  qed
  have result: "(fs', r) = (case r2 of Inl e \<Rightarrow> (remove_dir_all (ff_remove fate) tmp fs2, Inl e)
      | Inr _ \<Rightarrow> (case ff_rename fate of
           Some e \<Rightarrow> (remove_dir_all (ff_remove fate) tmp fs2, Inl (Inr (''support.bundle.write_failed: rename failed: '' @ e)))
         | None \<Rightarrow> (rename_dir tmp dst fs2, Inr (target, bi_healthy i))))"
    using assms(2) l t tmp(1) c by (simp add: write_support_bundle_def Let_def split: sum.splits option.splits)
  show ?thesis
  proof (cases "\<exists>u. r2 = Inr u \<and> ff_rename fate = None")
    case True
    then obtain u where u: "r2 = Inr u" "ff_rename fate = None" by blast
    from write_bundle_done [OF c [unfolded tmp(3) u(1)] assms(1) tmp(2)] result u l
    show ?thesis by (auto simp: rename_with_directory [OF assms(1) tmp(2)])
  next
    case False
    with result obtain e where r: "r = Inl e" "fs' = remove_dir_all (ff_remove fate) tmp fs2"
      by (auto split: sum.splits option.splits)
    have "fs' p = fs p" if "fs p \<noteq> None" for p
    proof -
      have "\<not> prefix tmp p" using that closed_below [OF assms(1) tmp(2)] by (rule contrapos_nn)
      then show ?thesis using outside_remove [OF out, of "ff_remove fate"] by (simp add: outside_def r(2))
    qed
    moreover have "fs' = fs" if "\<not> ff_remove fate"
      using remove_restores [OF assms(1) tmp(2) out] that r(2) by simp
    ultimately show ?thesis using r(1) by auto
  qed
qed

text \<open>
  A target without a directory part, such as \<open>--bundle mybundle\<close>, is always refused: the parent of
  the path is the empty path, which is no directory, so the fallback to the current directory is never
  reached.
\<close>

lemma bare_target_refused:
  "write_support_bundle fate env stamp cwd (Relative [name]) i fs =
     (fs, Inl (Inr ''support.bundle.write_failed: parent directory is unavailable''))"
  by (simp add: write_support_bundle_def)

section \<open>A bundle in an empty directory\<close>

definition tmp_only :: fs where
  "tmp_only = [[] \<mapsto> Dir 0x1ED, [''tmp''] \<mapsto> Dir 0x1FF]"

definition sound_io :: fs_fate where
  "sound_io = \<lparr> ff_umask = 0x12, ff_mkdir = \<lambda>_. None, ff_chmod = None, ff_write = \<lambda>_. WriteOk, ff_rename = None,
     ff_remove = False \<rparr>"

definition terse_env :: bundle_env where
  "terse_env = \<lparr> be_relay_version = ''0.54.0'', be_tsv = [], be_print = \<lambda>_. ''{}'', be_sha256 = \<lambda>_. [], be_now = ''now'' \<rparr>"

definition empty_report :: bundle_input where
  "empty_report = \<lparr> bi_doctor = JNull, bi_status = JNull, bi_doctor_ok = True, bi_status_ok = True, bi_healthy = True \<rparr>"

lemma tmp_only_closed: "closed_fs tmp_only"
  by (auto simp: closed_fs_def tmp_only_def append_eq_Cons_conv)

lemma empty_report_entries:
  "entries terse_env empty_report =
     [(''versions.json'', ''{}'', True), (''doctor.json'', ''{}'', True), (''status.json'', ''{}'', True),
      (''error-codes.json'', ''{}'', True), (''metrics-metadata.json'', ''{}'', True)]"
  by (simp add: entries_def payloads_def bounded_input_def empty_report_def terse_env_def)

lemma bundle_written:
  "\<exists>fs'. write_support_bundle sound_io terse_env ''1-2'' [] (Absolute [''tmp'', ''b'']) empty_report tmp_only
     = (fs', Inr (Absolute [''tmp'', ''b''], True))"
proof -
  have m: "be_print terse_env (manifest terse_env empty_report) = ''{}''" by (simp add: terse_env_def)
  have "[0..<100] = 0 # [1..<100]" by (simp add: upt_rec)
  then show ?thesis
    by (simp add: write_support_bundle_def walk_def is_dir_at_def tmp_only_def candidate_def
        sound_io_def write_bundle_contents_def empty_report_entries total_bytes_def saturating_add_def max_bundle_bytes_def
        set_private_directory_def write_private_file_def m Let_def)
      (simp add: empty_report_def)
qed

theorem bundle_all_or_nothing_witness:
  "\<exists>fs'. write_support_bundle sound_io terse_env ''1-2'' [] (Absolute [''tmp'', ''b'']) empty_report tmp_only
       = (fs', Inr (Absolute [''tmp'', ''b''], True))
     \<and> fs' = with_directory tmp_only [''tmp'', ''b''] 0x12 (bundle_contents terse_env empty_report)"
proof -
  obtain fs' where fs': "write_support_bundle sound_io terse_env ''1-2'' [] (Absolute [''tmp'', ''b'']) empty_report tmp_only
      = (fs', Inr (Absolute [''tmp'', ''b''], True))" using bundle_written by blast
  from bundle_all_or_nothing [OF tmp_only_closed this] fs' show ?thesis
    by (simp add: walk_def sound_io_def)
qed

theorem bundle_values_are_bounded_witness:
  "list_all (\<lambda>(name, value, collected). bounded_value value)
     (take 4 (payloads terse_env (empty_report\<lparr>bi_status := JObj [(''url'', JStr ''postgres://u:p@h/db'')]\<rparr>)))"
proof -
  have "clean_text (be_relay_version terse_env)"
    by (simp add: terse_env_def clean_text_def max_string_bytes_def starts_with_def)
  from bundle_values_are_bounded [OF this] show ?thesis by blast
qed

end
