(* ===== verification/Sweep_Command.thy ===== *)
theory Sweep_Command
  imports Outbox
begin

text \<open>
  \<open>pg-tide maintenance sweep\<close> (\<open>pg-tide-relay/src/cmd/sweep.rs\<close>): the batches it calls the
  extension's \<open>outbox_sweep\<close> for, each in a transaction of its own, and the JSON that goes between
  them (\<open>pg-tide-ext/src/outbox.rs\<close>).  The printing of other values, the times and the failures of a
  call are arguments.
\<close>

section \<open>The extension's answer\<close>

definition participant_json :: "participant \<Rightarrow> json" where
  "participant_json p =
     JObj [(''enabled'', JBool (p_enabled p)), (''name'', JStr (p_name p)), (''safe_offset'', JInt (p_safe_offset p))]"

definition int_or_null :: "int option \<Rightarrow> json" where
  "int_or_null v = (case v of None \<Rightarrow> JNull | Some i \<Rightarrow> JInt i)"

definition sweep_value :: "string \<Rightarrow> string \<Rightarrow> sweep_result \<Rightarrow> json" where
  "sweep_value cutoff duration r =
     JObj
       [(''affected_rows'', JInt (int (sr_affected_rows r))),
        (''blockers'', JArr (if sr_lease_blocked r then [JObj [(''type'', JStr ''active_lease'')]] else [])),
        (''duration_ms'', JFloat duration),
        (''eligible_in_batch'', JInt (int (sr_eligible_in_batch r))),
        (''has_more'', JBool (sr_has_more r)),
        (''highest_deleted_id'', int_or_null (sr_highest_deleted_id r)),
        (''outbox'', JStr (sr_outbox r)),
        (''participants'', JArr (map participant_json (sr_participants r))),
        (''partition_action'', JStr ''none''),
        (''retention_cutoff'', JStr cutoff),
        (''safe_offset'', int_or_null (sr_safe_offset r))]"

definition sweep_response :: "string \<Rightarrow> string \<Rightarrow> int \<Rightarrow> bool \<Rightarrow> sweep_result list \<Rightarrow> json" where
  "sweep_response cutoff duration batch_size dry_run rs =
     JObj [(''batch_size'', JInt batch_size), (''dry_run'', JBool dry_run),
           (''outboxes'', JArr (map (sweep_value cutoff duration) rs))]"

section \<open>What the command reads of it\<close>

record sweep_report =
  rp_affected_rows :: int
  rp_eligible_in_batch :: int
  rp_has_more :: bool
  rp_highest_deleted_id :: "int option"
  rp_safe_offset :: "int option"
  rp_blockers :: "string list"
  rp_partition_action :: "string option"

definition number_of :: "(string \<times> json) list \<Rightarrow> string list \<Rightarrow> int option" where
  "number_of object names =
     (case List.map_filter (\<lambda>n. Option.bind (map_of object n) as_i64) names of [] \<Rightarrow> None | i # _ \<Rightarrow> Some i)"

definition outboxes_of :: "json \<Rightarrow> json list option" where
  "outboxes_of v = Option.bind (json_get v ''outboxes'') as_array"

lemma outboxes_size: "outboxes_of v = Some (r # rs) \<Longrightarrow> size r < size v"
proof -
  assume "outboxes_of v = Some (r # rs)"
  then obtain kvs w where v: "v = JObj kvs" and w: "map_of kvs ''outboxes'' = Some w" "w = JArr (r # rs)"
    by (cases v; auto simp: outboxes_of_def bind_eq_Some_conv elim!: as_array.elims)
  from w(1) have "(''outboxes'', w) \<in> set kvs" by (rule map_of_SomeD)
  then have "size w < size v"
    unfolding v by (induction kvs) auto
  then show ?thesis by (simp add: w(2))
qed

text \<open>An answer for several outboxes is read as that of its first; an empty one as an empty object.\<close>

function from_json :: "(json \<Rightarrow> string) \<Rightarrow> string \<Rightarrow> json \<Rightarrow> string + sweep_report" where
  "from_json pr outbox v =
     (case outboxes_of v of
        Some (r # _) \<Rightarrow> from_json pr outbox r
      | Some [] \<Rightarrow> from_json pr outbox (JObj [(''outbox'', JStr outbox)])
      | None \<Rightarrow>
          (case v of
             JObj object \<Rightarrow>
               Inr \<lparr> rp_affected_rows = unwrap_or (number_of object [''affected_rows'', ''deleted_rows'', ''rows_deleted'']) 0,
                     rp_eligible_in_batch = unwrap_or (number_of object [''eligible_in_batch'', ''eligible_rows'']) 0,
                     rp_has_more = unwrap_or (Option.bind (map_of object ''has_more'') as_bool) False,
                     rp_highest_deleted_id = number_of object [''highest_deleted_id'', ''highest_deleted''],
                     rp_safe_offset = number_of object [''safe_offset'', ''safe_cleanup_offset''],
                     rp_blockers = map (\<lambda>b. unwrap_or (as_str b) (pr b))
                       (unwrap_or (Option.bind (map_of object ''blockers'') as_array) []),
                     rp_partition_action = map_option pr
                       (case map_of object ''partition_action'' of None \<Rightarrow> map_of object ''partition'' | Some a \<Rightarrow> Some a) \<rparr>
           | _ \<Rightarrow> Inl (''outbox '' @ quoted outbox @ '' returned a non-object sweep result'')))"
  by pat_completeness auto
termination
  by (relation "measure (\<lambda>(pr, outbox, v). if outboxes_of v = None then 0 else Suc (size v))")
    (auto simp: outboxes_of_def dest: outboxes_size [unfolded outboxes_of_def])

declare from_json.simps [simp del]

section \<open>The command\<close>

record call_fate =
  cf_begin :: "string option"
  cf_sweep :: "nat \<Rightarrow> spi_fate"
  cf_commit :: "string option"

record sweep_env =
  sv_call :: "string \<Rightarrow> nat \<Rightarrow> call_fate"
  sv_locked :: "int \<Rightarrow> bool"
  sv_now :: int
  sv_print :: "json \<Rightarrow> string"
  sv_texts :: "string \<times> string"

text \<open>One transaction around \<open>outbox_sweep\<close>; an error of it, or of reading its answer, is rolled back.\<close>

definition call_sweep ::
    "sweep_env \<Rightarrow> string \<Rightarrow> nat \<Rightarrow> int \<Rightarrow> bool \<Rightarrow> tide_db \<Rightarrow> (string + sweep_report) \<times> tide_db" where
  "call_sweep env name batch batch_size dry_run db =
     (let fate = sv_call env name batch
      in case cf_begin fate of
           Some e \<Rightarrow> (Inl e, db)
         | None \<Rightarrow>
             (case outbox_sweep (cf_sweep fate) (sv_locked env) (sv_now env) (Some name) batch_size dry_run db of
                Inl e \<Rightarrow> (Inl (pg_text (raised e)), db)
              | Inr (rs, db') \<Rightarrow>
                  (case from_json (sv_print env) name
                          (sweep_response (fst (sv_texts env)) (snd (sv_texts env)) batch_size dry_run rs) of
                     Inl e \<Rightarrow> (Inl e, db)
                   | Inr report \<Rightarrow>
                       (case cf_commit fate of Some e \<Rightarrow> (Inl e, db) | None \<Rightarrow> (Inr report, db')))))"

record outbox_tally =
  ot_deleted :: int
  ot_completed :: nat
  ot_failure :: "string option"

text \<open>The loop over the batches of one outbox.\<close>

fun sweep_batches ::
    "sweep_env \<Rightarrow> string \<Rightarrow> int \<Rightarrow> bool \<Rightarrow> nat list \<Rightarrow> int \<Rightarrow> nat \<Rightarrow> tide_db \<Rightarrow> outbox_tally \<times> tide_db" where
  "sweep_batches env name batch_size dry_run [] deleted completed db =
     (\<lparr> ot_deleted = deleted, ot_completed = completed, ot_failure = None \<rparr>, db)"
| "sweep_batches env name batch_size dry_run (b # bs) deleted completed db =
     (case call_sweep env name b batch_size dry_run db of
        (Inl e, db') \<Rightarrow>
          (\<lparr> ot_deleted = deleted, ot_completed = completed,
             ot_failure = Some (''outbox '' @ quoted name @ '' sweep failed after '' @ show_nat completed @ '' batch(es): ''
               @ e @ ''; inspect tide.outbox_retention_status and retry'') \<rparr>, db')
      | (Inr report, db') \<Rightarrow>
          (if dry_run \<or> \<not> rp_has_more report
           then (\<lparr> ot_deleted = deleted + rp_affected_rows report, ot_completed = b, ot_failure = None \<rparr>, db')
           else sweep_batches env name batch_size dry_run bs (deleted + rp_affected_rows report) b db'))"

fun sweep_outboxes ::
    "sweep_env \<Rightarrow> int \<Rightarrow> bool \<Rightarrow> nat \<Rightarrow> string list \<Rightarrow> tide_db \<Rightarrow> (string \<times> outbox_tally) list \<times> tide_db" where
  "sweep_outboxes env batch_size dry_run limit [] db = ([], db)"
| "sweep_outboxes env batch_size dry_run limit (n # ns) db =
     (let (t, db1) = sweep_batches env n batch_size dry_run [1..<Suc limit] 0 0 db;
          (ts, db2) = sweep_outboxes env batch_size dry_run limit ns db1
      in ((n, t) # ts, db2))"

definition tally_json :: "string \<times> outbox_tally \<Rightarrow> json" where
  "tally_json nt =
     JObj [(''affected_rows'', JInt (ot_deleted (snd nt))), (''completed_batches'', JInt (int (ot_completed (snd nt)))),
           (''outbox'', JStr (fst nt))]"

fun join_with :: "string \<Rightarrow> string list \<Rightarrow> string" where
  "join_with sep [] = []"
| "join_with sep [s] = s"
| "join_with sep (s # ss) = s @ sep @ join_with sep ss"

text \<open>
  \<open>partitions\<close> is the outcome of the partition maintenance, which touches no row; the result is the
  data of the JSON form or the joined failures.
\<close>

definition run_sweep_with_options ::
    "sweep_env \<Rightarrow> string + unit \<Rightarrow> string + string list \<Rightarrow> string + unit \<Rightarrow> string option \<Rightarrow> int \<Rightarrow> nat option \<Rightarrow> bool \<Rightarrow> tide_db
     \<Rightarrow> (string + json) \<times> tide_db" where
  "run_sweep_with_options env connect listed partitions target batch_size max_batches dry_run db =
     (if \<not> (1 \<le> batch_size \<and> batch_size \<le> 10000) then (Inl ''batch-size must be between 1 and 10000'', db)
      else if max_batches = Some 0 then (Inl ''max-batches must be greater than zero'', db)
      else case connect of
        Inl e \<Rightarrow> (Inl (''connection failed: '' @ e), db)
      | Inr _ \<Rightarrow>
          (case (case target of Some n \<Rightarrow> Inr [n] | None \<Rightarrow> listed) of
             Inl e \<Rightarrow> (Inl e, db)
           | Inr [] \<Rightarrow> (Inr (JObj [(''outboxes'', JArr []), (''total_deleted'', JInt 0)]), db)
           | Inr names \<Rightarrow>
               (let (tallies, db') = sweep_outboxes env batch_size dry_run
                      (if dry_run then 1 else unwrap_or max_batches 1) names db;
                    failures = List.map_filter (ot_failure \<circ> snd) tallies
                      @ (case partitions of
                           Inl e \<Rightarrow> [''partition maintenance failed: '' @ e @ ''; inspect tide.outbox_storage_config and retry'']
                         | Inr _ \<Rightarrow> [])
                in if failures = []
                   then (Inr (JObj [(''dry_run'', JBool dry_run), (''outboxes'', JArr (map tally_json tallies)),
                                    (''total_deleted'', JInt (sum_list (map (ot_deleted \<circ> snd) tallies)))]), db')
                   else (Inl (join_with ''; '' failures), db'))))"

section \<open>The two programs agree on the answer\<close>

definition report_of :: "sweep_result \<Rightarrow> (json \<Rightarrow> string) \<Rightarrow> sweep_report" where
  "report_of r pr =
     \<lparr> rp_affected_rows = int (sr_affected_rows r), rp_eligible_in_batch = int (sr_eligible_in_batch r),
       rp_has_more = sr_has_more r, rp_highest_deleted_id = sr_highest_deleted_id r,
       rp_safe_offset = sr_safe_offset r,
       rp_blockers = (if sr_lease_blocked r then [pr (JObj [(''type'', JStr ''active_lease'')])] else []),
       rp_partition_action = Some (pr (JStr ''none'')) \<rparr>"

definition fits_i64 :: "sweep_result \<Rightarrow> bool" where
  "fits_i64 r \<longleftrightarrow> int (sr_affected_rows r) \<le> i64_max \<and> int (sr_eligible_in_batch r) \<le> i64_max
   \<and> (\<forall>i \<in> set_option (sr_highest_deleted_id r) \<union> set_option (sr_safe_offset r). i64_min \<le> i \<and> i \<le> i64_max)"

lemma number_of_Cons:
  "number_of object (n # ns) = (case Option.bind (map_of object n) as_i64 of Some i \<Rightarrow> Some i | None \<Rightarrow> number_of object ns)"
  by (simp add: number_of_def List.map_filter_def split: option.splits)

lemma number_of_Nil: "number_of object [] = None"
  by (simp add: number_of_def List.map_filter_def)

text \<open>Reading the extension's answer gives back its result.\<close>

lemma sweep_answer_round_trip:
  assumes "fits_i64 r"
  shows "from_json pr name (sweep_response cutoff duration n dry [r]) = Inr (report_of r pr)"
proof -
  have low: "i64_min \<le> int k" for k by (simp add: i64_min_def)
  have "from_json pr name (sweep_response cutoff duration n dry [r]) = from_json pr name (sweep_value cutoff duration r)"
    by (subst from_json.simps) (simp add: sweep_response_def outboxes_of_def)
  also have "\<dots> = Inr (report_of r pr)"
    using assms low
    by (subst from_json.simps)
      (simp add: sweep_value_def outboxes_of_def report_of_def number_of_Cons number_of_Nil fits_i64_def int_or_null_def
        split: option.splits)
  finally show ?thesis .
qed

section \<open>What a sweep removes\<close>

definition sweep_cutoff :: "int \<Rightarrow> string \<Rightarrow> tide_db \<Rightarrow> int" where
  "sweep_cutoff now name db =
     now - hour_us * (case map_of (outbox_configs db) name of Some c \<Rightarrow> oc_retention_hours c | None \<Rightarrow> 24)"

text \<open>The rows a sweep may remove now, in the order of their identifiers.\<close>

definition eligible_rows :: "int \<Rightarrow> string \<Rightarrow> tide_db \<Rightarrow> outbox_row list" where
  "eligible_rows now name db =
     sort_key row_id (filter (eligible name (sweep_cutoff now name db) (safe_offset name db)) (outbox_messages db))"

definition removed :: "outbox_row list \<Rightarrow> tide_db \<Rightarrow> tide_db \<Rightarrow> bool" where
  "removed gone db db' \<longleftrightarrow> outbox_messages db' = filter (\<lambda>m. row_id m \<notin> row_id ` set gone) (outbox_messages db)
   \<and> relay_configs db' = relay_configs db \<and> relay_offsets db' = relay_offsets db \<and> outbox_configs db' = outbox_configs db
   \<and> consumer_groups db' = consumer_groups db \<and> consumer_offsets db' = consumer_offsets db
   \<and> consumer_leases db' = consumer_leases db"

lemma removed_lookups:
  assumes "removed gone db db'"
  shows "safe_offset name db' = safe_offset name db" "sweep_cutoff now name db' = sweep_cutoff now name db"
    "lease_blocked now name db' = lease_blocked now name db"
  using assms
  by (simp_all add: removed_def safe_offset_def participants_def relay_participants_def group_participants_def
      sweep_cutoff_def lease_blocked_def group_of_outbox_def)

lemma eligible_removed:
  assumes "removed gone db db'"
  shows "eligible_rows now name db' = filter (\<lambda>m. row_id m \<notin> row_id ` set gone) (eligible_rows now name db)"
  unfolding eligible_rows_def removed_lookups [OF assms] filter_sort
  using assms by (simp add: removed_def conj_commute)

lemma drop_swept:
  "distinct (map row_id es) \<Longrightarrow> filter (\<lambda>m. row_id m \<notin> row_id ` set (take n es)) es = drop n es"
proof (induction es arbitrary: n)
  case (Cons e es)
  show ?case
  proof (cases n)
    case 0
    then show ?thesis by simp
  next
    case (Suc m)
    have "filter (\<lambda>x. row_id x \<notin> row_id ` set (take n (e # es))) es = filter (\<lambda>x. row_id x \<notin> row_id ` set (take m es)) es"
      using Cons.prems by (auto simp: Suc image_iff intro!: filter_cong)
    with Cons show ?thesis by (simp add: Suc)
  qed
qed simp

lemma distinct_eligible: "distinct (map row_id (outbox_messages db)) \<Longrightarrow> distinct (map row_id (eligible_rows now name db))"
  by (simp add: eligible_rows_def distinct_map inj_on_def)

text \<open>One call without failures and without locked rows.\<close>

definition calm_env :: "sweep_env \<Rightarrow> bool" where
  "calm_env env \<longleftrightarrow> (\<forall>n b. cf_begin (sv_call env n b) = None \<and> cf_commit (sv_call env n b) = None
     \<and> (\<forall>i k. cf_sweep (sv_call env n b) i k = None)) \<and> (\<forall>i. \<not> sv_locked env i)"

lemma sweep_one_calm:
  assumes "\<forall>k. f k = None" "\<forall>i. \<not> locked i" "\<not> lease_blocked now name db"
  shows "\<exists>r db'. sweep_one f locked now name n False db = Inr (r, db')
    \<and> removed (take n (eligible_rows now name db)) db db'
    \<and> sr_affected_rows r = length (take n (eligible_rows now name db))
    \<and> sr_has_more r = (n < length (eligible_rows now name db))"
proof -
  let ?E = "eligible_rows now name db"
  have C: "sweep_candidates locked name (sweep_cutoff now name db) (safe_offset name db) m db = take m ?E" for m
    using assms(2) by (simp add: sweep_candidates_def eligible_rows_def)
  let ?locked = "sweep_one_locked f locked now name n False db"
  have more: "n < length (take (Suc n) ?E) \<longleftrightarrow> n < length ?E" by auto
  have "\<exists>r db'. ?locked = Inr (r, db') \<and> sr_has_more r = (n < length ?E)"
    by (cases "?E \<noteq> [] \<and> 0 < n")
      (simp_all add: sweep_one_locked_def sweep_spi_def assms(1,3) Let_def sweep_cutoff_def [symmetric] C more del: length_take)
  then obtain r db' where one: "?locked = Inr (r, db')" "sr_has_more r = (n < length ?E)" by blast
  have "swept_rows locked now name n False db = take n ?E"
    by (simp add: swept_rows_def assms(3) sweep_cutoff_def [symmetric] C)
  with sweep_one_locked_db [OF one(1)]
  have "removed (take n ?E) db db'" "sr_affected_rows r = length (take n ?E)"
    by (simp_all add: removed_def record_cleanup_def)
  moreover have "sweep_one f locked now name n False db = Inr (r, db')"
    by (simp add: sweep_one_def spi_def assms(1) one(1))
  ultimately show ?thesis using one(2) by blast
qed

lemma sweep_answer_read:
  assumes "int (sr_affected_rows r) \<le> i64_max"
  shows "\<exists>report. from_json pr name (sweep_response cutoff duration n dry [r]) = Inr report
    \<and> rp_has_more report = sr_has_more r \<and> rp_affected_rows report = int (sr_affected_rows r)"
proof -
  have "from_json pr name (sweep_response cutoff duration n dry [r]) = from_json pr name (sweep_value cutoff duration r)"
    by (subst from_json.simps) (simp add: sweep_response_def outboxes_of_def)
  then show ?thesis
    using assms by (subst (asm) (2) from_json.simps)
      (simp add: sweep_value_def outboxes_of_def number_of_Cons number_of_Nil i64_min_def)
qed

lemma call_sweep_calm:
  assumes "calm_env env" "map_of (outbox_configs db) name \<noteq> None" "1 \<le> bs" "bs \<le> 10000"
    and "\<not> lease_blocked (sv_now env) name db"
  shows "\<exists>report db'. call_sweep env name b bs False db = (Inr report, db')
    \<and> removed (take (nat bs) (eligible_rows (sv_now env) name db)) db db'
    \<and> rp_affected_rows report = int (length (take (nat bs) (eligible_rows (sv_now env) name db)))
    \<and> rp_has_more report = (nat bs < length (eligible_rows (sv_now env) name db))"
proof -
  let ?E = "eligible_rows (sv_now env) name db" and ?ff = "cf_sweep (sv_call env name b)"
  have calm: "cf_begin (sv_call env name b) = None" "cf_commit (sv_call env name b) = None" "\<forall>i k. ?ff i k = None"
    "\<forall>i. \<not> sv_locked env i" using assms(1) by (auto simp: calm_env_def)
  obtain r db' where r: "sweep_one (?ff 1) (sv_locked env) (sv_now env) name (nat bs) False db = Inr (r, db')"
      "removed (take (nat bs) ?E) db db'" "sr_affected_rows r = length (take (nat bs) ?E)"
      "sr_has_more r = (nat bs < length ?E)"
    using sweep_one_calm [of "?ff 1" "sv_locked env" "sv_now env" name db "nat bs"] calm(3,4) assms(5) by auto
  have "outbox_sweep ?ff (sv_locked env) (sv_now env) (Some name) bs False db = Inr ([r], db')"
    using assms(2-4) calm(3) r(1) by (auto simp: outbox_sweep_def outbox_exists_def max_sweep_batch_def)
  moreover have "int (sr_affected_rows r) \<le> i64_max"
    using assms(4) by (simp add: r(3) i64_max_def)
  from sweep_answer_read [OF this] obtain report where
    "from_json (sv_print env) name (sweep_response (fst (sv_texts env)) (snd (sv_texts env)) bs False [r]) = Inr report"
    "rp_has_more report = sr_has_more r" "rp_affected_rows report = int (sr_affected_rows r)" by blast
  ultimately show ?thesis using calm(1,2) r by (simp add: call_sweep_def Let_def)
qed

lemma removed_trans:
  assumes "removed (take k es) db db1" "removed (take m (drop k es)) db1 db2"
  shows "removed (take (k + m) es) db db2"
  using assms by (simp add: removed_def take_add image_Un conj_commute)

lemma removed_distinct: "removed gone db db' \<Longrightarrow> distinct (map row_id (outbox_messages db)) \<Longrightarrow> distinct (map row_id (outbox_messages db'))"
  by (simp add: removed_def distinct_map_filter)

lemma sweep_batches_calm:
  assumes "calm_env env" "1 \<le> bs" "bs \<le> 10000" "0 < m"
    and "map_of (outbox_configs db) name \<noteq> None" "\<not> lease_blocked (sv_now env) name db"
    and "distinct (map row_id (outbox_messages db))"
  shows "\<exists>tally db'. sweep_batches env name bs False [b..<b + m] deleted completed db = (tally, db') \<and> ot_failure tally = None
    \<and> removed (take (m * nat bs) (eligible_rows (sv_now env) name db)) db db'
    \<and> ot_deleted tally = deleted + int (length (take (m * nat bs) (eligible_rows (sv_now env) name db)))"
  using assms(4-7)
proof (induction m arbitrary: b deleted completed db)
  case (Suc m)
  let ?E = "eligible_rows (sv_now env) name db" and ?k = "nat bs"
  obtain report db1 where c: "call_sweep env name b bs False db = (Inr report, db1)" "removed (take ?k ?E) db db1"
      "rp_affected_rows report = int (length (take ?k ?E))" "rp_has_more report = (?k < length ?E)"
    using call_sweep_calm [OF assms(1) Suc.prems(2) assms(2,3) Suc.prems(3)] by blast
  have loop: "[b..<b + Suc m] = b # [Suc b..<Suc b + m]" by (simp add: upt_conv_Cons)
  show ?case
  proof (cases "?k < length ?E \<and> 0 < m")
    case False
    then have all: "take (Suc m * ?k) ?E = take ?k ?E" by auto
    have "\<exists>t. sweep_batches env name bs False [b..<b + Suc m] deleted completed db = (t, db1) \<and> ot_failure t = None
        \<and> ot_deleted t = deleted + rp_affected_rows report"
      using False c unfolding loop by auto
    then show ?thesis using c unfolding all by auto
  next
    case True
    have rest: "eligible_rows (sv_now env) name db1 = drop ?k ?E"
      using eligible_removed [OF c(2)] drop_swept [OF distinct_eligible [OF Suc.prems(4)]] by simp
    have "map_of (outbox_configs db1) name \<noteq> None" "\<not> lease_blocked (sv_now env) name db1"
      using Suc.prems(2,3) removed_lookups(3) [OF c(2)] c(2) by (simp_all add: removed_def)
    from Suc.IH [of db1 "Suc b" "deleted + rp_affected_rows report" b] True this removed_distinct [OF c(2) Suc.prems(4)]
    obtain t db' where t: "sweep_batches env name bs False [Suc b..<Suc b + m] (deleted + rp_affected_rows report) b db1 = (t, db')"
        "ot_failure t = None" "removed (take (m * ?k) (drop ?k ?E)) db1 db'"
        "ot_deleted t = deleted + rp_affected_rows report + int (length (take (m * ?k) (drop ?k ?E)))"
      unfolding rest by blast
    have "sweep_batches env name bs False [b..<b + Suc m] deleted completed db = (t, db')"
      using True c t(1) unfolding loop by simp
    moreover have "removed (take (Suc m * ?k) ?E) db db'" using removed_trans [OF c(2) t(3)] by simp
    moreover have "ot_deleted t = deleted + int (length (take (Suc m * ?k) ?E))"
      unfolding t(4) c(3) using True by (auto simp: min_def)
    ultimately show ?thesis using t(2) by blast
  qed
qed simp

text \<open>
  C21: Without failures, the sweep of an outbox in at most m batches of n rows removes exactly the first
  m * n of its rows that the retention rules release, in the order of their identifiers, whatever the
  number of batches the has-more answers ask for, and reports how many it removed.
\<close>

theorem sweep_command_removes_released_rows:
  assumes "calm_env env" "1 \<le> bs" "bs \<le> 10000" "0 < m"
    and "map_of (outbox_configs db) name \<noteq> None" "\<not> lease_blocked (sv_now env) name db"
    and "distinct (map row_id (outbox_messages db))"
  shows "\<exists>answer db'. run_sweep_with_options env (Inr ()) listed (Inr ()) (Some name) bs (Some m) False db = (Inr answer, db')
    \<and> removed (take (m * nat bs) (eligible_rows (sv_now env) name db)) db db'
    \<and> eligible_rows (sv_now env) name db' = drop (m * nat bs) (eligible_rows (sv_now env) name db)
    \<and> json_get answer ''total_deleted'' = Some (JInt (int (min (length (eligible_rows (sv_now env) name db)) (m * nat bs))))"
proof -
  let ?E = "eligible_rows (sv_now env) name db"
  obtain t db' where t: "sweep_batches env name bs False [1..<Suc m] 0 0 db = (t, db')" "ot_failure t = None"
      "removed (take (m * nat bs) ?E) db db'" "ot_deleted t = int (length (take (m * nat bs) ?E))"
    using sweep_batches_calm [OF assms, of 1 0 0] by auto
  have "eligible_rows (sv_now env) name db' = drop (m * nat bs) ?E"
    using eligible_removed [OF t(3)] drop_swept [OF distinct_eligible [OF assms(7)]] by simp
  moreover have "\<exists>answer. run_sweep_with_options env (Inr ()) listed (Inr ()) (Some name) bs (Some m) False db = (Inr answer, db')
      \<and> json_get answer ''total_deleted'' = Some (JInt (ot_deleted t))"
    using assms(2-4) t(1,2) by (simp add: run_sweep_with_options_def List.map_filter_def)
  ultimately show ?thesis using t(3,4) by auto
qed

lemma call_sweep_dry_run: "snd (call_sweep env name b bs True db) = db"
proof -
  have "db' = db" if "outbox_sweep ff locked now (Some name) bs True db = Inr (rs, db')" for ff locked now rs db'
    using that
    by (auto simp: outbox_sweep_def and_then_Inr_iff sweep_one_def split: if_splits dest: sweep_one_locked_dry_run)
  then show ?thesis by (auto simp: call_sweep_def Let_def split: option.splits sum.splits)
qed

text \<open>A dry run changes nothing, whatever fails.\<close>

lemma dry_run_changes_nothing:
  "snd (run_sweep_with_options env connect listed partitions target bs max_batches True db) = db"
proof -
  have batches: "snd (sweep_batches env n bs True bats d c db) = db" for n bats d c db
    using call_sweep_dry_run [of env n "hd bats" bs db]
    by (cases bats) (auto split: prod.splits sum.splits)
  have outboxes: "snd (sweep_outboxes env bs True l ns db) = db" for l ns db
  proof (induction ns arbitrary: db)
    case (Cons n ns)
    obtain t db1 where b: "sweep_batches env n bs True [1..<Suc l] 0 0 db = (t, db1)" by force
    then have "db1 = db" using batches [of n "[1..<Suc l]" 0 0 db] by simp
    moreover obtain ts db2 where "sweep_outboxes env bs True l ns db1 = (ts, db2)" by force
    ultimately show ?case using b Cons.IH [of db] by (simp del: sweep_batches.simps upt_Suc)
  qed simp
  obtain ts db' where "sweep_outboxes env bs True 1 (case target of Some n \<Rightarrow> [n] | None \<Rightarrow> (case listed of Inr ns \<Rightarrow> ns | Inl _ \<Rightarrow> [])) db = (ts, db')"
    by force
  moreover from this outboxes have "db' = db" by (metis snd_conv)
  ultimately show ?thesis
    by (auto simp: run_sweep_with_options_def Let_def simp del: sweep_outboxes.simps split: sum.splits list.splits option.splits)
qed

definition old_row :: outbox_row where
  "old_row = \<lparr> row_id = 3, row_outbox = ''orders'', row_payload = JNull, row_headers = JObj [], row_created_at = 0 \<rparr>"

definition old_db :: tide_db where
  "old_db = empty_db\<lparr>outbox_configs := [(''orders'', \<lparr> oc_enabled = True, oc_retention_hours = 24,
       oc_inline_threshold = 10000, oc_partition_strategy = ''none'' \<rparr>)], outbox_messages := [old_row]\<rparr>"

definition week_later :: sweep_env where
  "week_later = \<lparr> sv_call = \<lambda>_ _. \<lparr> cf_begin = None, cf_sweep = \<lambda>_ _. None, cf_commit = None \<rparr>, sv_locked = \<lambda>_. False,
     sv_now = 604800000000, sv_print = \<lambda>_. [], sv_texts = ([], []) \<rparr>"

lemma old_eligible: "eligible_rows (sv_now week_later) ''orders'' old_db = [old_row]"
  by (simp add: eligible_rows_def sweep_cutoff_def week_later_def old_db_def old_row_def hour_us_def eligible_def
      safe_offset_def participants_def relay_participants_def group_participants_def empty_db_def)

theorem sweep_command_removes_released_rows_witness:
  "\<exists>answer db'. run_sweep_with_options week_later (Inr ()) (Inr []) (Inr ()) (Some ''orders'') 1000 (Some 2) False old_db = (Inr answer, db')
    \<and> eligible_rows (sv_now week_later) ''orders'' db' = [] \<and> json_get answer ''total_deleted'' = Some (JInt 1)"
proof -
  have "calm_env week_later" by (simp add: calm_env_def week_later_def)
  moreover have "map_of (outbox_configs old_db) ''orders'' \<noteq> None" "distinct (map row_id (outbox_messages old_db))"
    "\<not> lease_blocked (sv_now week_later) ''orders'' old_db"
    by (simp_all add: old_db_def lease_blocked_def empty_db_def)
  ultimately have "\<exists>answer db'. run_sweep_with_options week_later (Inr ()) (Inr []) (Inr ()) (Some ''orders'') 1000 (Some 2) False old_db = (Inr answer, db')
    \<and> removed (take (2 * nat 1000) (eligible_rows (sv_now week_later) ''orders'' old_db)) old_db db'
    \<and> eligible_rows (sv_now week_later) ''orders'' db' = drop (2 * nat 1000) (eligible_rows (sv_now week_later) ''orders'' old_db)
    \<and> json_get answer ''total_deleted'' = Some (JInt (int (min (length (eligible_rows (sv_now week_later) ''orders'' old_db)) (2 * nat 1000))))"
    by (intro sweep_command_removes_released_rows) simp_all
  then show ?thesis unfolding old_eligible by auto
qed

end
