(* ===== verification/Admin_Commands.thy ===== *)
theory Admin_Commands
  imports Secrets Tide_Db Compatibility Operator_Errors
begin

text \<open>
  The remaining commands of \<open>pg-tide\<close> (\<open>pg-tide-relay/src/cmd\<close>): \<open>config export\<close> (\<open>config.rs\<close>), \<open>config
  validate\<close> (\<open>validate_config.rs\<close>), \<open>migrate-config\<close>, \<open>history\<close> and the self-test of the start.  What
  PostgreSQL answers, and whether a statement fails, are arguments.
\<close>

section \<open>config export\<close>

text \<open>\<open>ORDER BY name, direction\<close>: a stable sort by name, forward rows first.\<close>

definition export_rows :: "string option \<Rightarrow> tide_db \<Rightarrow> (string \<times> string \<times> relay_config_row) list" where
  "export_rows pipeline db =
     sort_key fst (filter (\<lambda>(name, _). case pipeline of None \<Rightarrow> True | Some p \<Rightarrow> name = p)
       (map (\<lambda>(n, r). (n, ''forward'', r)) (relay_configs db) @ map (\<lambda>(n, r). (n, ''reverse'', r)) (relay_inbox_configs db)))"

definition export_entry :: "schema_env \<Rightarrow> string \<times> string \<times> relay_config_row \<Rightarrow> relay_error + json" where
  "export_entry env row =
     (case row of (name, direction, r) \<Rightarrow>
        and_then (parse_document env name (rc_config r)) (\<lambda>d.
          Inr (JObj [(''config'', canonical_json d), (''direction'', JStr direction),
                     (''enabled'', JBool (rc_enabled r)), (''name'', JStr name)])))"

definition run_export ::
    "relay_error option \<Rightarrow> pg_error option \<Rightarrow> schema_env \<Rightarrow> string option \<Rightarrow> tide_db \<Rightarrow> relay_error + json" where
  "run_export conn fault env pipeline db =
     and_then (case conn of None \<Rightarrow> Inr () | Some e \<Rightarrow> Inl e) (\<lambda>_.
     and_then (case fault of None \<Rightarrow> Inr () | Some e \<Rightarrow> Inl (Postgres e)) (\<lambda>_.
     and_then (map_result (export_entry env) (export_rows pipeline db)) (\<lambda>ps.
       Inr (JObj [(''pipelines'', JArr ps), (''schema_version'', JInt 1)]))))"

section \<open>config validate\<close>

definition catalog_row :: "string \<Rightarrow> tide_db \<Rightarrow> (pipeline_direction \<times> relay_config_row) option" where
  "catalog_row name db =
     (case map_of (relay_configs db) name of
        Some r \<Rightarrow> Some (Forward, r)
      | None \<Rightarrow> map_option (Pair Reverse) (map_of (relay_inbox_configs db) name))"

fun join_texts :: "string \<Rightarrow> string list \<Rightarrow> string" where
  "join_texts sep [] = []"
| "join_texts sep [x] = x"
| "join_texts sep (x # y # ys) = x @ sep @ join_texts sep (y # ys)"

definition row_direction :: "pipeline_direction \<Rightarrow> string" where
  "row_direction d = (case d of Forward \<Rightarrow> ''forward'' | Reverse \<Rightarrow> ''reverse'')"

text \<open>The pipeline is checked as one of the tenant \<open>default\<close>; errors that are not texts stay errors.\<close>

definition run_validate_config ::
    "relay_error option \<Rightarrow> pg_error option \<Rightarrow> schema_env \<Rightarrow> process_env \<Rightarrow> string \<Rightarrow> tide_db \<Rightarrow> (relay_error + string) + json" where
  "run_validate_config conn fault env pe name db =
     and_then (case conn of None \<Rightarrow> Inr () | Some e \<Rightarrow> Inl (Inr (''connection failed: '' @ show_relay_error e))) (\<lambda>_.
     and_then (case fault of None \<Rightarrow> Inr () | Some e \<Rightarrow> Inl (Inl (Postgres e))) (\<lambda>_.
     and_then (ok_or (catalog_row name db) (Inr (''pipeline '' @ quoted name @ '' not found in catalog''))) (\<lambda>(direction, r).
     let pc = \<lparr> pc_name = name, pc_direction = direction, pc_enabled = rc_enabled r, pc_config = rc_config r,
                pc_tenant = ''default'' \<rparr>;
         report = validate_pipelines env [pc]
     in and_then (ensure (report_valid report)
          (Inr (''pipeline '' @ quoted name @ '' failed preflight: ''
            @ join_texts ''; '' (map pi_reason (filter (\<lambda>i. pi_severity i = SevError) report))))) (\<lambda>_.
        and_then (map_err (\<lambda>e. Inr (''secret resolution failed: '' @ show_relay_error e))
          (resolve_pipeline_secrets pe (rc_config r))) (\<lambda>_.
          Inr (JObj [(''direction'', JStr (row_direction direction)), (''enabled'', JBool (rc_enabled r)),
                     (''pipeline'', JStr name), (''valid'', JBool True)]))))))"

section \<open>migrate-config\<close>

definition migrated_sinks :: "string list" where
  "migrated_sinks = [''inbox'', ''pg_outbox'', ''nats'', ''kafka'', ''webhook'', ''stdout'', ''file'']"

definition text_of :: "json \<Rightarrow> string \<Rightarrow> string option" where
  "text_of config k = Option.bind (json_get config k) as_str"

fun first_some :: "'a option list \<Rightarrow> 'a option" where
  "first_some [] = None"
| "first_some (x # xs) = (case x of Some a \<Rightarrow> Some a | None \<Rightarrow> first_some xs)"

definition removed_surface :: "json \<Rightarrow> bool \<Rightarrow> string option" where
  "removed_surface config reverse =
     first_some
       [if reverse then Some ''reverse pipeline'' else None,
        if text_of config ''source_mode'' = Some ''pg_trickle'' then Some ''source_mode=pg_trickle'' else None,
        (let source = unwrap_or (text_of config ''source_type'') ''outbox''
         in if source \<noteq> ''outbox'' then Some (''source_type='' @ source) else None),
        Option.bind (text_of config ''sink_type'') (\<lambda>k. if k \<in> set migrated_sinks then None else Some (''sink_type='' @ k)),
        Option.bind (text_of config ''wire_format'') (\<lambda>f.
          if f = ''native'' \<or> f = ''cloudevents'' then None else Some (''wire_format='' @ f))]"

definition show_bool :: "bool \<Rightarrow> string" where "show_bool b = (if b then ''true'' else ''false'')"

definition unsupported_line :: "string \<Rightarrow> bool \<Rightarrow> string \<Rightarrow> string" where
  "unsupported_line name enabled surface =
     ''PGTIDE_CONFIG_UNSUPPORTED_SURFACE: pipeline='' @ quoted name @ '' enabled='' @ show_bool enabled @ '' surface='' @ surface
     @ ''; last_version=0.48.0; alternative=export, disable, replace, or delete before upgrading''"

definition forward_lines :: "tide_db \<Rightarrow> string list" where
  "forward_lines db =
     List.map_filter (\<lambda>(name, r). map_option (unsupported_line name (rc_enabled r)) (removed_surface (rc_config r) False))
       (sort_key fst (relay_configs db))"

definition reverse_lines :: "tide_db \<Rightarrow> string list" where
  "reverse_lines db =
     map (\<lambda>(name, r). unsupported_line name (rc_enabled r) ''reverse pipeline'') (sort_key fst (relay_inbox_configs db))"

text \<open>The lines printed, also those printed before a query failed, and the result.\<close>

definition run_migrate_config ::
    "relay_error option \<Rightarrow> pg_error option \<Rightarrow> pg_error option \<Rightarrow> tide_db \<Rightarrow> string list \<times> (relay_error + unit)" where
  "run_migrate_config conn first second db =
     (case (conn, first, second) of
        (Some e, _, _) \<Rightarrow> ([], Inl e)
      | (None, Some e, _) \<Rightarrow> ([], Inl (Postgres e))
      | (None, None, Some e) \<Rightarrow> (forward_lines db, Inl (Postgres e))
      | (None, None, None) \<Rightarrow>
          let ls = forward_lines db @ reverse_lines db
          in (ls @ [if ls = [] then ''No v0.49.0-removed pipeline configuration found.''
                    else ''Found '' @ show_nat (length ls) @ '' affected pipeline(s). Export configuration, then disable, replace, ''
                      @ ''or delete each row before retrying the upgrade.''], Inr ()))"

section \<open>Self-test\<close>

text \<open>What the questions of the self-test are answered; a failing one counts as the default of its check.\<close>

record self_answers =
  sa_connect :: "relay_error option"
  sa_version :: "pg_error + string option"
  sa_schema :: "pg_error + bool"
  sa_tls :: "pg_error + (bool \<times> string) option"
  sa_lock :: "pg_error + bool"
  sa_pipelines :: "pg_error + int"
  sa_partition :: "pg_error + bool"

datatype self_verdict = SelfPass | SelfError "relay_error + string" | SelfExit

definition answer_text :: "'a \<Rightarrow> pg_error + 'a \<Rightarrow> 'a" where
  "answer_text d r = (case r of Inl _ \<Rightarrow> d | Inr a \<Rightarrow> a)"

definition asks_for_tls :: "string \<Rightarrow> bool" where
  "asks_for_tls url \<longleftrightarrow>
     str_contains ''sslmode=require'' url \<or> str_contains ''sslmode=verify-ca'' url \<or> str_contains ''sslmode=verify-full'' url"

definition em_dash :: string where "em_dash = [CHR 0xE2, CHR 0x80, CHR 0x94]"

text \<open>The check of the transport: its lines and whether the test goes on.\<close>

definition self_tls_check :: "string \<Rightarrow> pg_error + (bool \<times> string) option \<Rightarrow> string list \<times> bool" where
  "self_tls_check url answer =
     (case answer_text None answer of
        None \<Rightarrow> ([], True)
      | Some (ssl, version) \<Rightarrow>
          (if ssl then ([''  [OK] TLS: '' @ version], True)
           else if asks_for_tls url
           then ([''  [FAIL] sslmode=require/verify-* requested but connection is plaintext ''
                  @ em_dash @ '' compile with --features native-tls or use a TLS proxy''], False)
           else ([''  [INFO] TLS: plaintext (sslmode not set)''], True)))"

text \<open>The lines and the end of the test; in JSON mode a refused version is printed as an envelope instead.\<close>

definition self_failure :: "string \<Rightarrow> relay_error \<Rightarrow> json" where
  "self_failure observed_at e =
     output_envelope ''self-test'' observed_at (Inl (from_relay_error ''postgres.extension'' e))"

definition compatibility_line :: "compatibility_decision \<Rightarrow> string" where
  "compatibility_line d =
     ''  [OK] Compatibility: relay='' @ cd_relay_version d @ '' extension='' @ cd_extension_version d @ '' policy=''
     @ cd_policy_version d @ '' class='' @ cd_compatibility_class d"

definition run_self_test :: "string \<Rightarrow> bool \<Rightarrow> string \<Rightarrow> string \<Rightarrow> self_answers \<Rightarrow> (string + json) list \<times> self_verdict" where
  "run_self_test relay_version json_output observed_at url q =
     (let start = [Inl (''pg-tide self-test v'' @ relay_version)]
      in case sa_connect q of
           Some e \<Rightarrow> (start, SelfError (Inr (''connection failed: '' @ show_relay_error e)))
         | None \<Rightarrow>
             (let connected = start @ [Inl ''  [OK] Connected to PostgreSQL'']
              in case check_client (sa_version q) relay_version of
                   Inl e \<Rightarrow>
                     (connected @ [if json_output then Inr (self_failure observed_at e) else Inl (''  [FAIL] '' @ show_relay_error e)],
                      SelfError (Inl e))
                 | Inr d \<Rightarrow>
                     (let compatible = connected @ [Inl (compatibility_line d)]
                      in if \<not> answer_text False (sa_schema q)
                         then (compatible @ [Inl (''  [FAIL] Schema '' @ quoted ''tide'' @ '' not found '' @ em_dash @ '' pg_tide extension is not installed'')], SelfExit)
                         else (case self_tls_check url (sa_tls q) of
                                 (tls, False) \<Rightarrow> (compatible @ Inl (''  [OK] Schema '' @ quoted ''tide'' @ '' exists'') # map Inl tls, SelfExit)
                               | (tls, True) \<Rightarrow>
                                   (let secured = compatible @ Inl (''  [OK] Schema '' @ quoted ''tide'' @ '' exists'') # map Inl tls
                                    in if \<not> answer_text False (sa_lock q)
                                       then (secured @ [Inl ''  [FAIL] Advisory lock acquisition failed''], SelfExit)
                                       else (secured
                                         @ [Inl ''  [OK] Advisory lock: acquire/release succeeded'',
                                            Inl (''  [OK] tide.relay_outbox_config: '' @ show_int (answer_text 0 (sa_pipelines q))
                                              @ '' pipeline(s) configured''),
                                            Inl (if answer_text False (sa_partition q)
                                                 then ''  [OK] Schema version: v0.25.0+ (partition_strategy column present)''
                                                 else ''  [WARN] Schema appears to be pre-v0.25.0 '' @ em_dash @ '' run ALTER EXTENSION pg_tide UPDATE''),
                                            Inl (CHR 0x0A # ''pg-tide self-test: PASS'')], SelfPass))))))"

section \<open>history\<close>

record history_row =
  hr_change_id :: int
  hr_pipeline :: string
  hr_type :: string
  hr_changed_at :: int
  hr_changed_by :: string
  hr_old :: "json option"
  hr_new :: "json option"

text \<open>The keys of the compact diff: changed or removed ones in the old order, then the added ones.\<close>

definition changed_keys :: "(string \<times> json) list \<Rightarrow> (string \<times> json) list \<Rightarrow> string list" where
  "changed_keys old new =
     map fst (filter (\<lambda>(k, v). map_of new k \<noteq> Some v) old) @ filter (\<lambda>k. \<not> has_key k old) (map fst new)"

definition diff_line :: "history_row \<Rightarrow> string list" where
  "diff_line r =
     (case (hr_new r, hr_old r) of
        (Some (JObj new), Some (JObj old)) \<Rightarrow>
          (case changed_keys old new of [] \<Rightarrow> [] | ks \<Rightarrow> [''  Changed keys: '' @ join_texts '', '' ks])
      | (Some _, None) \<Rightarrow> [''  [new pipeline]'']
      | _ \<Rightarrow> [])"

definition history_entry :: "(int \<Rightarrow> string) \<Rightarrow> history_row \<Rightarrow> json" where
  "history_entry show_time r =
     JObj [(''change_id'', JInt (hr_change_id r)), (''changed_at'', JStr (show_time (hr_changed_at r))),
           (''changed_by'', JStr (hr_changed_by r)), (''new_config'', unwrap_or (hr_new r) JNull),
           (''old_config'', unwrap_or (hr_old r) JNull), (''pipeline_name'', JStr (hr_pipeline r)),
           (''pipeline_type'', JStr (hr_type r))]"

text \<open>
  A failing query counts as no rows.  \<open>table_line\<close> prints the header (\<open>None\<close>) and the columns of a row.
\<close>

definition run_history ::
    "(int \<Rightarrow> string) \<Rightarrow> (history_row option \<Rightarrow> string list) \<Rightarrow> relay_error option \<Rightarrow> string \<Rightarrow> bool \<Rightarrow> pg_error + history_row list \<Rightarrow>
       string + (string list + json)" where
  "run_history show_time table_line conn pipeline json_output answer =
     (case conn of
        Some e \<Rightarrow> Inl (''connection failed: '' @ show_relay_error e)
      | None \<Rightarrow>
          (let rows = answer_text [] answer
           in Inr (if rows = []
                   then (if json_output then Inr (JArr [])
                         else Inl [''No config history found for pipeline '' @ quoted pipeline @ ''.''])
                   else if json_output then Inr (JArr (map (history_entry show_time) rows))
                   else Inl (table_line None @ concat (map (\<lambda>r. table_line (Some r) @ diff_line r) rows)))))"

section \<open>Lemmas\<close>

text \<open>A check whose query fails is passed over: a plaintext connection passes whatever the URL asks for.\<close>

lemma failed_tls_query_passes:
  assumes "sa_connect q = None" and "check_client (sa_version q) rv = Inr d" and "sa_schema q = Inr True"
    and "sa_tls q = Inl e" and "sa_lock q = Inr True"
  shows "snd (run_self_test rv js at_time url q) = SelfPass"
  using assms by (simp add: run_self_test_def answer_text_def self_tls_check_def)

lemma changed_keys_iff:
  assumes "distinct (map fst old)"
  shows "k \<in> set (changed_keys old new) \<longleftrightarrow> map_of old k \<noteq> map_of new k"
proof -
  have "k \<in> fst ` set (filter (\<lambda>(k, v). map_of new k \<noteq> Some v) old) \<longleftrightarrow> (\<exists>v. map_of old k = Some v \<and> map_of new k \<noteq> Some v)"
    using assms by (force simp: image_iff dest: map_of_SomeD map_of_is_SomeI)
  moreover have "k \<in> set (filter (\<lambda>k. \<not> has_key k old) (map fst new)) \<longleftrightarrow> map_of old k = None \<and> map_of new k \<noteq> None"
    by (auto simp: has_key_def map_of_eq_None_iff)
  ultimately show ?thesis by (auto simp: changed_keys_def)
qed

lemma validated_pipeline:
  assumes "run_validate_config conn fault env pe name db = Inr out"
  shows "\<exists>direction r. catalog_row name db = Some (direction, r)
    \<and> (\<exists>d. parse_document env name (rc_config r) = Inr d) \<and> is_ok (resolve_pipeline_secrets pe (rc_config r))"
proof -
  from assms obtain direction r where r: "catalog_row name db = Some (direction, r)"
    and valid: "report_valid (validate_pipelines env [\<lparr> pc_name = name, pc_direction = direction, pc_enabled = rc_enabled r,
      pc_config = rc_config r, pc_tenant = ''default'' \<rparr>])"
    and ok: "is_ok (resolve_pipeline_secrets pe (rc_config r))"
    by (auto simp: run_validate_config_def and_then_Inr_iff Let_def is_ok_iff split: prod.splits)
  from valid have "\<exists>d. parse_document env name (rc_config r) = Inr d"
    by (auto simp: report_valid_def validate_pipelines_def list_ex_iff pipeline_issues_def split: sum.splits)
  with r ok show ?thesis by blast
qed

section \<open>Properties\<close>


text \<open>
  C27: An export succeeds only when every selected row parses, and then each exported configuration
  parses to the document of its row again: importing an export changes no pipeline.
\<close>

theorem export_can_be_imported:
  assumes "run_export conn fault env pipeline db = Inr out"
  shows "\<exists>ps. out = JObj [(''pipelines'', JArr ps), (''schema_version'', JInt 1)]
    \<and> list_all2 (\<lambda>(name, direction, r) p. json_get p ''name'' = Some (JStr name) \<and> json_get p ''enabled'' = Some (JBool (rc_enabled r))
        \<and> (\<exists>d c. json_get p ''config'' = Some c \<and> parse_document env name (rc_config r) = Inr d \<and> parse_document env name c = Inr d))
      (export_rows pipeline db) ps"
proof -
  from assms obtain ps where ps: "map_result (export_entry env) (export_rows pipeline db) = Inr ps"
    and out: "out = JObj [(''pipelines'', JArr ps), (''schema_version'', JInt 1)]"
    by (auto simp: run_export_def and_then_Inr_iff)
  have "list_all2 (\<lambda>row p. export_entry env row = Inr p) (export_rows pipeline db) ps"
    using ps by (simp add: map_result_Inr_iff)
  then show ?thesis
    unfolding out
    by (intro exI [of _ ps] conjI refl) (erule list_all2_mono;
      force simp: export_entry_def and_then_Inr_iff dest: canonical_round_trip)
qed


definition hook_db :: tide_db where
  "hook_db = empty_db\<lparr>relay_configs := [(''p'', \<lparr> rc_enabled = True, rc_config = hook_document, rc_tenant = ''default'' \<rparr>)]\<rparr>"

lemma hook_export: "\<exists>out. run_export None None plain_env None hook_db = Inr out"
  by (simp add: run_export_def export_rows_def hook_db_def empty_db_def export_entry_def hook_document_parses)

theorem export_can_be_imported_witness:
  "\<exists>ps. run_export None None plain_env None hook_db = Inr (JObj [(''pipelines'', JArr ps), (''schema_version'', JInt 1)])
    \<and> length ps = 1"
proof -
  obtain out where out: "run_export None None plain_env None hook_db = Inr out" using hook_export by blast
  with export_can_be_imported [OF out] show ?thesis
    by (auto simp: export_rows_def hook_db_def empty_db_def dest: list_all2_lengthD)
qed

end
