(* ===== verification/Build_Sink.thy ===== *)
theory Build_Sink
  imports Worker
begin

text \<open>
  \<open>build_sink\<close> of \<open>pg-tide-relay/src/coordinator.rs\<close>: which sink a pipeline's configuration makes, with
  which options.  The build's features and the answers of brokers, databases, resolvers and the
  file system are a record of arguments.
\<close>

record sink_env =
  sk_features :: "string set"
  sk_open_file :: "string \<Rightarrow> string option"
  sk_catalog :: "string \<Rightarrow> string option"
  sk_catalog_error :: "pg_error option"
  sk_remote :: "string \<Rightarrow> relay_error option"
  sk_remote_catalog :: "string \<Rightarrow> string \<Rightarrow> string option"
  sk_remote_error :: "string \<Rightarrow> pg_error option"
  sk_nats_credentials :: bool
  sk_nats_connect :: "nats_connect_kind option"
  sk_kafka_create :: "kafka_code option"
  sk_parse_url :: url_parser
  sk_dns :: "string \<Rightarrow> nat \<Rightarrow> dns_answer"
  sk_http_client :: "string option"

datatype built_sink =
    BuiltStdout stdout_format
  | BuiltFile string stdout_format
  | BuiltInbox string string
  | BuiltRemoteInbox string
  | BuiltNats subject_spec
  | BuiltKafka kafka_sink
  | BuiltWebhook webhook_sink

text \<open>\<open>PgInboxSink::new\<close>: the name, the connection, then the table.\<close>

definition new_remote_inbox :: "sink_env \<Rightarrow> string \<Rightarrow> string \<Rightarrow> relay_error + built_sink" where
  "new_remote_inbox env url table =
     and_then (validate_relay_identifier table) (\<lambda>_.
     and_then (case sk_remote env url of
                 None \<Rightarrow> Inr ()
               | Some e \<Rightarrow> Inl (into_connector_failure ''postgresql-inbox'' e)) (\<lambda>_.
     and_then (remote_inbox_relation (sk_remote_error env url) (sk_remote_catalog env url) table) (\<lambda>rel.
       Inr (BuiltRemoteInbox rel))))"

definition sink_str :: "pipeline_config \<Rightarrow> string \<Rightarrow> string option" where
  "sink_str p k = opt_str p [''sink'', k]"

definition sink_flag :: "pipeline_config \<Rightarrow> string \<Rightarrow> bool \<Rightarrow> bool" where
  "sink_flag p k d = unwrap_or (opt_bool p [''sink'', k]) d"

definition need :: "pipeline_config \<Rightarrow> string \<Rightarrow> relay_error + string" where
  "need p k = require_str p [''sink'', k]"

definition build_stdout_sink :: "pipeline_config \<Rightarrow> relay_error + built_sink" where
  "build_stdout_sink p = Inr (BuiltStdout (format_of (sink_str p ''format'')))"

definition build_file_sink :: "sink_env \<Rightarrow> pipeline_config \<Rightarrow> relay_error + built_sink" where
  "build_file_sink env p =
     and_then (need p ''path'') (\<lambda>path.
     and_then (case sk_open_file env path of None \<Rightarrow> Inr () | Some e \<Rightarrow> Inl (Io e)) (\<lambda>_.
       Inr (BuiltFile path (format_of (sink_str p ''format'')))))"

definition build_inbox_sink :: "sink_env \<Rightarrow> pipeline_config \<Rightarrow> relay_error + built_sink" where
  "build_inbox_sink env p =
     and_then (need p ''inbox'') (\<lambda>inbox.
       case sink_str p ''postgres_url'' of
         Some url \<Rightarrow> new_remote_inbox env url inbox
       | None \<Rightarrow>
           and_then (resolve_inbox_relation (sk_catalog_error env) (sk_catalog env) inbox) (\<lambda>rel.
             Inr (BuiltInbox inbox rel)))"

definition build_pg_outbox_sink :: "sink_env \<Rightarrow> pipeline_config \<Rightarrow> relay_error + built_sink" where
  "build_pg_outbox_sink env p =
     and_then (need p ''postgres_url'') (\<lambda>url.
     and_then (need p ''inbox'') (\<lambda>inbox. new_remote_inbox env url inbox))"

definition build_nats_sink :: "sink_env \<Rightarrow> pipeline_config \<Rightarrow> relay_error + built_sink" where
  "build_nats_sink env p =
     and_then (need p ''url'') (\<lambda>url.
     and_then (nats_new (sk_nats_credentials env) (sk_nats_connect env)
        \<lparr> no_url = url, no_subject = sink_str p ''subject'', no_template = sink_str p ''subject_template'',
          no_allow_insecure = sink_flag p ''allow_insecure'' False, no_token = sink_str p ''token'',
          no_username = sink_str p ''username'', no_password = sink_str p ''password'',
          no_credentials_file = sink_str p ''credentials_file'', no_client_cert = sink_str p ''tls_client_cert'',
          no_client_key = sink_str p ''tls_client_key'' \<rparr>) (\<lambda>spec. Inr (BuiltNats spec)))"

definition build_kafka_sink :: "sink_env \<Rightarrow> pipeline_config \<Rightarrow> relay_error + built_sink" where
  "build_kafka_sink env p =
     and_then (need p ''brokers'') (\<lambda>brokers.
     let template = (case sink_str p ''topic_template'' of
                       Some t \<Rightarrow> t | None \<Rightarrow> unwrap_or (sink_str p ''topic'') ''{stream_table}'')
     in and_then (kafka_new (sk_kafka_create env) brokers template (unwrap_or (sink_str p ''security_protocol'') ''ssl'')
          (sink_flag p ''allow_insecure'' False)
          [(''ssl.ca.location'', sink_str p ''ssl_ca_location''),
           (''ssl.certificate.location'', sink_str p ''ssl_certificate_location''),
           (''ssl.key.location'', sink_str p ''ssl_key_location''),
           (''sasl.mechanism'', sink_str p ''sasl_mechanism''),
           (''sasl.username'', sink_str p ''sasl_username''),
           (''sasl.password'', sink_str p ''sasl_password'')]) (\<lambda>s. Inr (BuiltKafka s)))"

text \<open>\<open>timeout as u64\<close> of a negative number wraps to a huge one.\<close>

definition build_webhook_sink :: "sink_env \<Rightarrow> pipeline_config \<Rightarrow> relay_error + built_sink" where
  "build_webhook_sink env p =
     and_then (need p ''url'') (\<lambda>url.
     and_then (webhook_new (sk_parse_url env) (sk_dns env) (sk_http_client env) url
        (nat (unwrap_or (opt_i64 p [''sink'', ''timeout_secs'']) 30 mod 2 ^ 64))
        (sink_flag p ''allow_http'' False) (sink_flag p ''ssrf_protection'' True) (sink_str p ''signing_secret'')
        (unwrap_or (sink_str p ''signing_algorithm'') ''hmac-sha256'')) (\<lambda>s. Inr (BuiltWebhook s)))"

definition build_sink :: "sink_env \<Rightarrow> pipeline_config \<Rightarrow> relay_error + built_sink" where
  "build_sink env p =
     and_then (require_str p [''sink_type'']) (\<lambda>t.
     and_then (ok_or (sink_type_to_descriptor t) (InvalidConfig (pc_name p) (''unknown sink_type '' @ quoted t))) (\<lambda>d.
     and_then (ensure (is_available (sk_features env) d)
        (InvalidConfig (pc_name p) (''sink_type '' @ quoted t @ '' is not compiled in''))) (\<lambda>_.
       if t = ''stdout'' \<and> ''stdout'' \<in> sk_features env then build_stdout_sink p
       else if t = ''file'' \<and> ''stdout'' \<in> sk_features env then build_file_sink env p
       else if t = ''inbox'' then build_inbox_sink env p
       else if t = ''pg_outbox'' then build_pg_outbox_sink env p
       else if t = ''nats'' \<and> ''nats'' \<in> sk_features env then build_nats_sink env p
       else if t = ''kafka'' \<and> ''kafka'' \<in> sk_features env then build_kafka_sink env p
       else if t = ''webhook'' \<and> ''webhook'' \<in> sk_features env then build_webhook_sink env p
       else Inl (InvalidConfig (pc_name p) (''unknown or removed sink_type '' @ quoted t)))))"

section \<open>Lemmas\<close>

text \<open>What an accepted row says literally: normalising adds no sink type.\<close>

lemma raw_sink_type:
  assumes "parse_document env name (JObj m) = Inr d"
  shows "map_of m ''sink_type'' = Some (JStr (pd_sink_type d))" and "pd_sink_type d \<in> set v1_sink_types"
proof -
  from assms have d: "document_of (normalize m) = Some d" and v: "validate_with_mode env name True d = Inr ()"
    by (auto simp: parse_Inr)
  have "Option.bind (map_of (normalize m) ''sink_type'') as_str = Some (pd_sink_type d)"
    using d by (auto simp: document_of_def bind_eq_Some_conv split: if_splits)
  then have "Option.bind (map_of m ''sink_type'') as_str = Some (pd_sink_type d)" by (simp add: normalize_field)
  then show "map_of m ''sink_type'' = Some (JStr (pd_sink_type d))"
    by (auto simp: bind_eq_Some_conv elim: as_str.elims)
  show "pd_sink_type d \<in> set v1_sink_types" using validate_mode_Inr(5) [OF v] sink_type_iff by blast
qed

lemma build_sink_dispatch:
  assumes "require_str p [''sink_type''] = Inr t" and "sink_type_to_descriptor t = Some desc"
    and "is_available (sk_features env) desc"
  shows "build_sink env p =
     (if t = ''stdout'' \<and> ''stdout'' \<in> sk_features env then build_stdout_sink p
       else if t = ''file'' \<and> ''stdout'' \<in> sk_features env then build_file_sink env p
       else if t = ''inbox'' then build_inbox_sink env p
       else if t = ''pg_outbox'' then build_pg_outbox_sink env p
       else if t = ''nats'' \<and> ''nats'' \<in> sk_features env then build_nats_sink env p
       else if t = ''kafka'' \<and> ''kafka'' \<in> sk_features env then build_kafka_sink env p
       else if t = ''webhook'' \<and> ''webhook'' \<in> sk_features env then build_webhook_sink env p
       else Inl (InvalidConfig (pc_name p) (''unknown or removed sink_type '' @ quoted t)))"
  using assms by (simp add: build_sink_def ensure_def)

lemma need_missing:
  "pc_config p = JObj m \<Longrightarrow> map_of m ''sink'' = None \<Longrightarrow> need p k = Inl (MissingConfigKey (pc_name p) ''sink'')"
  by (simp add: need_def require_str_def)

lemma literal_sink:
  assumes "parse_document env name (JObj m) = Inr d" and "map_of m ''sink'' = Some (JObj s)"
  shows "pd_sink d = s"
proof -
  have "map_of (normalize m) ''sink'' = Some (JObj s)"
    using assms(2) by (simp add: normalize_def Let_def has_key_def)
  with assms(1) show ?thesis by (auto simp: parse_Inr document_of_def bind_eq_Some_conv split: if_splits)
qed

lemma sink_lookups:
  assumes "pc_config p = JObj m" and "map_of m ''sink'' = Some (JObj s)"
  shows "sink_str p k = Option.bind (map_of s k) as_str" and "sink_flag p k False = get_flag k s"
    and "map_of s k = Some (JStr t) \<Longrightarrow> need p k = Inr t"
  using assms
  by (auto simp: sink_str_def sink_flag_def need_def opt_str_def opt_bool_def get_flag_def require_str_def split: option.splits)

lemma kafka_sink_valid:
  assumes "validate_kafka_sink name s = Inr ()"
  defines "protocol \<equiv> unwrap_or (Option.bind (map_of s ''security_protocol'') as_str) ''ssl''"
  shows "\<exists>b. map_of s ''brokers'' = Some (JStr b)"
    and "protocol \<in> {''ssl'', ''sasl_ssl'', ''plaintext'', ''sasl_plaintext''}"
    and "protocol \<in> {''plaintext'', ''sasl_plaintext''} \<Longrightarrow> get_flag ''allow_insecure'' s"
    and "k \<in> {''topic'', ''topic_template''} \<Longrightarrow> map_of s k = Some v \<Longrightarrow> \<exists>t. v = JStr t \<and> \<not> is_blank t \<and> \<not> has_control t"
  using assms(1)
  by (auto simp: validate_kafka_sink_def Let_def protocol_def require_string_field_Inr_iff on_field_Inr_iff
      validate_destination_text_def string_of_def and_then_Inr_iff elim!: as_str.elims)

lemma plain_topic: "\<not> is_blank ''{stream_table}''" "\<not> has_control ''{stream_table}''"
  by (simp_all add: ws1_def ws2_def ws3_def ctl1_def ctl2_def byte_def)

lemma kafka_new_ok:
  assumes "protocol \<in> {''ssl'', ''sasl_ssl'', ''plaintext'', ''sasl_plaintext''}"
    and "protocol \<in> {''plaintext'', ''sasl_plaintext''} \<longrightarrow> allow" and "\<not> is_blank template" and "\<not> has_control template"
  shows "\<exists>k. kafka_new None brokers template protocol allow optional = Inr k"
  using assms by (auto simp: kafka_new_def ensure_def)

definition topic_of :: "pipeline_config \<Rightarrow> string" where
  "topic_of p = (case sink_str p ''topic_template'' of
                   Some t \<Rightarrow> t | None \<Rightarrow> unwrap_or (sink_str p ''topic'') ''{stream_table}'')"

lemma topic_of_cases:
  "sink_str p ''topic_template'' = Some (topic_of p) \<or> sink_str p ''topic'' = Some (topic_of p) \<or> topic_of p = ''{stream_table}''"
  by (cases "sink_str p ''topic_template''"; cases "sink_str p ''topic''") (simp_all add: topic_of_def)

lemma kafka_builds:
  assumes "pc_config p = JObj m" and "map_of m ''sink'' = Some (JObj s)" and "validate_kafka_sink name s = Inr ()"
    and "sk_kafka_create senv = None"
  shows "is_ok (build_kafka_sink senv p)"
proof -
  note look = sink_lookups [OF assms(1,2)]
  note valid = kafka_sink_valid [OF assms(3)]
  obtain b where b: "need p ''brokers'' = Inr b" using valid(1) look(3) by blast
  have shape: "\<not> is_blank t \<and> \<not> has_control t" if "sink_str p k = Some t" "k \<in> {''topic'', ''topic_template''}" for k t
    using that valid(4) [of k] by (auto simp: look(1) bind_eq_Some_conv)
  have topic: "\<not> is_blank (topic_of p)" "\<not> has_control (topic_of p)"
    using topic_of_cases [of p] shape [of "''topic''" "topic_of p"] shape [of "''topic_template''" "topic_of p"] plain_topic
    by (metis insertI1 insertI2)+
  have "unwrap_or (sink_str p ''security_protocol'') ''ssl'' \<in> {''plaintext'', ''sasl_plaintext''} \<longrightarrow> sink_flag p ''allow_insecure'' False"
    unfolding look(1,2) by (intro impI valid(3))
  moreover have "unwrap_or (sink_str p ''security_protocol'') ''ssl'' \<in> {''ssl'', ''sasl_ssl'', ''plaintext'', ''sasl_plaintext''}"
    unfolding look(1) by (rule valid(2))
  ultimately obtain k where "kafka_new None b (topic_of p) (unwrap_or (sink_str p ''security_protocol'') ''ssl'') (sink_flag p ''allow_insecure'' False)
      [(''ssl.ca.location'', sink_str p ''ssl_ca_location''), (''ssl.certificate.location'', sink_str p ''ssl_certificate_location''),
       (''ssl.key.location'', sink_str p ''ssl_key_location''), (''sasl.mechanism'', sink_str p ''sasl_mechanism''),
       (''sasl.username'', sink_str p ''sasl_username''), (''sasl.password'', sink_str p ''sasl_password'')] = Inr k"
    using kafka_new_ok topic by blast
  then show ?thesis by (simp only: build_kafka_sink_def b and_then.simps Let_def assms(4) is_ok.simps topic_of_def)
qed

lemma nats_field_keys:
  "field_key ''sink.token'' = ''token''" "field_key ''sink.password'' = ''password''"
  "field_key ''sink.username'' = ''username''" "field_key ''sink.credentials_file'' = ''credentials_file''"
  "field_key ''sink.tls_client_cert'' = ''tls_client_cert''" "field_key ''sink.tls_client_key'' = ''tls_client_key''"
  by code_simp+

lemma nats_checks:
  assumes "validate_nats_sink env name s = Inr ()"
  defines "scheme \<equiv> hd (split_on CHR '':'' (unwrap_or (Option.bind (map_of s ''url'') as_str) []))"
  shows "is_ok (require_string_field name ''sink.url'' s True)"
    and "scheme = ''tls'' \<or> (get_flag ''allow_insecure'' s \<and> scheme = ''nats'')"
    and "\<not> (has_key ''token'' s \<and> (has_key ''username'' s \<or> has_key ''password'' s \<or> has_key ''credentials_file'' s))"
    and "has_key ''username'' s = has_key ''password'' s"
    and "has_key ''tls_client_cert'' s = has_key ''tls_client_key'' s"
    and "optional_secret_reference_field name ''sink.token'' s = Inr ()"
    and "optional_secret_reference_field name ''sink.password'' s = Inr ()"
    and "optional_non_empty_string_field name ''sink.username'' s = Inr ()"
    and "optional_non_empty_string_field name ''sink.credentials_file'' s = Inr ()"
    and "optional_non_empty_string_field name ''sink.tls_client_cert'' s = Inr ()"
    and "optional_non_empty_string_field name ''sink.tls_client_key'' s = Inr ()"
    and "nats_subject_field env name s ''subject'' = Inr ()"
    and "nats_subject_field env name s ''subject_template'' = Inr ()"
  using assms(1) by (simp_all add: validate_nats_sink_def Let_def scheme_def discard_Inr_iff del: split_on.simps)

text \<open>A checked option that is present is a string.\<close>

lemma checked_is_text:
  "optional_secret_reference_field name field s = Inr () \<Longrightarrow> map_of s (field_key field) = Some v \<Longrightarrow> \<exists>t. v = JStr t"
  "optional_non_empty_string_field name field s = Inr () \<Longrightarrow> map_of s (field_key field) = Some v \<Longrightarrow> \<exists>t. v = JStr t"
  by (auto simp: optional_secret_reference_field_def optional_non_empty_string_field_def on_field_Inr_iff
      string_of_def and_then_Inr_iff elim!: as_str.elims)

lemma text_or_absent:
  "\<forall>v. map_of s k = Some v \<longrightarrow> (\<exists>t. v = JStr t) \<Longrightarrow> has_key k s \<longleftrightarrow> Option.bind (map_of s k) as_str \<noteq> None"
  by (cases "map_of s k") (auto simp: has_key_def)

lemma nats_options_present:
  assumes "validate_nats_sink env name s = Inr ()"
    and "k \<in> {''token'', ''password'', ''username'', ''credentials_file'', ''tls_client_cert'', ''tls_client_key''}"
  shows "Option.bind (map_of s k) as_str \<noteq> None \<longleftrightarrow> has_key k s"
proof -
  note c = nats_checks(6-11) [OF assms(1)]
  have "\<forall>v. map_of s k = Some v \<longrightarrow> (\<exists>t. v = JStr t)"
    using assms(2) checked_is_text(1) [OF c(1)] checked_is_text(1) [OF c(2)] checked_is_text(2) [OF c(3)]
      checked_is_text(2) [OF c(4)] checked_is_text(2) [OF c(5)] checked_is_text(2) [OF c(6)]
    unfolding nats_field_keys by blast
  then show ?thesis using text_or_absent by blast
qed

lemma checked_subject:
  assumes "nats_subject_field env name s k = Inr ()" and "''nats'' \<in> features env"
    and "Option.bind (map_of s k) as_str = Some t"
  shows "validate_subject t = Inr ()"
  using assms by (auto simp: nats_subject_field_def on_field_Inr_iff and_then_Inr_iff bind_eq_Some_conv)

lemma default_subject_valid: "validate_subject ''{outbox}.{op}'' = Inr ()"
  by code_simp

lemma chosen_subject_valid:
  assumes "\<And>t. a = Some t \<Longrightarrow> validate_subject t = Inr ()" and "\<And>t. b = Some t \<Longrightarrow> validate_subject t = Inr ()"
  shows "validate_spec (subject_from_config a b) = Inr ()"
  using assms default_subject_valid by (cases a; cases b) (auto simp: default_template_def)

lemma nats_new_ok:
  assumes "hd (split_on CHR '':'' (no_url o')) = ''tls'' \<or> (no_allow_insecure o' \<and> hd (split_on CHR '':'' (no_url o')) = ''nats'')"
    and "\<not> (no_token o' \<noteq> None \<and> (no_username o' \<noteq> None \<or> no_password o' \<noteq> None \<or> no_credentials_file o' \<noteq> None))"
    and "(no_username o' \<noteq> None) = (no_password o' \<noteq> None)" and "(no_client_cert o' \<noteq> None) = (no_client_key o' \<noteq> None)"
    and "validate_spec (subject_from_config (no_subject o') (no_template o')) = Inr ()"
  shows "\<exists>spec. nats_new True None o' = Inr spec"
  using assms by (auto simp: nats_new_def Let_def ensure_def simp del: split_on.simps subject_from_config.simps)

lemma nats_builds:
  assumes "pc_config p = JObj m" and "map_of m ''sink'' = Some (JObj s)" and "validate_nats_sink env name s = Inr ()"
    and "''nats'' \<in> features env" and "sk_nats_connect senv = None" and "sk_nats_credentials senv"
  shows "is_ok (build_nats_sink senv p)"
proof -
  note look = sink_lookups [OF assms(1,2)]
  note present = nats_options_present [OF assms(3)]
  note checked = nats_checks [OF assms(3)]
  obtain u where url: "map_of s ''url'' = Some (JStr u)"
    using checked(1) by (auto simp: require_string_field_ok)
  let ?o = "\<lparr> no_url = u, no_subject = sink_str p ''subject'', no_template = sink_str p ''subject_template'',
          no_allow_insecure = sink_flag p ''allow_insecure'' False, no_token = sink_str p ''token'',
          no_username = sink_str p ''username'', no_password = sink_str p ''password'',
          no_credentials_file = sink_str p ''credentials_file'', no_client_cert = sink_str p ''tls_client_cert'',
          no_client_key = sink_str p ''tls_client_key'' \<rparr>"
  have "validate_spec (subject_from_config (sink_str p ''subject'') (sink_str p ''subject_template'')) = Inr ()"
    unfolding look(1)
    by (intro chosen_subject_valid checked_subject [OF checked(12) assms(4)] checked_subject [OF checked(13) assms(4)])
  moreover have "sink_str p ''token'' \<noteq> None \<longleftrightarrow> has_key ''token'' s" "sink_str p ''username'' \<noteq> None \<longleftrightarrow> has_key ''username'' s"
    "sink_str p ''password'' \<noteq> None \<longleftrightarrow> has_key ''password'' s"
    "sink_str p ''credentials_file'' \<noteq> None \<longleftrightarrow> has_key ''credentials_file'' s"
    "sink_str p ''tls_client_cert'' \<noteq> None \<longleftrightarrow> has_key ''tls_client_cert'' s"
    "sink_str p ''tls_client_key'' \<noteq> None \<longleftrightarrow> has_key ''tls_client_key'' s"
    unfolding look(1) by (rule present, simp)+
  moreover have "hd (split_on CHR '':'' u) = ''tls'' \<or> (sink_flag p ''allow_insecure'' False \<and> hd (split_on CHR '':'' u) = ''nats'')"
    using checked(2) url by (simp add: look(2) del: split_on.simps)
  ultimately have "\<exists>spec. nats_new True None ?o = Inr spec"
    using checked(3-5) by (intro nats_new_ok) (simp_all only: nats_options.select_convs not_False_eq_True)
  then obtain spec where "nats_new True None ?o = Inr spec" by blast
  then show ?thesis using look(3) [OF url] assms(5,6) by (simp add: build_nats_sink_def)
qed

section \<open>Properties\<close>



section \<open>Concrete rows\<close>

definition kafka_env :: schema_env where
  "kafka_env = \<lparr> features = {''kafka''}, url_scheme = (\<lambda>_. None), serde_text = (\<lambda>_. []) \<rparr>"

definition quiet_env :: sink_env where
  "quiet_env =
     \<lparr> sk_features = {''kafka''}, sk_open_file = (\<lambda>_. None), sk_catalog = (\<lambda>_. Some ''tide''), sk_catalog_error = None,
       sk_remote = (\<lambda>_. None), sk_remote_catalog = (\<lambda>_ _. None), sk_remote_error = (\<lambda>_. None),
       sk_nats_credentials = True, sk_nats_connect = None, sk_kafka_create = None,
       sk_parse_url = (\<lambda>_. Inl []), sk_dns = (\<lambda>_ _. DnsTimedOut), sk_http_client = None \<rparr>"

definition row_of :: "(string \<times> json) list \<Rightarrow> pipeline_config" where
  "row_of m = \<lparr> pc_name = ''p'', pc_direction = Forward, pc_enabled = True, pc_config = JObj m, pc_tenant = ''default'' \<rparr>"

definition kafka_row :: "(string \<times> json) list" where
  "kafka_row =
     [(''sink'', JObj [(''brokers'', JStr ''b:9092'')]), (''sink_type'', JStr ''kafka''),
      (''source'', JObj [(''outbox'', JStr ''orders'')]), (''source_type'', JStr ''outbox'')]"

definition legacy_row :: "(string \<times> json) list" where
  "legacy_row =
     [(''config'', JObj [(''inbox'', JStr ''copies'')]), (''sink_type'', JStr ''inbox''),
      (''source'', JObj [(''outbox'', JStr ''orders'')]), (''source_type'', JStr ''outbox'')]"

definition plain_document :: "string \<Rightarrow> (string \<times> json) list \<Rightarrow> pipeline_document" where
  "plain_document t s =
     \<lparr> pd_schema_version = 1, pd_source_type = ''outbox'', pd_source = [(''outbox'', JStr ''orders'')], pd_sink_type = t,
       pd_sink = s, pd_batch_size = None, pd_retry = None, pd_dlq = None, pd_wire_format = None \<rparr>"

lemma plain_document_valid:
  assumes "t \<in> set v1_sink_types" and "\<not> is_blank t" and "validate_connector_fields ''p'' ''sink'' t s = Inr ()"
    and "validate_supported_sink env ''p'' t s = Inr ()" and "validate_secret_references ''p'' (JObj s) = Inr ()"
  shows "validate_with_mode env ''p'' True (plain_document t s) = Inr ()"
  using assms hook_source_valid hook_references_valid(1) hook_types_not_blank(1)
  by (simp add: validate_with_mode_def checks_Inr_iff plain_document_def pipeline_schema_version_def source_type_iff sink_type_iff
    validate_batch_size_def validate_retry_def validate_dlq_def validate_wire_format_def connector_fields_iff descriptor_of_def
    source_descriptor_cases outbox_connector_def del: is_blank.simps validate_secret_references.simps split: option.split)

lemma row_documents:
  "document_of (normalize kafka_row) = Some (plain_document ''kafka'' [(''brokers'', JStr ''b:9092'')])"
  "document_of (normalize legacy_row) = Some (plain_document ''inbox'' [(''inbox'', JStr ''copies'')])"
  by code_simp+

lemma row_references:
  "validate_secret_references ''p'' (JObj [(''brokers'', JStr ''b:9092'')]) = Inr ()"
  "validate_secret_references ''p'' (JObj [(''inbox'', JStr ''copies'')]) = Inr ()"
  by code_simp+

lemma row_fields:
  "validate_connector_fields ''p'' ''sink'' ''kafka'' [(''brokers'', JStr ''b:9092'')] = Inr ()"
  "validate_connector_fields ''p'' ''sink'' ''inbox'' [(''inbox'', JStr ''copies'')] = Inr ()"
  by (simp_all add: connector_fields_iff descriptor_of_def sink_descriptor_cases source_descriptor_cases kafka_connector_def
      inbox_connector_def)

lemma row_not_blank: "\<not> is_blank ''kafka''" "\<not> is_blank ''inbox''" "\<not> is_blank ''b:9092''" "\<not> is_blank ''copies''"
  by code_simp+

lemma kafka_optional_keys:
  "field_key ''sink.allow_insecure'' = ''allow_insecure''" "field_key ''sink.ssl_ca_location'' = ''ssl_ca_location''"
  "field_key ''sink.ssl_certificate_location'' = ''ssl_certificate_location''"
  "field_key ''sink.ssl_key_location'' = ''ssl_key_location''" "field_key ''sink.sasl_username'' = ''sasl_username''"
  by code_simp+

lemma row_sinks:
  "validate_supported_sink kafka_env ''p'' ''kafka'' [(''brokers'', JStr ''b:9092'')] = Inr ()"
  "validate_supported_sink kafka_env ''p'' ''inbox'' [(''inbox'', JStr ''copies'')] = Inr ()"
  using row_not_blank
  by (simp_all add: validate_supported_sink_def is_supported_sink_type_def v1_sink_types_def validate_kafka_sink_def
    require_string_field_def string_of_def optional_bool_field_def optional_secret_reference_field_def on_field_def checks_Inr_iff
    optional_non_empty_string_field_def kafka_optional_keys both_def has_key_def del: is_blank.simps)

lemma kafka_row_parses: "parse_document kafka_env ''p'' (JObj kafka_row) = Inr (plain_document ''kafka'' [(''brokers'', JStr ''b:9092'')])"
  using row_documents(1) plain_document_valid [OF _ row_not_blank(1) row_fields(1) row_sinks(1) row_references(1)]
  by (simp add: parse_Inr v1_sink_types_def)

lemma legacy_row_accepted: "report_valid (validate_pipelines kafka_env [row_of legacy_row])"
proof -
  have "parse_document kafka_env ''p'' (JObj legacy_row) = Inr (plain_document ''inbox'' [(''inbox'', JStr ''copies'')])"
    using row_documents(2) plain_document_valid [OF _ row_not_blank(2) row_fields(2) row_sinks(2) row_references(2)]
    by (simp add: parse_Inr v1_sink_types_def)
  then show ?thesis
    by (simp add: report_valid_iff validate_pipeline_def row_of_def plain_document_def sink_descriptor_cases is_available_def
      inbox_connector_def)
qed



end
