(* ===== verification/Process_Config.thy ===== *)
theory Process_Config
  imports Secrets
begin

text \<open>
  The settings of the relay process (\<open>pg-tide-relay/src/config/mod.rs\<close>, \<open>cli.rs\<close>, \<open>main.rs\<close>): the
  defaults, the TOML file, the overlay of the command line, the connection URL each command ends
  up with, and the checks before the daemon starts.  The TOML syntax and clap are third-party:
  the parsed table of the file and the values clap hands over are arguments.
\<close>

section \<open>Settings\<close>

datatype log_format = LogText | LogJson
datatype config_mode = TomlAllowed | CatalogOnly

record relay_process =
  pr_url :: string
  pr_metrics_addr :: string
  pr_log_format :: log_format
  pr_log_level :: string
  pr_discovery_interval :: int
  pr_batch_size :: int
  pr_group :: string
  pr_max_inflight :: int
  pr_max_owned :: int
  pr_max_connections :: int
  pr_tenant :: "string option"
  pr_config_mode :: config_mode
  pr_sweep_interval :: int

definition default_process :: relay_process where
  "default_process =
     \<lparr> pr_url = [], pr_metrics_addr = ''0.0.0.0:9090'', pr_log_format = LogText, pr_log_level = ''info'',
       pr_discovery_interval = 30, pr_batch_size = 100, pr_group = ''default'', pr_max_inflight = 1000,
       pr_max_owned = 50, pr_max_connections = 52, pr_tenant = None, pr_config_mode = TomlAllowed,
       pr_sweep_interval = 24 \<rparr>"

section \<open>The file\<close>

text \<open>
  The fields serde reads from the table of the file: an absent key takes the default, a value of
  another type and a key that is not a field are refused.  Integers of TOML are 64 bits wide.
\<close>

definition process_fields :: "string list" where
  "process_fields =
     [''postgres_url'', ''metrics_addr'', ''log_format'', ''log_level'', ''discovery_interval_secs'',
      ''default_batch_size'', ''relay_group_id'', ''sink_max_inflight'', ''max_owned_pipelines'',
      ''max_connections'', ''tenant_id'', ''config_mode'', ''sweep_interval_hours'']"

fun as_log_format :: "json \<Rightarrow> log_format option" where
  "as_log_format (JStr s) = (if s = ''text'' then Some LogText else if s = ''json'' then Some LogJson else None)"
| "as_log_format _ = None"

fun as_config_mode :: "json \<Rightarrow> config_mode option" where
  "as_config_mode (JStr s) =
     (if s = ''toml_allowed'' then Some TomlAllowed else if s = ''catalog_only'' then Some CatalogOnly else None)"
| "as_config_mode _ = None"

definition toml_field :: "(string \<times> json) list \<Rightarrow> string \<Rightarrow> (json \<Rightarrow> 'a option) \<Rightarrow> 'a \<Rightarrow> string + 'a" where
  "toml_field t k f d = (case map_of t k of None \<Rightarrow> Inr d | Some v \<Rightarrow> ok_or (f v) k)"

text \<open>The error names the key that is at fault.\<close>

definition process_of_table :: "(string \<times> json) list \<Rightarrow> string + relay_process" where
  "process_of_table t =
     (case List.find (\<lambda>k. k \<notin> set process_fields) (map fst t) of
        Some k \<Rightarrow> Inl k
      | None \<Rightarrow>
          and_then (toml_field t ''postgres_url'' as_str (pr_url default_process)) (\<lambda>url.
          and_then (toml_field t ''metrics_addr'' as_str (pr_metrics_addr default_process)) (\<lambda>addr.
          and_then (toml_field t ''log_format'' as_log_format (pr_log_format default_process)) (\<lambda>fmt.
          and_then (toml_field t ''log_level'' as_str (pr_log_level default_process)) (\<lambda>level.
          and_then (toml_field t ''discovery_interval_secs'' as_u64 (pr_discovery_interval default_process)) (\<lambda>interval.
          and_then (toml_field t ''default_batch_size'' as_i64 (pr_batch_size default_process)) (\<lambda>batch.
          and_then (toml_field t ''relay_group_id'' as_str (pr_group default_process)) (\<lambda>grp.
          and_then (toml_field t ''sink_max_inflight'' as_u64 (pr_max_inflight default_process)) (\<lambda>inflight.
          and_then (toml_field t ''max_owned_pipelines'' as_u64 (pr_max_owned default_process)) (\<lambda>owned.
          and_then (toml_field t ''max_connections'' as_u64 (pr_max_connections default_process)) (\<lambda>conns.
          and_then (toml_field t ''tenant_id'' (map_option Some \<circ> as_str) (pr_tenant default_process)) (\<lambda>tenant.
          and_then (toml_field t ''config_mode'' as_config_mode (pr_config_mode default_process)) (\<lambda>mode.
          and_then (toml_field t ''sweep_interval_hours'' as_u64 (pr_sweep_interval default_process)) (\<lambda>sweep.
            Inr \<lparr> pr_url = url, pr_metrics_addr = addr, pr_log_format = fmt, pr_log_level = level,
                  pr_discovery_interval = interval, pr_batch_size = batch, pr_group = grp,
                  pr_max_inflight = inflight, pr_max_owned = owned, pr_max_connections = conns,
                  pr_tenant = tenant, pr_config_mode = mode, pr_sweep_interval = sweep \<rparr>))))))))))))))"

text \<open>\<open>toml\<close>: the table of a text, or the error of the parser; \<open>reject\<close>: serde's text for a key.\<close>

definition from_toml ::
    "(string \<Rightarrow> string + (string \<times> json) list) \<Rightarrow> (string \<Rightarrow> string) \<Rightarrow> string \<Rightarrow> relay_error + relay_process" where
  "from_toml toml reject input =
     map_err Toml (and_then (toml input) (\<lambda>t. map_err reject (process_of_table t)))"

section \<open>The overlay\<close>

record process_overlay =
  ov_url :: "string option"
  ov_metrics_addr :: "string option"
  ov_log_format :: "log_format option"
  ov_log_level :: "string option"
  ov_discovery_interval :: "int option"
  ov_batch_size :: "int option"
  ov_group :: "string option"
  ov_max_inflight :: "int option"
  ov_max_owned :: "int option"
  ov_max_connections :: "int option"
  ov_tenant :: "string option option"
  ov_sweep_interval :: "int option"

definition no_overlay :: process_overlay where
  "no_overlay =
     \<lparr> ov_url = None, ov_metrics_addr = None, ov_log_format = None, ov_log_level = None,
       ov_discovery_interval = None, ov_batch_size = None, ov_group = None, ov_max_inflight = None,
       ov_max_owned = None, ov_max_connections = None, ov_tenant = None, ov_sweep_interval = None \<rparr>"

definition overlay :: "relay_process \<Rightarrow> process_overlay \<Rightarrow> relay_process" where
  "overlay p v =
     \<lparr> pr_url = unwrap_or (ov_url v) (pr_url p),
       pr_metrics_addr = unwrap_or (ov_metrics_addr v) (pr_metrics_addr p),
       pr_log_format = unwrap_or (ov_log_format v) (pr_log_format p),
       pr_log_level = unwrap_or (ov_log_level v) (pr_log_level p),
       pr_discovery_interval = unwrap_or (ov_discovery_interval v) (pr_discovery_interval p),
       pr_batch_size = unwrap_or (ov_batch_size v) (pr_batch_size p),
       pr_group = unwrap_or (ov_group v) (pr_group p),
       pr_max_inflight = unwrap_or (ov_max_inflight v) (pr_max_inflight p),
       pr_max_owned = unwrap_or (ov_max_owned v) (pr_max_owned p),
       pr_max_connections = unwrap_or (ov_max_connections v) (pr_max_connections p),
       pr_tenant = unwrap_or (ov_tenant v) (pr_tenant p),
       pr_config_mode = pr_config_mode p,
       pr_sweep_interval = unwrap_or (ov_sweep_interval v) (pr_sweep_interval p) \<rparr>"

definition validate_process :: "relay_process \<Rightarrow> relay_error + unit" where
  "validate_process p =
     (if is_blank (pr_url p) then Inl (Config ''postgres_url is required'')
      else if pr_discovery_interval p = 0 \<or> pr_batch_size p \<le> 0 \<or> pr_max_owned p = 0
           \<or> pr_max_connections p = 0 \<or> pr_sweep_interval p = 0
      then Inl (Config ''process intervals, batch size, pipeline, and connection limits must be greater than zero'')
      else validate_relay_identifier (pr_group p))"

section \<open>The command line\<close>

definition validate_postgres_url_scheme :: "string \<Rightarrow> string + string" where
  "validate_postgres_url_scheme v =
     (if starts_with ''postgres://'' v \<or> starts_with ''postgresql://'' v then Inr v
      else Inl (''connection URL must begin with '' @ quoted ''postgres://'' @ '' or '' @ quoted ''postgresql://''
             @ ''; got '' @ quoted v))"

definition validate_tenant_id_str :: "string \<Rightarrow> string + string" where
  "validate_tenant_id_str v =
     (if v = [] then Inl ''tenant-id must not be empty''
      else if 63 < length v
      then Inl (''tenant-id must not exceed 63 bytes (got '' @ show_nat (length v) @ '' bytes)'')
      else if CHR 0x00 \<in> set v \<or> CHR 0x22 \<in> set v \<or> CHR '';'' \<in> set v
      then Inl (''tenant-id contains disallowed characters (NUL, '' @ quoted [CHR 0x22] @ '', or '' @ quoted '';''
             @ ''): '' @ quoted v)
      else Inr v)"

text \<open>
  The value clap hands over for an argument with an environment variable: the flag, else the
  variable, each through the argument's parser.
\<close>

definition clap_value :: "(string \<Rightarrow> string + 'a) \<Rightarrow> string option \<Rightarrow> string option \<Rightarrow> string + 'a option" where
  "clap_value parser flag var =
     (case (case flag of None \<Rightarrow> var | Some _ \<Rightarrow> flag) of
        None \<Rightarrow> Inr None
      | Some v \<Rightarrow> and_then (parser v) (\<lambda>a. Inr (Some a)))"

record cli_values =
  cv_url :: "string option"
  cv_url_file :: "string option"
  cv_metrics_addr :: "string option"
  cv_log_format :: "string option"
  cv_log_level :: "string option"
  cv_group :: "string option"
  cv_config :: "string option"
  cv_max_pipelines :: "int option"
  cv_max_connections :: "int option"
  cv_tenant :: "string option"
  cv_sweep_interval :: "int option"

definition cli_overlay :: "cli_values \<Rightarrow> process_overlay" where
  "cli_overlay c =
     no_overlay\<lparr> ov_url := cv_url c, ov_metrics_addr := cv_metrics_addr c,
       ov_log_format := map_option (\<lambda>f. if f = ''json'' then LogJson else LogText) (cv_log_format c),
       ov_log_level := cv_log_level c, ov_group := cv_group c, ov_max_owned := cv_max_pipelines c,
       ov_max_connections := cv_max_connections c, ov_tenant := map_option Some (cv_tenant c),
       ov_sweep_interval := cv_sweep_interval c \<rparr>"

text \<open>\<open>str::trim\<close>.\<close>

fun trim_start :: "string \<Rightarrow> string" where
  "trim_start [] = []"
| "trim_start [a] = (if ws1 a then [] else [a])"
| "trim_start [a, b] = (if ws1 a then trim_start [b] else if ws2 a b then [] else [a, b])"
| "trim_start (a # b # c # r) =
     (if ws1 a then trim_start (b # c # r) else if ws2 a b then trim_start (c # r)
      else if ws3 a b c then trim_start r else a # b # c # r)"

fun trim_end :: "string \<Rightarrow> string" where
  "trim_end [] = []"
| "trim_end (c # cs) = (if is_blank (c # cs) then [] else c # trim_end cs)"

definition trim_str :: "string \<Rightarrow> string" where
  "trim_str s = trim_end (trim_start s)"

text \<open>What the start reads: the two files as text, the TOML parser, the environment.\<close>

record start_env =
  st_read :: "string \<Rightarrow> string + string"
  st_toml :: "string \<Rightarrow> string + (string \<times> json) list"
  st_reject :: "string \<Rightarrow> string"
  st_process :: process_env

definition file_process :: "start_env \<Rightarrow> cli_values \<Rightarrow> string + relay_process" where
  "file_process env c =
     (case cv_config c of
        None \<Rightarrow> Inr default_process
      | Some path \<Rightarrow>
          and_then (st_read env path) (\<lambda>content.
          and_then (st_toml env content) (\<lambda>t. map_err (st_reject env) (process_of_table t))))"

definition with_url_file :: "start_env \<Rightarrow> cli_values \<Rightarrow> relay_process \<Rightarrow> string + relay_process" where
  "with_url_file env c p =
     (case cv_url_file c of
        None \<Rightarrow> Inr p
      | Some path \<Rightarrow>
          and_then (map_err (\<lambda>e. ''failed to read --postgres-url-file '' @ path @ '': '' @ e) (st_read env path))
            (\<lambda>url. Inr (p\<lparr>pr_url := trim_str url\<rparr>)))"

text \<open>The settings \<open>main\<close> has before it dispatches the command, or the text of the error it ends with.\<close>

definition load_process :: "start_env \<Rightarrow> cli_values \<Rightarrow> string + relay_process" where
  "load_process env c =
     and_then (file_process env c) (\<lambda>p.
     and_then (with_url_file env c (overlay p (cli_overlay c))) (\<lambda>q.
       Inr (q\<lparr>pr_url := expand_env_vars (st_process env) (pr_url q)\<rparr>)))"

text \<open>
  The URL of a diagnostic command: its own argument (flag or variable, with the scheme check),
  then the variable again, then the settings.  The replay commands have no scheme check.
\<close>

definition command_url :: "(string \<Rightarrow> string + string) \<Rightarrow> string option \<Rightarrow> string option \<Rightarrow> relay_process \<Rightarrow> string + string" where
  "command_url parser flag var p =
     and_then (clap_value parser flag var) (\<lambda>own.
       Inr (case own of Some u \<Rightarrow> u | None \<Rightarrow> (case var of Some u \<Rightarrow> u | None \<Rightarrow> pr_url p)))"

definition require_postgres_url :: "string \<Rightarrow> string \<Rightarrow> string + unit" where
  "require_postgres_url url for_cmd =
     ensure (url \<noteq> []) (''--postgres-url (or $PG_TIDE_POSTGRES_URL) is required for `'' @ for_cmd @ ''`'')"

text \<open>The part of the daemon's start before it opens PostgreSQL: the URL it will use.\<close>

definition daemon_url :: "start_env \<Rightarrow> cli_values \<Rightarrow> string + string" where
  "daemon_url env c =
     and_then (load_process env c) (\<lambda>p.
     and_then (require_postgres_url (pr_url p) ''relay daemon'') (\<lambda>_.
     and_then (map_err show_relay_error (validate_process p)) (\<lambda>_.
       Inr (pr_url p))))"

section \<open>Lemmas\<close>

lemma unwrap_or_idem: "unwrap_or x (unwrap_or x d) = unwrap_or x d"
  by (cases x) auto

lemma overlay_nothing [simp]: "overlay p no_overlay = p"
  by (simp add: overlay_def no_overlay_def)

lemma overlay_twice: "overlay (overlay p v) v = overlay p v"
  by (simp add: overlay_def unwrap_or_idem)

lemma cli_never_sets_poll_settings:
  "pr_discovery_interval (overlay p (cli_overlay c)) = pr_discovery_interval p"
  "pr_batch_size (overlay p (cli_overlay c)) = pr_batch_size p"
  "pr_max_inflight (overlay p (cli_overlay c)) = pr_max_inflight p"
  by (simp_all add: overlay_def cli_overlay_def no_overlay_def)

text \<open>The defaults lack nothing but the URL.\<close>

lemma default_needs_only_url: "validate_process (default_process\<lparr>pr_url := u\<rparr>) = Inr () \<longleftrightarrow> \<not> is_blank u"
  by (simp add: validate_process_def default_process_def validate_relay_identifier_def bad_ident_char_def)

lemma valid_process:
  assumes "validate_process p = Inr ()"
  shows "pr_url p \<noteq> []" and "0 < pr_batch_size p" and "ident_ok (pr_group p)"
    and "pr_max_owned p \<noteq> 0" and "pr_discovery_interval p \<noteq> 0"
  using assms by (auto simp: validate_process_def validate_relay_identifier_iff split: if_splits)

text \<open>The file cannot define pipelines, whatever the configuration mode says.\<close>

lemma toml_pipelines_refused:
  assumes "(''pipeline'', v) \<in> set t"
  shows "\<exists>k. process_of_table t = Inl k"
proof -
  have "\<exists>k. List.find (\<lambda>k. k \<notin> set process_fields) (map fst t) = Some k"
  proof (rule ccontr)
    assume "\<not> ?thesis"
    then have "List.find (\<lambda>k. k \<notin> set process_fields) (map fst t) = None" by auto
    moreover have "''pipeline'' \<in> set (map fst t)" using assms by force
    ultimately have "''pipeline'' \<in> set process_fields" by (auto simp: find_None_iff)
    then show False by (simp add: process_fields_def)
  qed
  then show ?thesis by (auto simp: process_of_table_def)
qed

text \<open>The check of the tenant flag is the check of identifiers and of the semicolon.\<close>

lemma validate_tenant_id_iff: "validate_tenant_id_str v = Inr w \<longleftrightarrow> w = v \<and> ident_ok v \<and> CHR '';'' \<notin> set v"
  by (auto simp: validate_tenant_id_str_def ident_ok_def bad_ident_char_def)

text \<open>A tenant of the file is not checked at all.\<close>

lemma file_tenant_unchecked:
  "validate_process (p\<lparr>pr_tenant := t\<rparr>) = validate_process p"
  by (simp add: validate_process_def)

lemma load_process_url:
  assumes "load_process env c = Inr p"
  shows "\<exists>u. pr_url p = expand_env_vars (st_process env) u
    \<and> (case cv_url_file c of
         Some path \<Rightarrow> \<exists>text. st_read env path = Inr text \<and> u = trim_str text
       | None \<Rightarrow> (\<forall>v. cv_url c = Some v \<longrightarrow> u = v) \<and> (cv_url c = None \<and> cv_config c = None \<longrightarrow> u = []))"
proof -
  from assms obtain p0 p2 where p0: "file_process env c = Inr p0"
    and p2: "with_url_file env c (overlay p0 (cli_overlay c)) = Inr p2"
    and p: "p = p2\<lparr>pr_url := expand_env_vars (st_process env) (pr_url p2)\<rparr>"
    by (auto simp: load_process_def and_then_Inr_iff)
  have flag: "pr_url (overlay p0 (cli_overlay c)) = unwrap_or (cv_url c) (pr_url p0)"
    by (simp add: overlay_def cli_overlay_def no_overlay_def)
  show ?thesis
  proof (cases "cv_url_file c")
    case None
    with p2 have "p2 = overlay p0 (cli_overlay c)" by (simp add: with_url_file_def)
    moreover have "cv_config c = None \<longrightarrow> pr_url p0 = []"
      using p0 by (auto simp: file_process_def default_process_def)
    ultimately show ?thesis using p flag None
      by (intro exI [of _ "unwrap_or (cv_url c) (pr_url p0)"]) auto
  next
    case (Some path)
    with p2 p show ?thesis by (auto simp: with_url_file_def and_then_Inr_iff)
  qed
qed

lemma daemon_url_cases:
  "daemon_url env c = Inr used \<longleftrightarrow>
     (\<exists>p. load_process env c = Inr p \<and> used = pr_url p \<and> validate_process p = Inr ())"
  by (auto simp: daemon_url_def and_then_Inr_iff require_postgres_url_def dest: valid_process(1))

section \<open>Properties\<close>

text \<open>
  With a URL file the daemon connects to the URL in the file, whatever flag and variable say.
  A diagnostic command started the same way, while the variable \<open>PG_TIDE_POSTGRES_URL\<close> is set,
  connects to the variable's URL: neither the file nor an explicit global flag has an effect on it.
\<close>

lemma diagnostics_follow_variable_not_file:
  assumes "cv_url_file c = Some path" and "daemon_url env c = Inr used"
    and "validate_postgres_url_scheme e = Inr e"
  shows "(\<exists>text. st_read env path = Inr text \<and> used = expand_env_vars (st_process env) (trim_str text))
    \<and> (\<forall>p. command_url validate_postgres_url_scheme None (Some e) p = Inr e)"
proof -
  from assms(2) obtain p where "load_process env c = Inr p" "used = pr_url p"
    by (auto simp: daemon_url_cases)
  with load_process_url [of env c p] assms(1)
  have "\<exists>text. st_read env path = Inr text \<and> used = expand_env_vars (st_process env) (trim_str text)" by auto
  with assms(3) show ?thesis by (simp add: command_url_def clap_value_def)
qed

definition demo_values :: cli_values where
  "demo_values =
     \<lparr> cv_url = Some ''postgres://stage/app'', cv_url_file = Some ''/run/url'', cv_metrics_addr = None,
       cv_log_format = None, cv_log_level = None, cv_group = None, cv_config = None, cv_max_pipelines = None,
       cv_max_connections = None, cv_tenant = None, cv_sweep_interval = None \<rparr>"

definition demo_start_env :: start_env where
  "demo_start_env =
     \<lparr> st_read = (\<lambda>_. Inr (''postgres://prod/app'' @ [CHR 0x0A])), st_toml = (\<lambda>_. Inr []), st_reject = (\<lambda>k. k),
       st_process = \<lparr> env_var = (\<lambda>_. None), open_file = (\<lambda>_. Inl []), effective_uid = 0 \<rparr> \<rparr>"

lemma demo_daemon_url: "daemon_url demo_start_env demo_values = Inr ''postgres://prod/app''"
  by code_simp

lemma diagnostics_follow_variable_not_file_example:
  "daemon_url demo_start_env demo_values = Inr ''postgres://prod/app''
   \<and> command_url validate_postgres_url_scheme None (Some ''postgres://stage/app'') default_process
       = Inr ''postgres://stage/app''"
  using diagnostics_follow_variable_not_file [of demo_values "''/run/url''" demo_start_env "''postgres://prod/app''" "''postgres://stage/app''"]
    demo_daemon_url
  by (simp add: demo_values_def validate_postgres_url_scheme_def starts_with_def)

end
