(* ===== verification/Encryption.thy ===== *)
theory Encryption
  imports Secrets Process_Config
begin

text \<open>
  \<open>pg-tide-relay/src/encryption.rs\<close>: envelopes sealed with a key kept in a local file, and their
  opening with the current key or the one before it.  AES-GCM, SHA-256, base64 and hex are
  third-party: they are a record of functions, and so is the random nonce.
\<close>

record crypto =
  cr_unhex :: "string \<Rightarrow> string + string"
  cr_hex :: "string \<Rightarrow> string"
  cr_sha256 :: "string \<Rightarrow> string"
  cr_b64 :: "string \<Rightarrow> string"
  cr_unb64 :: "string \<Rightarrow> string + string"
  cr_init :: "string \<Rightarrow> string option"
  cr_seal :: "string \<Rightarrow> string \<Rightarrow> string \<Rightarrow> string option"
  cr_open :: "string \<Rightarrow> string \<Rightarrow> string \<Rightarrow> string option"

record encrypted_payload =
  ep_version :: nat
  ep_kms :: string
  ep_kid :: string
  ep_alg :: string
  ep_iv :: string
  ep_edek :: string
  ep_ct :: string

record local_key_file =
  kf_path :: string
  kf_previous :: "string option"

definition key_error :: "string \<Rightarrow> relay_error" where
  "key_error t = Config (''LocalKeyFile: '' @ t)"

section \<open>Keys\<close>

definition read_key :: "process_env \<Rightarrow> crypto \<Rightarrow> string \<Rightarrow> relay_error + string" where
  "read_key pe c path =
     and_then (load_file pe path) (\<lambda>content.
     let encoded = trim_str content in
     and_then (ensure (length encoded = 64) (key_error (quoted path @ '' must contain exactly 64 hex characters''))) (\<lambda>_.
     and_then (map_err (\<lambda>e. key_error (''invalid hex in '' @ quoted path @ '': '' @ e)) (cr_unhex c encoded)) (\<lambda>bytes.
     and_then (ensure (length bytes = 32) (key_error (quoted path @ '' did not decode to 32 bytes''))) (\<lambda>_.
       Inr bytes))))"

text \<open>The first eight bytes of the digest.\<close>

definition fingerprint :: "crypto \<Rightarrow> string \<Rightarrow> string" where
  "fingerprint c key = cr_hex c (take 8 (cr_sha256 c key))"

definition cipher_for :: "crypto \<Rightarrow> string \<Rightarrow> relay_error + unit" where
  "cipher_for c key =
     (case cr_init c key of None \<Rightarrow> Inr () | Some e \<Rightarrow> Inl (key_error (''AES-GCM init failed: '' @ e)))"

definition encrypt_with_key :: "crypto \<Rightarrow> string \<Rightarrow> string \<Rightarrow> string \<Rightarrow> relay_error + string \<times> string" where
  "encrypt_with_key c iv key plaintext =
     and_then (cipher_for c key) (\<lambda>_.
     and_then (ok_or (cr_seal c key iv plaintext) (key_error ''AES-GCM encryption failed'')) (\<lambda>ct.
       Inr (cr_b64 c iv, cr_b64 c ct)))"

definition decrypt_with_key :: "crypto \<Rightarrow> string \<Rightarrow> string \<Rightarrow> string \<Rightarrow> relay_error + string" where
  "decrypt_with_key c key iv ciphertext =
     and_then (map_err (\<lambda>e. key_error (''invalid IV: '' @ e)) (cr_unb64 c iv)) (\<lambda>iv'.
     and_then (ensure (length iv' = 12) (key_error ''IV must be 12 bytes'')) (\<lambda>_.
     and_then (map_err (\<lambda>e. key_error (''invalid ciphertext: '' @ e)) (cr_unb64 c ciphertext)) (\<lambda>ct.
     and_then (cipher_for c key) (\<lambda>_.
       ok_or (cr_open c key iv' ct) (key_error ''authentication failed'')))))"

section \<open>Envelopes\<close>

definition encrypt_envelope :: "process_env \<Rightarrow> crypto \<Rightarrow> string \<Rightarrow> local_key_file \<Rightarrow> string \<Rightarrow> relay_error + encrypted_payload" where
  "encrypt_envelope pe c iv kf plaintext =
     and_then (read_key pe c (kf_path kf)) (\<lambda>key.
     and_then (encrypt_with_key c iv key plaintext) (\<lambda>(iv', ct).
       Inr \<lparr> ep_version = 1, ep_kms = ''local'', ep_kid = fingerprint c key, ep_alg = ''AES256GCM'', ep_iv = iv',
             ep_edek = cr_b64 c ''local'', ep_ct = ct \<rparr>))"

text \<open>The key files in turn; one that cannot be read ends the search.\<close>

fun decrypt_with_files :: "process_env \<Rightarrow> crypto \<Rightarrow> string list \<Rightarrow> encrypted_payload \<Rightarrow> relay_error + string" where
  "decrypt_with_files pe c [] p = Inl (key_error (''key fingerprint '' @ quoted (ep_kid p) @ '' is unavailable''))"
| "decrypt_with_files pe c (path # paths) p =
     and_then (read_key pe c path) (\<lambda>key.
       if fingerprint c key = ep_kid p then decrypt_with_key c key (ep_iv p) (ep_ct p)
       else decrypt_with_files pe c paths p)"

definition decrypt_envelope :: "process_env \<Rightarrow> crypto \<Rightarrow> local_key_file \<Rightarrow> encrypted_payload \<Rightarrow> relay_error + string" where
  "decrypt_envelope pe c kf p =
     decrypt_with_files pe c (kf_path kf # (case kf_previous kf of None \<Rightarrow> [] | Some q \<Rightarrow> [q])) p"

definition is_encrypted_envelope :: "json \<Rightarrow> bool" where
  "is_encrypted_envelope v \<longleftrightarrow> json_get v ''_enc'' \<noteq> None"

section \<open>Lemmas\<close>

text \<open>What the libraries document: base64 is read back, and a cipher opens what it sealed.\<close>

definition documented_crypto :: "crypto \<Rightarrow> bool" where
  "documented_crypto c \<longleftrightarrow>
     (\<forall>b. cr_unb64 c (cr_b64 c b) = Inr b)
   \<and> (\<forall>k iv p ct. cr_seal c k iv p = Some ct \<longrightarrow> cr_open c k iv ct = Some p)"

lemma key_has_32_bytes: "read_key pe c path = Inr key \<Longrightarrow> length key = 32"
  by (auto simp: read_key_def and_then_Inr_iff Let_def)

lemma sealed_opens:
  assumes "documented_crypto c" and "length iv = 12" and "encrypt_with_key c iv key p = Inr (iv', ct)"
  shows "decrypt_with_key c key iv' ct = Inr p"
  using assms by (auto simp: encrypt_with_key_def decrypt_with_key_def documented_crypto_def and_then_Inr_iff ensure_def)

text \<open>
  An envelope is opened by the key file that made it, and still after one rotation: its key file is
  the previous one and the current one holds a key with another fingerprint.
\<close>

lemma envelope_survives_one_rotation:
  assumes "documented_crypto c" and "length iv = 12" and "encrypt_envelope pe c iv kf p = Inr e"
    and "read_key pe' c (kf_path kf) = read_key pe c (kf_path kf)"
    and "read_key pe' c fresh = Inr key" and "fingerprint c key \<noteq> ep_kid e"
  shows "decrypt_envelope pe c kf e = Inr p"
    and "decrypt_envelope pe' c \<lparr> kf_path = fresh, kf_previous = Some (kf_path kf) \<rparr> e = Inr p"
proof -
  from assms(3) obtain old iv' ct where old: "read_key pe c (kf_path kf) = Inr old"
    and ct: "encrypt_with_key c iv old p = Inr (iv', ct)"
    and e: "ep_kid e = fingerprint c old" "ep_iv e = iv'" "ep_ct e = ct"
    by (auto simp: encrypt_envelope_def and_then_Inr_iff)
  note opens = sealed_opens [OF assms(1,2) ct]
  show "decrypt_envelope pe c kf e = Inr p" using old e opens by (simp add: decrypt_envelope_def)
  show "decrypt_envelope pe' c \<lparr> kf_path = fresh, kf_previous = Some (kf_path kf) \<rparr> e = Inr p"
    using old e opens assms(4-6) by (simp add: decrypt_envelope_def)
qed

text \<open>After a second rotation no file has its key, and an unreadable current file hides the previous one.\<close>

lemma envelope_lost_after_two_rotations:
  assumes "read_key pe c fresh = Inr k1" and "read_key pe c recent = Inr k2"
    and "fingerprint c k1 \<noteq> ep_kid e" and "fingerprint c k2 \<noteq> ep_kid e"
  shows "decrypt_envelope pe c \<lparr> kf_path = fresh, kf_previous = Some recent \<rparr> e =
    Inl (key_error (''key fingerprint '' @ quoted (ep_kid e) @ '' is unavailable''))"
  using assms by (simp add: decrypt_envelope_def)

lemma unreadable_key_hides_previous:
  "read_key pe c (kf_path kf) = Inl err \<Longrightarrow> decrypt_envelope pe c kf e = Inl err"
  by (simp add: decrypt_envelope_def)

text \<open>The version, the algorithm and the other labels of an envelope are not looked at.\<close>

lemma labels_are_ignored:
  "decrypt_envelope pe c kf (e\<lparr>ep_version := v, ep_kms := k, ep_alg := a, ep_edek := d\<rparr>) = decrypt_envelope pe c kf e"
proof -
  have "decrypt_with_files pe c paths (e\<lparr>ep_version := v, ep_kms := k, ep_alg := a, ep_edek := d\<rparr>)
      = decrypt_with_files pe c paths e" for paths
    by (induction paths) (simp_all cong: if_cong)
  then show ?thesis by (simp only: decrypt_envelope_def)
qed

end
