(* ===== verification/Lifecycle.thy ===== *)
theory Lifecycle
  imports Tide_Db
begin

text \<open>
  Paused pipelines: the table \<open>tide.relay_pipeline_state\<close>, its upsert and the list of pipelines to
  resume (\<open>pg-tide-ext/src/lifecycle.rs\<close>), and the coordinator's own query for them
  (\<open>check_auto_resume\<close> of \<open>pg-tide-relay/src/coordinator.rs\<close>).  Times and intervals are microseconds.
\<close>

record pipeline_state =
  ps_last_error :: "string option"
  ps_error_class :: "string option"
  ps_pause_started_at :: "int option"
  ps_failure_count :: int
  ps_updated_at :: int

record lifecycle_db =
  lc_db :: tide_db
  lc_outbox_resume :: "(string \<times> int option) list"
  lc_inbox_resume :: "(string \<times> int option) list"
  lc_states :: "(string \<times> pipeline_state) list"

section \<open>The upsert\<close>

definition upserted :: "int \<Rightarrow> string option \<Rightarrow> string option \<Rightarrow> int \<Rightarrow> pipeline_state option \<Rightarrow> pipeline_state" where
  "upserted now err cls count old =
     \<lparr> ps_last_error = err, ps_error_class = cls,
       ps_pause_started_at =
         (case old of
            None \<Rightarrow> if 0 < count then Some now else None
          | Some s \<Rightarrow>
              if 0 < count \<and> ps_pause_started_at s = None then Some now
              else if count = 0 then None
              else ps_pause_started_at s),
       ps_failure_count = count, ps_updated_at = now \<rparr>"

definition relay_pipeline_state_upsert ::
    "spi_fate \<Rightarrow> int \<Rightarrow> string \<Rightarrow> string option \<Rightarrow> string option \<Rightarrow> int \<Rightarrow> lifecycle_db \<Rightarrow> pg_tide_error + lifecycle_db" where
  "relay_pipeline_state_upsert fate now name err cls count db =
     and_then (validate_identifier name) (\<lambda>_.
     and_then (case cls of
                 None \<Rightarrow> Inr ()
               | Some c \<Rightarrow> ensure (c = ''transient'' \<or> c = ''permanent'')
                   (InvalidArgument (''error_class must be '' @ quoted ''transient'' @ '' or '' @ quoted ''permanent''
                      @ '', got '' @ quoted c))) (\<lambda>_.
     and_then (spi fate 0 ''relay_pipeline_state_upsert: '') (\<lambda>_.
       Inr (db\<lparr>lc_states := map_insert name (upserted now err cls count (map_of (lc_states db) name)) (lc_states db)\<rparr>))))"

section \<open>Pipelines to resume\<close>

text \<open>Paused for longer than the interval of a row.\<close>

definition overdue :: "int \<Rightarrow> pipeline_state \<Rightarrow> int option \<Rightarrow> bool" where
  "overdue now s after =
     (case (after, ps_pause_started_at s) of (Some a, Some t) \<Rightarrow> a < now - t | _ \<Rightarrow> False)"

text \<open>The rows of the extension's join, in the order of its tables.\<close>

definition resume_candidates :: "int \<Rightarrow> lifecycle_db \<Rightarrow> (string \<times> pipeline_state \<times> int option) list" where
  "resume_candidates now db =
     concat (map (\<lambda>(ob, after).
       concat (map (\<lambda>(name, rc).
         case map_of (lc_states db) name of
           Some s \<Rightarrow>
             if (name = ob @ ''-pipeline'' \<or> name = ob) \<and> \<not> rc_enabled rc \<and> overdue now s after
             then [(name, s, after)] else []
         | None \<Rightarrow> []) (relay_configs (lc_db db)))) (lc_outbox_resume db))"

definition relay_auto_resume_candidates ::
    "spi_fate \<Rightarrow> (int \<Rightarrow> string) \<Rightarrow> (int \<Rightarrow> string) \<Rightarrow> int \<Rightarrow> lifecycle_db \<Rightarrow> pg_tide_error + json" where
  "relay_auto_resume_candidates fate show_time show_interval now db =
     and_then (spi fate 0 ''relay_auto_resume_candidates: '') (\<lambda>_.
       Inr (JArr (map (\<lambda>(name, s, after).
         JObj [(''auto_resume_after'', case after of Some a \<Rightarrow> JStr (show_interval a) | None \<Rightarrow> JNull),
               (''name'', JStr name),
               (''pause_started_at'', case ps_pause_started_at s of Some t \<Rightarrow> JStr (show_time t) | None \<Rightarrow> JNull),
               (''type'', JStr ''outbox'')])
         (resume_candidates now db))))"

text \<open>
  The coordinator's query: the subquery on the intervals is not tied to the pipeline, so the interval
  of any outbox counts for every outbox pipeline, and of any inbox for every inbox pipeline.
\<close>

definition paused_too_long ::
    "int \<Rightarrow> (string \<times> int option) list \<Rightarrow> (string \<times> pipeline_state) list \<Rightarrow> (string \<times> relay_config_row) list \<Rightarrow> string list" where
  "paused_too_long now intervals states configs =
     map fst (filter (\<lambda>(name, rc).
       case map_of states name of
         None \<Rightarrow> False
       | Some s \<Rightarrow> \<not> rc_enabled rc \<and> list_ex (\<lambda>(_, after). overdue now s after) intervals) configs)"

definition auto_resume_names :: "int \<Rightarrow> lifecycle_db \<Rightarrow> string list" where
  "auto_resume_names now db =
     paused_too_long now (lc_outbox_resume db) (lc_states db) (relay_configs (lc_db db))
     @ paused_too_long now (lc_inbox_resume db) (lc_states db) (relay_inbox_configs (lc_db db))"

definition enable_row :: "string \<Rightarrow> (string \<times> relay_config_row) list \<Rightarrow> (string \<times> relay_config_row) list" where
  "enable_row name = map (\<lambda>(n, rc). (n, if n = name then rc\<lparr>rc_enabled := True\<rparr> else rc))"

text \<open>The three statements of one resume, were they executed.\<close>

definition resume_pipeline :: "string \<Rightarrow> lifecycle_db \<Rightarrow> lifecycle_db" where
  "resume_pipeline name db =
     db\<lparr>lc_db := (lc_db db)\<lparr>relay_configs := enable_row name (relay_configs (lc_db db)),
                            relay_inbox_configs := enable_row name (relay_inbox_configs (lc_db db))\<rparr>,
        lc_states := map (\<lambda>(n, s). (n, if n = name
          then s\<lparr>ps_failure_count := 0, ps_pause_started_at := None, ps_last_error := None\<rparr> else s)) (lc_states db)\<rparr>"

text \<open>
  A failing query is an empty list; a failing resume is logged and the loop goes on.  \<open>conn\<close> and
  \<open>query\<close> tell whether the pool and the query succeed, \<open>resume\<close> whether the text of three statements
  with a parameter does.
\<close>

definition check_auto_resume :: "bool \<Rightarrow> bool \<Rightarrow> (string \<Rightarrow> bool) \<Rightarrow> int \<Rightarrow> lifecycle_db \<Rightarrow> lifecycle_db" where
  "check_auto_resume conn query resume now db =
     (if conn \<and> query
      then fold (\<lambda>name d. if resume name then resume_pipeline name d else d) (auto_resume_names now db) db
      else db)"

section \<open>Lemmas\<close>

lemma upsert_reads_back:
  assumes "relay_pipeline_state_upsert fate now name err cls count db = Inr db'"
  shows "map_of (lc_states db') = (map_of (lc_states db))(name \<mapsto> upserted now err cls count (map_of (lc_states db) name))"
    and "ident_ok name" and "lc_db db' = lc_db db"
  using assms by (auto simp: relay_pipeline_state_upsert_def and_then_Inr_iff validate_identifier_iff)

lemma resume_candidates_iff:
  "(name, s, after) \<in> set (resume_candidates now db) \<longleftrightarrow>
     (\<exists>ob rc. (ob, after) \<in> set (lc_outbox_resume db) \<and> (name, rc) \<in> set (relay_configs (lc_db db))
        \<and> (name = ob @ ''-pipeline'' \<or> name = ob) \<and> \<not> rc_enabled rc
        \<and> map_of (lc_states db) name = Some s \<and> overdue now s after)"
proof
  assume "(name, s, after) \<in> set (resume_candidates now db)"
  then show "\<exists>ob rc. (ob, after) \<in> set (lc_outbox_resume db) \<and> (name, rc) \<in> set (relay_configs (lc_db db))
        \<and> (name = ob @ ''-pipeline'' \<or> name = ob) \<and> \<not> rc_enabled rc
        \<and> map_of (lc_states db) name = Some s \<and> overdue now s after"
    unfolding resume_candidates_def by (auto split: option.splits if_splits) blast+
next
  assume "\<exists>ob rc. (ob, after) \<in> set (lc_outbox_resume db) \<and> (name, rc) \<in> set (relay_configs (lc_db db))
        \<and> (name = ob @ ''-pipeline'' \<or> name = ob) \<and> \<not> rc_enabled rc
        \<and> map_of (lc_states db) name = Some s \<and> overdue now s after"
  then obtain ob rc where "(ob, after) \<in> set (lc_outbox_resume db)" "(name, rc) \<in> set (relay_configs (lc_db db))"
    "name = ob @ ''-pipeline'' \<or> name = ob" "\<not> rc_enabled rc" "map_of (lc_states db) name = Some s" "overdue now s after"
    by blast
  then show "(name, s, after) \<in> set (resume_candidates now db)"
    unfolding resume_candidates_def by (auto intro!: bexI [of _ "(ob, after)"] bexI [of _ "(name, rc)"])
qed

lemma paused_too_long_iff:
  "name \<in> set (paused_too_long now intervals states configs) \<longleftrightarrow>
     (\<exists>rc s ob after. (name, rc) \<in> set configs \<and> \<not> rc_enabled rc \<and> map_of states name = Some s
        \<and> (ob, after) \<in> set intervals \<and> overdue now s after)"
  by (force simp: paused_too_long_def list_ex_iff split: option.splits)

text \<open>Everything the extension lists the coordinator would resume.\<close>

lemma candidates_are_resumed:
  "(name, s, after) \<in> set (resume_candidates now db) \<Longrightarrow> name \<in> set (auto_resume_names now db)"
  by (auto simp: resume_candidates_iff auto_resume_names_def paused_too_long_iff)

text \<open>A statement that is refused changes nothing.\<close>

lemma refused_resume_changes_nothing: "check_auto_resume conn query (\<lambda>_. False) now db = db"
proof -
  have "fold (\<lambda>name d. if False then resume_pipeline name d else d) ns db = db" for ns
    by (induction ns) auto
  then show ?thesis by (simp add: check_auto_resume_def)
qed

lemma resume_enables: "(name, rc) \<in> set (relay_configs (lc_db (resume_pipeline name db))) \<Longrightarrow> rc_enabled rc"
  by (auto simp: resume_pipeline_def enable_row_def)

section \<open>Properties\<close>

text \<open>The state after a sequence of upserts, each a time, an error, a class and a failure count.\<close>

definition recorded :: "(int \<times> string option \<times> string option \<times> int) list \<Rightarrow> pipeline_state option" where
  "recorded evs = fold (\<lambda>(t, e, c, n) old. Some (upserted t e c n old)) evs None"

text \<open>The upserts since the last one with count 0, and the time of the first failure among them.\<close>

definition since_reset :: "(int \<times> string option \<times> string option \<times> int) list \<Rightarrow> (int \<times> string option \<times> string option \<times> int) list" where
  "since_reset evs = rev (takeWhile (\<lambda>(t, e, c, n). n \<noteq> 0) (rev evs))"

definition first_failure :: "(int \<times> string option \<times> string option \<times> int) list \<Rightarrow> int option" where
  "first_failure evs = map_option fst (List.find (\<lambda>(t, e, c, n). 0 < n) evs)"

lemma find_snoc: "List.find P (xs @ [x]) = (case List.find P xs of Some y \<Rightarrow> Some y | None \<Rightarrow> if P x then Some x else None)"
  by (induction xs) auto

lemma recorded_snoc: "recorded (evs @ [(t, e, c, n)]) = Some (upserted t e c n (recorded evs))"
  by (simp add: recorded_def)

lemma since_reset_snoc: "since_reset (evs @ [(t, e, c, n)]) = (if n = 0 then [] else since_reset evs @ [(t, e, c, n)])"
  by (simp add: since_reset_def)

lemma recorded_pause:
  "Option.bind (recorded evs) ps_pause_started_at = first_failure (since_reset evs)"
proof (induction evs rule: rev_induct)
  case Nil
  then show ?case by (simp add: recorded_def since_reset_def first_failure_def)
next
  case (snoc ev evs)
  obtain t e c n where ev: "ev = (t, e, c, n)" by (cases ev) auto
  show ?case
  proof (cases "n = 0")
    case True
    then show ?thesis
      by (cases "recorded evs") (simp_all add: ev recorded_snoc since_reset_snoc upserted_def first_failure_def)
  next
    case False
    with snoc.IH show ?thesis
      by (cases "recorded evs") (auto simp: ev recorded_snoc since_reset_snoc upserted_def first_failure_def find_snoc split: option.splits)
  qed
qed

text \<open>A sequence of upserts of one pipeline.\<close>

fun upserts ::
    "spi_fate \<Rightarrow> string \<Rightarrow> (int \<times> string option \<times> string option \<times> int) list \<Rightarrow> lifecycle_db \<Rightarrow> pg_tide_error + lifecycle_db" where
  "upserts fate name [] db = Inr db"
| "upserts fate name ((t, e, c, n) # evs) db =
     and_then (relay_pipeline_state_upsert fate t name e c n db) (upserts fate name evs)"

lemma upserts_record:
  "upserts fate name evs db = Inr db' \<Longrightarrow>
     map_of (lc_states db') name = fold (\<lambda>(t, e, c, n) old. Some (upserted t e c n old)) evs (map_of (lc_states db) name)"
  by (induction fate name evs db rule: upserts.induct) (auto simp: and_then_Inr_iff dest!: upsert_reads_back(1))

text \<open>
  C25: Whatever upserts a pipeline gets, the start of its pause is the time of the first failing one
  since the last that reported no failure, and there is none before the first failure.
\<close>

theorem pause_starts_at_first_failure:
  assumes "upserts fate name evs db = Inr db'" and "map_of (lc_states db) name = None"
  shows "Option.bind (map_of (lc_states db') name) ps_pause_started_at = first_failure (since_reset evs)"
  using upserts_record [OF assms(1)] recorded_pause [of evs] by (simp add: assms(2) recorded_def)

theorem pause_starts_at_first_failure_witness:
  "\<exists>db'. upserts (\<lambda>_. None) ''orders'' [(1, None, None, 2), (2, None, None, 0), (3, None, None, 1), (4, None, None, 5)]
       \<lparr> lc_db = empty_db, lc_outbox_resume = [], lc_inbox_resume = [], lc_states = [] \<rparr> = Inr db'
     \<and> Option.bind (map_of (lc_states db') ''orders'') ps_pause_started_at = Some 3"
proof -
  let ?evs = "[(1, None, None, 2), (2, None, None, 0), (3, None, None, 1), (4, None, None, 5)]
    :: (int \<times> string option \<times> string option \<times> int) list"
  let ?db = "\<lparr> lc_db = empty_db, lc_outbox_resume = [], lc_inbox_resume = [], lc_states = [] \<rparr>"
  have "is_ok (upserts (\<lambda>_. None) ''orders'' ?evs ?db)" by code_simp
  then obtain db' where db': "upserts (\<lambda>_. None) ''orders'' ?evs ?db = Inr db'" by (auto simp: is_ok_iff)
  moreover have "first_failure (since_reset ?evs) = Some 3" by code_simp
  ultimately show ?thesis using pause_starts_at_first_failure [OF db'] by (metis lifecycle_db.select_convs(4) map_of.simps(1))
qed

text \<open>
  The coordinator selects a paused pipeline as soon as the interval of any outbox has passed,
  although the extension does not list it because no interval is set for its own outbox.
\<close>

lemma auto_resume_ignores_outbox:
  assumes "(name, rc) \<in> set (relay_configs (lc_db db))" and "\<not> rc_enabled rc"
    and "map_of (lc_states db) name = Some s" and "overdue now s (Some a)"
    and "(other, Some a) \<in> set (lc_outbox_resume db)"
    and "\<forall>ob after. (ob, after) \<in> set (lc_outbox_resume db) \<longrightarrow> name = ob @ ''-pipeline'' \<or> name = ob \<longrightarrow> after = None"
  shows "name \<in> set (auto_resume_names now db) \<and> name \<notin> fst ` set (resume_candidates now db)"
proof
  show "name \<in> set (auto_resume_names now db)"
    using assms(1-5) by (auto simp: auto_resume_names_def paused_too_long_iff)
  show "name \<notin> fst ` set (resume_candidates now db)"
  proof
    assume "name \<in> fst ` set (resume_candidates now db)"
    then obtain s' after where "(name, s', after) \<in> set (resume_candidates now db)" by force
    then obtain ob where "(ob, after) \<in> set (lc_outbox_resume db)" "name = ob @ ''-pipeline'' \<or> name = ob" "overdue now s' after"
      by (auto simp: resume_candidates_iff)
    with assms(6) have "overdue now s' None" by blast
    then show False by (simp add: overdue_def)
  qed
qed

definition demo_paused :: lifecycle_db where
  "demo_paused =
     \<lparr> lc_db = empty_db\<lparr>relay_configs := [(''audit'', \<lparr> rc_enabled = False, rc_config = JNull, rc_tenant = ''default'' \<rparr>)]\<rparr>,
       lc_outbox_resume = [(''audit'', None), (''orders'', Some 60)], lc_inbox_resume = [],
       lc_states = [(''audit'', upserted 0 (Some ''boom'') (Some ''permanent'') 1 None)] \<rparr>"

lemma auto_resume_ignores_outbox_example:
  "auto_resume_names 100 demo_paused = [''audit''] \<and> ''audit'' \<notin> fst ` set (resume_candidates 100 demo_paused)"
proof -
  have "auto_resume_names 100 demo_paused = [''audit'']" by code_simp
  moreover have "''audit'' \<notin> fst ` set (resume_candidates 100 demo_paused)"
    using auto_resume_ignores_outbox [of "''audit''" "\<lparr> rc_enabled = False, rc_config = JNull, rc_tenant = ''default'' \<rparr>" demo_paused
      "upserted 0 (Some ''boom'') (Some ''permanent'') 1 None" 100 60 "''orders''"]
    by (simp add: demo_paused_def empty_db_def overdue_def upserted_def)
  ultimately show ?thesis ..
qed

end
