(* ===== verification/Pg_Tls.thy ===== *)
theory Pg_Tls
  imports Secrets
begin

text \<open>
  \<open>pg-tide-relay/src/pg_tls.rs\<close>: which transport a connection URL asks for and how the connection is
  made.  The driver (tokio-postgres), OpenSSL and the hiding of credentials in a URL are third-party:
  they are arguments, and what the theorems need of the driver's documented treatment of \<open>sslmode\<close>
  is a hypothesis.
\<close>

section \<open>Modes\<close>

datatype ssl_mode = SslDisable | SslPrefer | SslRequire
datatype checked_mode = CheckedDisable | CheckedRequire | CheckedVerifyCa | CheckedVerifyFull

text \<open>Lowering the case of letters outside ASCII gives none of the words compared here.\<close>

definition from_str_mode :: "string \<Rightarrow> ssl_mode" where
  "from_str_mode s =
     (let m = to_ascii_lowercase s
      in if m = ''disable'' then SslDisable
         else if m = ''require'' \<or> m = ''verify-ca'' \<or> m = ''verify-full'' then SslRequire
         else SslPrefer)"

definition is_required :: "ssl_mode \<Rightarrow> bool" where "is_required m \<longleftrightarrow> m = SslRequire"

definition ends_value :: "char \<Rightarrow> bool" where
  "ends_value c \<longleftrightarrow> c = CHR ''&'' \<or> c = CHR '' '' \<or> c = CHR 0x09"

text \<open>The first \<open>sslmode=\<close> anywhere in the text, and its value when it is not empty.\<close>

definition extract_sslmode_str :: "string \<Rightarrow> string option" where
  "extract_sslmode_str url =
     (case find_sub ''sslmode='' url of
        None \<Rightarrow> None
      | Some (_, rest) \<Rightarrow> let v = takeWhile (\<lambda>c. \<not> ends_value c) rest in if v = [] then None else Some v)"

definition parse_ssl_mode :: "string \<Rightarrow> ssl_mode" where
  "parse_ssl_mode url = (case extract_sslmode_str url of Some v \<Rightarrow> from_str_mode v | None \<Rightarrow> SslRequire)"

definition parse_ssl_mode_checked :: "(string \<Rightarrow> string) \<Rightarrow> string \<Rightarrow> relay_error + checked_mode" where
  "parse_ssl_mode_checked sanitize url =
     (let mode = unwrap_or (map_option to_ascii_lowercase (extract_sslmode_str url)) ''verify-full''
      in if mode = ''disable'' then Inr CheckedDisable
         else if mode = ''require'' then Inr CheckedRequire
         else if mode = ''verify-ca'' then Inr CheckedVerifyCa
         else if mode = ''verify-full'' then Inr CheckedVerifyFull
         else if mode = ''allow'' \<or> mode = ''prefer'' then Inl (InsecureTransport mode (sanitize url))
         else Inl (Config ''unsupported PostgreSQL sslmode''))"

section \<open>The connector\<close>

record tls_connector =
  verify_peer :: bool
  verify_hostname :: bool
  ca_file :: "string option"

record tls_env =
  te_builder :: "string option"
  te_trust_roots :: bool
  te_ca_file :: "string \<Rightarrow> bool"

definition make_tls_connector_for_mode :: "tls_env \<Rightarrow> checked_mode \<Rightarrow> string option \<Rightarrow> relay_error + tls_connector" where
  "make_tls_connector_for_mode env mode root =
     (case te_builder env of
        Some e \<Rightarrow> Inl (TlsSetup e)
      | None \<Rightarrow>
          (case mode of
             CheckedDisable \<Rightarrow> Inl (Config ''cannot create a TLS connector for sslmode=disable'')
           | CheckedRequire \<Rightarrow> Inr \<lparr> verify_peer = False, verify_hostname = False, ca_file = None \<rparr>
           | _ \<Rightarrow>
               and_then (ensure (te_trust_roots env) (TlsSetup ''system trust roots unavailable'')) (\<lambda>_.
               and_then (case root of
                           None \<Rightarrow> Inr ()
                         | Some path \<Rightarrow> ensure (te_ca_file env path) (TlsSetup ''configured sslrootcert is invalid'')) (\<lambda>_.
                 Inr \<lparr> verify_peer = True, verify_hostname = (mode = CheckedVerifyFull), ca_file = root \<rparr>))))"

text \<open>A parameter of the URL or of the keyword form; the first one counts, an empty one as none.\<close>

definition url_parts :: "string \<Rightarrow> string list" where
  "url_parts url = split_on (CHR ''&'') (map (\<lambda>c. if c = CHR ''?'' \<or> ends_value c then CHR ''&'' else c) url)"

definition extract_parameter :: "string \<Rightarrow> string \<Rightarrow> string option" where
  "extract_parameter url name =
     (case List.map_filter (strip_prefix (name @ ''='')) (url_parts url) of
        [] \<Rightarrow> None
      | v # _ \<Rightarrow> if v = [] then None else Some v)"

definition make_tls_connector_for_url :: "tls_env \<Rightarrow> (string \<Rightarrow> string) \<Rightarrow> string \<Rightarrow> relay_error + tls_connector" where
  "make_tls_connector_for_url env sanitize url =
     and_then (parse_ssl_mode_checked sanitize url) (\<lambda>mode.
       if mode = CheckedDisable then Inl (Config ''cannot create a TLS connector for sslmode=disable'')
       else make_tls_connector_for_mode env mode (extract_parameter url ''sslrootcert''))"

section \<open>Connecting\<close>

text \<open>
  What comes of a connection: \<open>driver\<close> gets the connector (none for \<open>NoTls\<close>) and the unchanged URL.
  The build has the TLS feature or not.
\<close>

datatype channel = PlainChannel | TlsChannel tls_connector

type_synonym driver = "tls_connector option \<Rightarrow> string \<Rightarrow> pg_error + channel"

definition connect_notls :: "(string \<Rightarrow> string) \<Rightarrow> driver \<Rightarrow> string \<Rightarrow> relay_error + channel" where
  "connect_notls sanitize driver url = map_err (ConnectionFailed (sanitize url)) (driver None url)"

definition connect_tls ::
    "bool \<Rightarrow> tls_env \<Rightarrow> (string \<Rightarrow> string) \<Rightarrow> driver \<Rightarrow> string \<Rightarrow> checked_mode \<Rightarrow> relay_error + channel" where
  "connect_tls native_tls env sanitize driver url mode =
     (if native_tls
      then and_then (make_tls_connector_for_mode env mode (extract_parameter url ''sslrootcert'')) (\<lambda>c.
             map_err (ConnectionFailed (sanitize url)) (driver (Some c) url))
      else Inl (TlsRequired (sanitize url)))"

definition pg_connect :: "bool \<Rightarrow> tls_env \<Rightarrow> (string \<Rightarrow> string) \<Rightarrow> driver \<Rightarrow> string \<Rightarrow> relay_error + channel" where
  "pg_connect native_tls env sanitize driver url =
     and_then (parse_ssl_mode_checked sanitize url) (\<lambda>mode.
       if mode = CheckedDisable then connect_notls sanitize driver url
       else connect_tls native_tls env sanitize driver url mode)"

text \<open>
  The pool of the coordinator (\<open>create_coordinator_pool\<close> of \<open>main.rs\<close>): its connector and its size;
  \<open>pool\<close> is the error of deadpool.  The boxed error is a relay error or a text.
\<close>

definition create_coordinator_pool ::
    "bool \<Rightarrow> tls_env \<Rightarrow> (string \<Rightarrow> string) \<Rightarrow> string option \<Rightarrow> string \<Rightarrow> int \<Rightarrow>
       (relay_error + string) + tls_connector option \<times> int" where
  "create_coordinator_pool native_tls env sanitize pool url max_size =
     (case parse_ssl_mode_checked sanitize url of
        Inl e \<Rightarrow> Inl (Inl e)
      | Inr CheckedDisable \<Rightarrow>
          (case pool of
             Some e \<Rightarrow> Inl (Inr (''failed to create coordinator connection pool: '' @ e))
           | None \<Rightarrow> Inr (None, max_size))
      | Inr _ \<Rightarrow>
          (if native_tls
           then (case make_tls_connector_for_url env sanitize url of
                   Inl e \<Rightarrow> Inl (Inl e)
                 | Inr c \<Rightarrow>
                     (case pool of
                        Some e \<Rightarrow> Inl (Inr (''failed to create TLS coordinator connection pool: '' @ e))
                      | None \<Rightarrow> Inr (Some c, max_size)))
           else Inl (Inl (TlsRequired (sanitize url)))))"

section \<open>Overriding the mode\<close>

definition mode_char :: "char \<Rightarrow> bool" where
  "mode_char c \<longleftrightarrow> (97 \<le> byte c \<and> byte c \<le> 122) \<or> c = CHR ''-''"

text \<open>The first match of the pattern \<open>sslmode=[a-z-]+\<close> is replaced.\<close>

fun replace_mode :: "string \<Rightarrow> string \<Rightarrow> string" where
  "replace_mode r [] = []"
| "replace_mode r (c # cs) =
     (if starts_with ''sslmode='' (c # cs) \<and> takeWhile mode_char (drop 8 (c # cs)) \<noteq> []
      then r @ dropWhile mode_char (drop 8 (c # cs))
      else c # replace_mode r cs)"

fun mode_str :: "ssl_mode \<Rightarrow> string" where
  "mode_str SslDisable = ''disable''"
| "mode_str SslPrefer = ''prefer''"
| "mode_str SslRequire = ''require''"

definition with_ssl_mode :: "string \<Rightarrow> ssl_mode option \<Rightarrow> string" where
  "with_ssl_mode url override =
     (case override of
        None \<Rightarrow> url
      | Some mode \<Rightarrow>
          let parameter = ''sslmode='' @ mode_str mode
          in if str_contains ''sslmode='' url then replace_mode parameter url
             else if starts_with ''postgres://'' url \<or> starts_with ''postgresql://'' url
             then url @ (if CHR ''?'' \<in> set url then ''&'' else ''?'') @ parameter
             else url @ '' '' @ parameter)"

section \<open>Lemmas\<close>

lemma starts_with_Cons [simp]: "starts_with (p # ps) (c # cs) \<longleftrightarrow> p = c \<and> starts_with ps cs"
  by (auto simp: starts_with_def)

lemma starts_with_Nil [simp]: "starts_with [] s"
  by (simp add: starts_with_def)

lemma find_sub_None: "\<not> str_contains p s \<Longrightarrow> find_sub p s = None"
  by (induction s) auto

text \<open>The first occurrence in a text extended after a character the pattern does not have.\<close>

lemma starts_with_across:
  assumes "starts_with p (u @ d # r)" and "d \<notin> set p"
  shows "starts_with p u"
  using assms
proof (induction p arbitrary: u)
  case (Cons x p)
  then show ?case by (cases u) auto
qed simp

lemma find_sub_after:
  assumes "\<not> str_contains p u" and "d \<notin> set p" and "p \<noteq> []"
  shows "find_sub p (u @ d # p @ v) = Some (u @ [d], v)"
  using assms(1)
proof (induction u)
  case Nil
  have "\<not> starts_with p (d # p @ v)"
    using assms(2,3) by (cases p) auto
  moreover have "find_sub p (p @ v) = Some ([], v)"
    using assms(3) by (cases p) (auto simp: starts_with_def)
  ultimately show ?case by simp
next
  case (Cons c u)
  have "\<not> starts_with p (c # u @ d # p @ v)"
    using starts_with_across [of p "c # u" d "p @ v"] Cons.prems assms(2) by auto
  with Cons show ?case by simp
qed

lemma extract_appended:
  assumes "\<not> str_contains ''sslmode='' url" and "d \<notin> set ''sslmode=''" and "v \<noteq> []" and "list_all (\<lambda>c. \<not> ends_value c) v"
  shows "extract_sslmode_str (url @ d # ''sslmode='' @ v) = Some v"
proof -
  have "takeWhile (\<lambda>c. \<not> ends_value c) v = v"
    using assms(4) by (simp add: takeWhile_eq_all_conv list_all_iff del: takeWhile_eq_filter)
  moreover have "find_sub ''sslmode='' (url @ d # ''sslmode='' @ v) = Some (url @ [d], v)"
    by (rule find_sub_after) (use assms in auto)
  ultimately show ?thesis using assms(3) by (simp only: extract_sslmode_str_def option.case prod.case Let_def if_False)
qed

lemma mode_str_plain: "mode_str m \<noteq> []" "list_all (\<lambda>c. \<not> ends_value c) (mode_str m)"
  by (cases m; simp add: ends_value_def)+

lemma extract_with_ssl_mode:
  assumes "\<not> str_contains ''sslmode='' url"
  shows "extract_sslmode_str (with_ssl_mode url (Some m)) = Some (mode_str m)"
  using extract_appended [OF assms, of "CHR ''&''" "mode_str m"] extract_appended [OF assms, of "CHR ''?''" "mode_str m"]
    extract_appended [OF assms, of "CHR '' ''" "mode_str m"] assms mode_str_plain [of m]
  by (simp add: with_ssl_mode_def Let_def)

text \<open>An override is read back, when the URL had no mode.\<close>

lemma with_ssl_mode_read_back:
  assumes "\<not> str_contains ''sslmode='' url"
  shows "parse_ssl_mode (with_ssl_mode url (Some m)) = m"
  using extract_with_ssl_mode [OF assms, of m]
  by (cases m) (simp_all add: parse_ssl_mode_def from_str_mode_def to_ascii_lowercase_def ascii_lower_def Let_def)

text \<open>One in upper case is not overridden.\<close>

lemma upper_case_mode_kept:
  "parse_ssl_mode (with_ssl_mode ''postgres://db/app?sslmode=DISABLE'' (Some SslRequire)) = SslDisable"
  by code_simp

lemma checked_disable_iff:
  "parse_ssl_mode_checked sanitize url = Inr CheckedDisable \<longleftrightarrow>
     (\<exists>v. extract_sslmode_str url = Some v \<and> to_ascii_lowercase v = ''disable'')"
  by (cases "extract_sslmode_str url") (auto simp: parse_ssl_mode_checked_def Let_def)

lemma no_mode: "\<not> str_contains ''sslmode='' url \<Longrightarrow> extract_sslmode_str url = None"
  by (simp add: extract_sslmode_str_def find_sub_None)

text \<open>
  What the code decides itself: only a URL that says \<open>disable\<close> is connected without a TLS
  connector, the peer is verified for the two verifying modes and by default, the host name only
  for \<open>verify-full\<close> and by default.
\<close>

lemma connectors:
  assumes "make_tls_connector_for_url env sanitize url = Inr c"
  shows "(verify_peer c \<longleftrightarrow> (\<exists>m. parse_ssl_mode_checked sanitize url = Inr m \<and> m \<in> {CheckedVerifyCa, CheckedVerifyFull}))
    \<and> (verify_hostname c \<longleftrightarrow> parse_ssl_mode_checked sanitize url = Inr CheckedVerifyFull)"
  using assms
  by (auto simp: make_tls_connector_for_url_def make_tls_connector_for_mode_def and_then_Inr_iff
      split: if_splits option.splits checked_mode.splits)

lemma plain_build_refuses_tls:
  assumes "pg_connect False env sanitize driver url = Inr ch"
  shows "\<exists>v. extract_sslmode_str url = Some v \<and> to_ascii_lowercase v = ''disable''"
  using assms by (auto simp: pg_connect_def connect_tls_def and_then_Inr_iff checked_disable_iff split: if_splits)

text \<open>The coordinator's pool and the other connections make the same connector for a URL.\<close>

lemma pool_uses_same_connector:
  assumes "create_coordinator_pool native env sanitize None url n = Inr (c, m)"
  shows "m = n \<and> (\<forall>driver. pg_connect native env sanitize driver url
    = map_err (ConnectionFailed (sanitize url)) (driver c url))"
proof -
  from assms obtain mode where m: "parse_ssl_mode_checked sanitize url = Inr mode"
    by (auto simp: create_coordinator_pool_def split: sum.splits)
  show ?thesis
  proof (cases "mode = CheckedDisable")
    case True
    with m assms show ?thesis
      by (auto simp: create_coordinator_pool_def pg_connect_def connect_notls_def)
  next
    case False
    with m assms show ?thesis
      by (cases mode) (auto simp: create_coordinator_pool_def pg_connect_def connect_tls_def
        make_tls_connector_for_url_def split: if_splits sum.splits)
  qed
qed

section \<open>Properties\<close>

text \<open>
  The driver's documentation: without a mode in the URL it prefers TLS, and preferring it falls back
  to plaintext when the server offers none; \<open>require\<close> does not fall back.  \<open>reads\<close> is the mode the
  driver reads from a URL, \<open>None\<close> for one it rejects.
\<close>

datatype driver_mode = DriverDisable | DriverPrefer | DriverRequire

definition documented_modes :: "(string \<Rightarrow> driver_mode option) \<Rightarrow> bool" where
  "documented_modes reads \<longleftrightarrow>
     (\<forall>url m. \<not> str_contains ''sslmode='' url \<longrightarrow> reads url = Some m \<longrightarrow> m = DriverPrefer)
   \<and> (\<forall>url m. \<not> str_contains ''sslmode='' url \<longrightarrow> reads (with_ssl_mode url (Some SslRequire)) = Some m \<longrightarrow> m = DriverRequire)"

definition documented_handshake :: "(string \<Rightarrow> driver_mode option) \<Rightarrow> bool \<Rightarrow> driver \<Rightarrow> bool" where
  "documented_handshake reads server_tls driver \<longleftrightarrow>
     (\<forall>c url. case reads url of
        None \<Rightarrow> \<exists>e. driver c url = Inl e
      | Some DriverDisable \<Rightarrow> driver c url = Inr PlainChannel
      | Some DriverPrefer \<Rightarrow> (c = None \<or> \<not> server_tls \<longrightarrow> driver c url = Inr PlainChannel)
      | Some DriverRequire \<Rightarrow> (c = None \<or> \<not> server_tls \<longrightarrow> (\<exists>e. driver c url = Inl e)))"

text \<open>
  C34: A URL without \<open>sslmode\<close> is classified as the strictest mode, with a verified certificate and
  host name, but the driver is given the URL as it is: at a server that offers no TLS the
  connection is made in plaintext, where the same URL with the weaker \<open>require\<close> is refused.
\<close>

theorem default_mode_falls_back_to_plaintext:
  assumes "documented_modes reads" and "documented_handshake reads False driver"
    and "\<not> str_contains ''sslmode='' url" and "reads url \<noteq> None"
    and "te_builder env = None" and "te_trust_roots env" and "extract_parameter url ''sslrootcert'' = None"
  shows "parse_ssl_mode_checked sanitize url = Inr CheckedVerifyFull
    \<and> pg_connect True env sanitize driver url = Inr PlainChannel
    \<and> is_required (parse_ssl_mode (with_ssl_mode url (Some SslRequire)))
    \<and> (\<exists>e. pg_connect True env sanitize driver (with_ssl_mode url (Some SslRequire)) = Inl e)"
proof -
  let ?strict = "with_ssl_mode url (Some SslRequire)"
  have mode: "parse_ssl_mode_checked sanitize url = Inr CheckedVerifyFull"
    using no_mode [OF assms(3)] by (simp add: parse_ssl_mode_checked_def)
  have "reads url = Some DriverPrefer" using assms(1,3,4) by (auto simp: documented_modes_def)
  then have "driver c url = Inr PlainChannel" for c
    using assms(2) [unfolded documented_handshake_def, rule_format, of c url] by simp
  then have plain: "pg_connect True env sanitize driver url = Inr PlainChannel"
    using mode assms(5-7) by (simp add: pg_connect_def connect_tls_def make_tls_connector_for_mode_def ensure_def)
  have "reads ?strict = None \<or> reads ?strict = Some DriverRequire"
    using assms(1,3) by (cases "reads ?strict") (auto simp: documented_modes_def)
  then have err: "\<exists>e. driver c ?strict = Inl e" for c
    using assms(2) [unfolded documented_handshake_def, rule_format, of c ?strict] by auto
  have "parse_ssl_mode_checked sanitize ?strict = Inr CheckedRequire"
    using extract_with_ssl_mode [OF assms(3), of SslRequire]
    by (simp add: parse_ssl_mode_checked_def to_ascii_lowercase_def ascii_lower_def Let_def)
  then have "\<exists>e. pg_connect True env sanitize driver ?strict = Inl e"
    using err [of "Some \<lparr>verify_peer = False, verify_hostname = False, ca_file = None\<rparr>"] assms(5)
    by (auto simp: pg_connect_def connect_tls_def make_tls_connector_for_mode_def)
  with mode plain with_ssl_mode_read_back [OF assms(3), of SslRequire] show ?thesis
    by (simp add: is_required_def)
qed

definition demo_reads :: "string \<Rightarrow> driver_mode option" where
  "demo_reads url =
     Some (if str_contains ''sslmode='' url then DriverRequire else DriverPrefer)"

definition demo_driver :: driver where
  "demo_driver c url =
     (if demo_reads url = Some DriverRequire
      then Inl \<lparr> sqlstate = None, pg_text = ''server does not support TLS'' \<rparr> else Inr PlainChannel)"

lemma strict_contains: "str_contains ''sslmode='' (with_ssl_mode url (Some SslRequire))"
  if "\<not> str_contains ''sslmode='' url"
proof -
  have "extract_sslmode_str (with_ssl_mode url (Some SslRequire)) \<noteq> None"
    using extract_with_ssl_mode [OF that, of SslRequire] by simp
  with no_mode [of "with_ssl_mode url (Some SslRequire)"] show ?thesis by argo
qed

theorem default_mode_falls_back_to_plaintext_witness:
  "pg_connect True \<lparr> te_builder = None, te_trust_roots = True, te_ca_file = (\<lambda>_. False) \<rparr> (\<lambda>u. u) demo_driver
     ''postgres://db/app'' = Inr PlainChannel"
proof -
  have "documented_modes demo_reads" by (simp add: documented_modes_def demo_reads_def strict_contains)
  moreover have "documented_handshake demo_reads False demo_driver"
    by (simp add: documented_handshake_def demo_driver_def demo_reads_def)
  moreover have "\<not> str_contains ''sslmode='' ''postgres://db/app''" "extract_parameter ''postgres://db/app'' ''sslrootcert'' = None"
    by code_simp+
  ultimately show ?thesis
    using default_mode_falls_back_to_plaintext [of demo_reads demo_driver "''postgres://db/app''"
        "\<lparr> te_builder = None, te_trust_roots = True, te_ca_file = (\<lambda>_. False) \<rparr>" "\<lambda>u. u"]
    by (simp add: demo_reads_def)
qed

end
