(* ===== verification/Replay_Command.thy ===== *)
theory Replay_Command
  imports Replay Process_Config
begin

text \<open>
  \<open>pg-tide replay\<close> (\<open>pg-tide-relay/src/cmd/replay.rs\<close>): the preview of a range, the bounded replay
  and the two commands on dead letters.  For the latter the table \<open>tide.relay_dlq\<close> is given with its
  columns, since the SQL scripts hold two definitions of it.
\<close>

section \<open>Ranges and targets\<close>

record replay_range =
  rg_from :: int
  rg_to :: int
  rg_batch :: int

definition validate_replay_range :: "int \<Rightarrow> int \<Rightarrow> int \<Rightarrow> string + replay_range" where
  "validate_replay_range f t b =
     (if f < 0 then Inl ''from-id must be non-negative''
      else if t < f then Inl ''to-id must be greater than or equal to from-id''
      else if \<not> (1 \<le> b \<and> b \<le> 10000) then Inl ''batch-size must be between 1 and 10000''
      else Inr \<lparr> rg_from = f, rg_to = t, rg_batch = b \<rparr>)"

datatype replay_command =
    ReplayExecute string int int int
  | ReplayPreview string int int int
  | DlqResolve string string
  | DlqRequeue string string

fun command_name :: "replay_command \<Rightarrow> string" where
  "command_name (ReplayExecute _ _ _ _) = ''replay execute''"
| "command_name (ReplayPreview _ _ _ _) = ''replay preview''"
| "command_name (DlqResolve _ _) = ''dlq-resolve''"
| "command_name (DlqRequeue _ _) = ''dlq-requeue''"

text \<open>What the dispatch does before it connects: the range of an execution, then the URL.\<close>

definition replay_target :: "replay_command \<Rightarrow> string option \<Rightarrow> string option \<Rightarrow> relay_process \<Rightarrow> string + string" where
  "replay_target c flag var p =
     and_then (case c of
                 ReplayExecute _ f t b \<Rightarrow>
                   map_err (\<lambda>r. ''invalid replay range: '' @ r) (and_then (validate_replay_range f t b) (\<lambda>_. Inr ()))
               | _ \<Rightarrow> Inr ()) (\<lambda>_.
     and_then (command_url Inr flag var p) (\<lambda>url.
     and_then (ensure (url \<noteq> []) (''error: --postgres-url is required for '' @ command_name c)) (\<lambda>_.
       Inr url)))"

section \<open>Preview\<close>

definition preview_line :: "(int \<Rightarrow> string) \<Rightarrow> (outbox_row \<Rightarrow> bool) \<Rightarrow> outbox_row \<Rightarrow> json" where
  "preview_line rfc3339 consumed r =
     JObj [(''consumed'', JBool (consumed r)), (''created_at'', JStr (rfc3339 (row_created_at r))),
           (''headers'', row_headers r), (''id'', JInt (row_id r)), (''outbox_name'', JStr (row_outbox r)),
           (''payload'', row_payload r)]"

definition negative_limit_error :: pg_error where
  "negative_limit_error = \<lparr> sqlstate = Some ''2201W'', pg_text = ''LIMIT must not be negative'' \<rparr>"

definition preview_rows :: "string \<Rightarrow> int \<Rightarrow> int \<Rightarrow> int \<Rightarrow> tide_db \<Rightarrow> pg_error + outbox_row list" where
  "preview_rows ob f t limit db =
     (if limit < 0 then Inl negative_limit_error
      else Inr (take (nat limit)
        (sort_key row_id (filter (\<lambda>r. row_outbox r = ob \<and> f \<le> row_id r \<and> row_id r \<le> t) (outbox_messages db)))))"

text \<open>The lines on standard output and the count on standard error.\<close>

definition run_replay_preview ::
    "(int \<Rightarrow> string) \<Rightarrow> (outbox_row \<Rightarrow> bool) \<Rightarrow> relay_error option \<Rightarrow> pg_error option \<Rightarrow> string \<Rightarrow> int \<Rightarrow> int \<Rightarrow> int \<Rightarrow>
       tide_db \<Rightarrow> relay_error + json list \<times> string" where
  "run_replay_preview rfc3339 consumed conn fault ob f t limit db =
     and_then (case conn of None \<Rightarrow> Inr () | Some e \<Rightarrow> Inl e) (\<lambda>_.
     and_then (stmt fault) (\<lambda>_.
     and_then (map_err Postgres (preview_rows ob f t limit db)) (\<lambda>rows.
       Inr (map (preview_line rfc3339 consumed) rows,
            show_nat (length rows) @ '' message(s) previewed from outbox '' @ quoted ob))))"

section \<open>Dead letters\<close>

record letter =
  lt_id :: int
  lt_pipeline :: string
  lt_key :: string
  lt_payload :: json
  lt_attempts :: int
  lt_resolved :: bool
  lt_resolved_by :: "string option"

text \<open>The columns of the table, those that are NOT NULL without a default, its rows and its sequence.\<close>

record letter_table =
  lb_columns :: "string list"
  lb_required :: "string list"
  lb_rows :: "letter list"
  lb_next :: int

definition double_quoted :: "string \<Rightarrow> string" where
  "double_quoted s = [CHR 0x22] @ s @ [CHR 0x22]"

definition undefined_column :: "string \<Rightarrow> pg_error" where
  "undefined_column c =
     \<lparr> sqlstate = Some ''42703'',
       pg_text = ''column '' @ double_quoted c @ '' of relation '' @ double_quoted ''relay_dlq'' @ '' does not exist'' \<rparr>"

definition null_column :: "string \<Rightarrow> pg_error" where
  "null_column c =
     \<lparr> sqlstate = Some ''23502'',
       pg_text = ''null value in column '' @ double_quoted c @ '' of relation '' @ double_quoted ''relay_dlq''
         @ '' violates not-null constraint'' \<rparr>"

definition duplicate_letter :: pg_error where
  "duplicate_letter =
     \<lparr> sqlstate = Some ''23505'',
       pg_text = ''duplicate key value violates unique constraint '' @ double_quoted ''uq_relay_dlq_pipeline_dedup'' \<rparr>"

definition names_column :: "letter_table \<Rightarrow> string list \<Rightarrow> pg_error + unit" where
  "names_column t cols =
     (case List.find (\<lambda>c. c \<notin> set (lb_columns t)) cols of None \<Rightarrow> Inr () | Some c \<Rightarrow> Inl (undefined_column c))"

definition is_letter :: "string \<Rightarrow> string \<Rightarrow> bool \<Rightarrow> letter \<Rightarrow> bool" where
  "is_letter p k done l \<longleftrightarrow> lt_pipeline l = p \<and> lt_key l = k \<and> lt_resolved l = done"

definition update_letters ::
    "string list \<Rightarrow> (letter \<Rightarrow> bool) \<Rightarrow> (letter \<Rightarrow> letter) \<Rightarrow> letter_table \<Rightarrow> pg_error + nat \<times> letter_table" where
  "update_letters cols sel f t =
     and_then (names_column t cols) (\<lambda>_.
       Inr (length (filter sel (lb_rows t)), t\<lparr>lb_rows := map (\<lambda>l. if sel l then f l else l) (lb_rows t)\<rparr>))"

fun newest :: "letter list \<Rightarrow> letter option" where
  "newest [] = None"
| "newest (l # ls) = (case newest ls of None \<Rightarrow> Some l | Some m \<Rightarrow> if lt_id m < lt_id l then Some l else Some m)"

text \<open>The insert of the row built from a selected letter, under the index of unresolved letters.\<close>

definition insert_letter :: "string list \<Rightarrow> letter option \<Rightarrow> letter_table \<Rightarrow> pg_error + letter_table" where
  "insert_letter cols selected t =
     and_then (names_column t cols) (\<lambda>_.
       case selected of
         None \<Rightarrow> Inr t
       | Some l \<Rightarrow>
           (case List.find (\<lambda>c. c \<notin> set cols) (lb_required t) of
              Some c \<Rightarrow> Inl (null_column c)
            | None \<Rightarrow>
                (if list_ex (is_letter (lt_pipeline l) (lt_key l) False) (lb_rows t) then Inl duplicate_letter
                 else Inr (t\<lparr>lb_rows := lb_rows t @ [l\<lparr>lt_id := lb_next t\<rparr>], lb_next := lb_next t + 1\<rparr>))))"

record letter_fate =
  lf_connection :: "relay_error option"
  lf_begin :: "pg_error option"
  lf_update :: "pg_error option"
  lf_rollback :: "pg_error option"
  lf_insert :: "pg_error option"
  lf_commit :: "pg_error option"

definition connected :: "letter_fate \<Rightarrow> relay_error + unit" where
  "connected fate = (case lf_connection fate of None \<Rightarrow> Inr () | Some e \<Rightarrow> Inl e)"

definition letter_text :: "string \<Rightarrow> string \<Rightarrow> string" where
  "letter_text p k = ''pipeline='' @ quoted p @ '' dedup_key='' @ quoted k"

definition no_active_text :: "string \<Rightarrow> string \<Rightarrow> string" where
  "no_active_text p k = ''warning: no active DLQ entry found for '' @ letter_text p k"

definition run_dlq_resolve ::
    "letter_fate \<Rightarrow> string \<Rightarrow> string \<Rightarrow> string \<Rightarrow> letter_table \<Rightarrow> (relay_error + string) \<times> letter_table" where
  "run_dlq_resolve fate user p k t =
     (case and_then (connected fate) (\<lambda>_. and_then (stmt (lf_update fate)) (\<lambda>_.
             map_err Postgres (update_letters [''resolved'', ''resolved_at'', ''resolved_by''] (is_letter p k False)
               (\<lambda>l. l\<lparr>lt_resolved := True, lt_resolved_by := Some user\<rparr>) t))) of
        Inl e \<Rightarrow> (Inl e, t)
      | Inr (updated, t') \<Rightarrow>
          (Inr (if updated = 0 then no_active_text p k else ''DLQ entry resolved: '' @ letter_text p k), t'))"

text \<open>The transaction of a requeue: the table it commits, \<open>None\<close> when there was no active letter.\<close>

definition requeue_statements ::
    "letter_fate \<Rightarrow> string \<Rightarrow> string \<Rightarrow> string \<Rightarrow> letter_table \<Rightarrow> relay_error + letter_table option" where
  "requeue_statements fate user p k t =
     and_then (stmt (lf_begin fate)) (\<lambda>_.
     and_then (stmt (lf_update fate)) (\<lambda>_.
     and_then (map_err Postgres (update_letters [''resolved'', ''resolved_at'', ''resolved_by'', ''attempt_count''] (is_letter p k False)
       (\<lambda>l. l\<lparr>lt_resolved := True, lt_resolved_by := Some (user @ '' (requeue)''), lt_attempts := 0\<rparr>) t)) (\<lambda>(updated, t1).
     if updated = 0 then and_then (stmt (lf_rollback fate)) (\<lambda>_. Inr None)
     else
     and_then (stmt (lf_insert fate)) (\<lambda>_.
     and_then (map_err Postgres (insert_letter [''pipeline_name'', ''dedup_key'', ''payload'', ''attempt_count'', ''resolved'']
       (map_option (\<lambda>l. \<lparr> lt_id = 0, lt_pipeline = lt_pipeline l, lt_key = lt_key l, lt_payload = lt_payload l,
            lt_attempts = 0, lt_resolved = False, lt_resolved_by = None \<rparr>)
         (newest (filter (is_letter p k True) (lb_rows t1)))) t1)) (\<lambda>t2.
     and_then (stmt (lf_commit fate)) (\<lambda>_. Inr (Some t2)))))))"

definition run_dlq_requeue ::
    "letter_fate \<Rightarrow> string \<Rightarrow> string \<Rightarrow> string \<Rightarrow> letter_table \<Rightarrow> (relay_error + string) \<times> letter_table" where
  "run_dlq_requeue fate user p k t =
     (case and_then (connected fate) (\<lambda>_. requeue_statements fate user p k t) of
        Inl e \<Rightarrow> (Inl e, t)
      | Inr None \<Rightarrow> (Inr (no_active_text p k), t)
      | Inr (Some t') \<Rightarrow> (Inr (''DLQ entry requeued: '' @ letter_text p k), t'))"

text \<open>
  The table as \<open>sql/pg_tide--0.6.0--0.7.0.sql\<close> creates it, which every later script keeps, and as
  \<open>sql/pg_tide--0.13.0--0.14.0.sql\<close> would create it if it did not exist.  The relay's own insert
  (\<open>dlq.rs\<close>) names the columns of \<open>relay_insert_columns\<close>.
\<close>

definition catalog_letters :: "letter list \<Rightarrow> int \<Rightarrow> letter_table" where
  "catalog_letters rows n =
     \<lparr> lb_columns = [''id'', ''relay_mode'', ''pipeline_name'', ''source_name'', ''sink_name'', ''dedup_key'', ''subject'',
         ''payload'', ''error_message'', ''error_kind'', ''attempt_count'', ''first_failed_at'', ''last_failed_at'',
         ''retried_at'', ''resolved''],
       lb_required = [''relay_mode'', ''pipeline_name'', ''source_name'', ''sink_name'', ''dedup_key'', ''payload'',
         ''error_message'', ''error_kind''],
       lb_rows = rows, lb_next = n \<rparr>"

definition later_letters :: "letter list \<Rightarrow> int \<Rightarrow> letter_table" where
  "later_letters rows n =
     \<lparr> lb_columns = [''id'', ''pipeline_name'', ''dedup_key'', ''payload'', ''error_message'', ''attempt_count'',
         ''created_at'', ''resolved'', ''resolved_at'', ''resolved_by''],
       lb_required = [''pipeline_name''], lb_rows = rows, lb_next = n \<rparr>"

definition relay_insert_columns :: "string list" where
  "relay_insert_columns =
     [''relay_mode'', ''pipeline_name'', ''source_name'', ''sink_name'', ''dedup_key'', ''subject'', ''payload'',
      ''error_message'', ''error_kind'']"

section \<open>Replay\<close>

text \<open>\<open>run_replay_execute\<close>: the line it prints for the checkpoints \<open>run_replay_once\<close> returned.\<close>

definition replay_complete :: "string \<Rightarrow> replay_range \<Rightarrow> int \<times> int \<Rightarrow> string" where
  "replay_complete p r c =
     ''bounded replay complete: pipeline='' @ quoted p @ '' from_id='' @ show_int (rg_from r) @ '' to_id='' @ show_int (rg_to r)
     @ '' batch_size='' @ show_int (rg_batch r) @ '' live_checkpoint='' @ show_int (fst c) @ '' -> '' @ show_int (snd c)"

definition run_replay_execute ::
    "('env \<Rightarrow> relay_message list \<Rightarrow> 's \<Rightarrow> 's \<times> (relay_error + unit)) \<Rightarrow> schema_env \<Rightarrow> (string \<Rightarrow> string option) \<Rightarrow>
       replay_fate \<Rightarrow> string \<Rightarrow> replay_range \<Rightarrow> string \<Rightarrow> relay_error + 's \<Rightarrow> 'env iter_env list \<Rightarrow> tide_db \<Rightarrow>
       tide_db \<times> (relay_error + string) option" where
  "run_replay_execute publish schema set_role fate p r sink_name sink envs db =
     (case run_replay_once publish schema set_role fate p (rg_from r) (rg_to r) (rg_batch r) sink_name sink envs db of
        (db', res) \<Rightarrow> (db', map_option (\<lambda>x. and_then x (\<lambda>c. Inr (replay_complete p r c))) res))"

section \<open>Lemmas\<close>

text \<open>The command and the coordinator accept the same ranges.\<close>

lemma range_accepted_twice:
  "(\<exists>r. validate_replay_range f t b = Inr r) \<longleftrightarrow> 0 \<le> f \<and> f \<le> t \<and> 1 \<le> b \<and> b \<le> 10000"
  by (auto simp: validate_replay_range_def)

lemma preview_is_bounded:
  assumes "preview_rows ob f t limit db = Inr rows"
  shows "int (length rows) \<le> limit" and "sorted (map row_id rows)"
    and "set rows \<subseteq> set (outbox_messages db)" and "\<forall>r \<in> set rows. row_outbox r = ob \<and> f \<le> row_id r \<and> row_id r \<le> t"
  using assms set_take_subset [of "nat limit"]
  by (fastforce simp: preview_rows_def sorted_wrt_take take_map [symmetric] split: if_splits)+

lemma update_letters_missing:
  "c \<in> set cols \<Longrightarrow> c \<notin> set (lb_columns t) \<Longrightarrow> \<exists>e. update_letters cols sel f t = Inl e"
  by (cases "List.find (\<lambda>c. c \<notin> set (lb_columns t)) cols") (auto simp: update_letters_def names_column_def find_None_iff)

lemma newest_in: "newest ls = Some m \<Longrightarrow> m \<in> set ls"
  by (induction ls arbitrary: m) (auto split: option.splits if_splits)

lemma newest_None: "newest ls = None \<longleftrightarrow> ls = []"
  by (cases ls) (auto split: option.splits)

lemma newest_max: "newest ls = Some m \<Longrightarrow> l \<in> set ls \<Longrightarrow> lt_id l \<le> lt_id m"
proof (induction ls arbitrary: m)
  case (Cons a ls)
  show ?case
  proof (cases "newest ls")
    case None
    with Cons.prems show ?thesis by (simp add: newest_None)
  next
    case (Some x)
    with Cons.IH [of x] Cons.prems show ?thesis by (auto split: if_splits)
  qed
qed simp

lemma no_match: "filter P xs = [] \<Longrightarrow> \<not> list_ex P xs"
  by (induction xs) (auto split: if_splits)

text \<open>On a table with the columns both statements name, a requeue leaves one unresolved copy.\<close>

definition letters_distinct :: "letter_table \<Rightarrow> bool" where
  "letters_distinct t \<longleftrightarrow> distinct (map lt_id (lb_rows t)) \<and> (\<forall>l \<in> set (lb_rows t). lt_id l < lb_next t)"

lemma requeue_leaves_one_letter:
  assumes "t = later_letters rows n" and "letters_distinct t"
    and "fate = \<lparr> lf_connection = None, lf_begin = None, lf_update = None, lf_rollback = None, lf_insert = None, lf_commit = None \<rparr>"
    and "l \<in> set rows" and "is_letter p k False l"
    and "\<forall>x \<in> set rows. lt_pipeline x = p \<and> lt_key x = k \<longrightarrow> lt_id x \<le> lt_id l"
  shows "\<exists>t' new. run_dlq_requeue fate user p k t = (Inr (''DLQ entry requeued: '' @ letter_text p k), t')
    \<and> filter (is_letter p k False) (lb_rows t') = [new] \<and> lt_payload new = lt_payload l \<and> lt_id new = n
    \<and> filter (\<lambda>x. \<not> (lt_pipeline x = p \<and> lt_key x = k)) (lb_rows t') = filter (\<lambda>x. \<not> (lt_pipeline x = p \<and> lt_key x = k)) rows"
proof -
  let ?f = "\<lambda>l. l\<lparr>lt_resolved := True, lt_resolved_by := Some (user @ '' (requeue)''), lt_attempts := 0\<rparr>"
  let ?rows = "map (\<lambda>l. if is_letter p k False l then ?f l else l) rows"
  have none: "filter (is_letter p k False) ?rows = []" by (induction rows) (simp_all add: is_letter_def)
  have old: "filter (\<lambda>x. \<not> (lt_pipeline x = p \<and> lt_key x = k)) ?rows = filter (\<lambda>x. \<not> (lt_pipeline x = p \<and> lt_key x = k)) rows"
    by (induction rows) (simp_all add: is_letter_def)
  have "?f l \<in> set ?rows" using imageI [OF assms(4), of "\<lambda>l. if is_letter p k False l then ?f l else l"] assms(5) by simp
  moreover have "is_letter p k True (?f l)" using assms(5) by (simp add: is_letter_def)
  ultimately have f: "?f l \<in> set (filter (is_letter p k True) ?rows)" by simp
  then have "filter (is_letter p k True) ?rows \<noteq> []" by (rule_tac notI) simp
  then obtain m where m0: "newest (filter (is_letter p k True) ?rows) = Some m"
    using newest_None by blast
  with newest_max [OF m0 f] have m: "newest (filter (is_letter p k True) ?rows) = Some m" "lt_id l \<le> lt_id m" by simp_all
  have key: "m \<in> set ?rows" "lt_pipeline m = p" "lt_key m = k" using newest_in [OF m(1)] by (auto simp: is_letter_def)
  then obtain l0 where l0: "l0 \<in> set rows" "lt_id m = lt_id l0" "lt_payload m = lt_payload l0" "lt_pipeline l0 = p" "lt_key l0 = k"
    by (auto split: if_splits)
  with m(2) assms(6) have "lt_id l0 = lt_id l" by force
  moreover have "distinct (map lt_id rows)" using assms(1,2) by (simp add: letters_distinct_def later_letters_def)
  ultimately have "l0 = l" using l0(1) assms(4) by (metis distinct_map inj_onD)
  with l0 have pay: "lt_payload m = lt_payload l" by simp
  have some: "0 < length (filter (is_letter p k False) rows)" using assms(4,5) by (auto simp: filter_empty_conv)
  have dup: "\<not> list_ex (is_letter p k False) ?rows" by (rule no_match [OF none])
  let ?new = "\<lparr> lt_id = n, lt_pipeline = p, lt_key = k, lt_payload = lt_payload l, lt_attempts = 0, lt_resolved = False, lt_resolved_by = None \<rparr>"
  have "requeue_statements fate user p k t = Inr (Some ((later_letters (?rows @ [?new]) (n + 1))))"
    using m(1) key pay some dup assms(1,3)
    by (simp add: requeue_statements_def stmt_def update_letters_def insert_letter_def names_column_def later_letters_def)
  moreover have "filter (is_letter p k False) (?rows @ [?new]) = [?new]" using none by (simp add: is_letter_def)
  ultimately show ?thesis using old assms(3)
    by (simp add: run_dlq_requeue_def connected_def later_letters_def)
qed

section \<open>Properties\<close>

text \<open>
  C31: On the table that the extension's scripts create, resolving or requeueing a dead letter always
  ends in an error and changes nothing: both name columns that only a later \<open>CREATE TABLE IF NOT
  EXISTS\<close> has, which finds the table present.  On the table of that statement the relay's own insert
  of a dead letter would be refused, so no shipped table serves both.
\<close>

theorem dlq_commands_fail_on_catalog:
  "(\<exists>e. run_dlq_resolve fate user p k (catalog_letters rows n) = (Inl e, catalog_letters rows n))
   \<and> (\<exists>e. run_dlq_requeue fate user p k (catalog_letters rows n) = (Inl e, catalog_letters rows n))
   \<and> names_column (catalog_letters rows n) relay_insert_columns = Inr ()
   \<and> names_column (later_letters rows n) relay_insert_columns \<noteq> Inr ()"
proof -
  let ?t = "catalog_letters rows n"
  have missing: "''resolved_at'' \<notin> set (lb_columns ?t)" by (simp add: catalog_letters_def)
  have "\<exists>e. run_dlq_resolve fate user p k ?t = (Inl e, ?t)"
  proof -
    obtain e where "update_letters [''resolved'', ''resolved_at'', ''resolved_by''] (is_letter p k False)
        (\<lambda>l. l\<lparr>lt_resolved := True, lt_resolved_by := Some user\<rparr>) ?t = Inl e"
      using update_letters_missing [OF _ missing] by (meson list.set_intros)
    then show ?thesis
      by (cases "connected fate"; cases "stmt (lf_update fate)") (simp_all add: run_dlq_resolve_def)
  qed
  moreover have "\<exists>e. run_dlq_requeue fate user p k ?t = (Inl e, ?t)"
  proof -
    obtain e where "update_letters [''resolved'', ''resolved_at'', ''resolved_by'', ''attempt_count''] (is_letter p k False)
        (\<lambda>l. l\<lparr>lt_resolved := True, lt_resolved_by := Some (user @ '' (requeue)''), lt_attempts := 0\<rparr>) ?t = Inl e"
      using update_letters_missing [OF _ missing] by (meson list.set_intros)
    then show ?thesis
      by (cases "connected fate"; cases "stmt (lf_begin fate)"; cases "stmt (lf_update fate)")
        (simp_all add: run_dlq_requeue_def requeue_statements_def)
  qed
  moreover have "names_column ?t relay_insert_columns = Inr ()"
    by (simp add: names_column_def catalog_letters_def relay_insert_columns_def)
  moreover have "names_column (later_letters rows n) relay_insert_columns \<noteq> Inr ()"
    by (simp add: names_column_def later_letters_def relay_insert_columns_def)
  ultimately show ?thesis by blast
qed

end
