(* ===== verification/Status_Text.thy ===== *)
theory Status_Text
  imports Status_Report Inbox Operator_Errors
begin

text \<open>
  The text of \<open>pg-tide status\<close> (\<open>pg-tide-relay/src/cmd/status.rs\<close>): the table of the pipelines over the
  rows of \<open>Status_Report\<close>, and the summary of the inboxes over what the extension's \<open>inbox_status\<close>
  answers.  The fallback query for catalogs without the status view is not modelled.
\<close>

section \<open>Columns\<close>

text \<open>\<open>{:<n}\<close>: filled with blanks up to n characters; \<open>Value<T>\<close> fills only a known value.\<close>

definition pad_right :: "nat \<Rightarrow> string \<Rightarrow> string" where
  "pad_right n s = s @ replicate (n - n_chars s) (CHR '' '')"

datatype status_value = Known string | Unknown | Stale

definition status_value_of :: "('a \<Rightarrow> string) \<Rightarrow> 'a option \<Rightarrow> status_value" where
  "status_value_of f v = (case v of None \<Rightarrow> Unknown | Some a \<Rightarrow> Known (f a))"

fun show_status_value :: "status_value \<Rightarrow> string" where
  "show_status_value (Known s) = s"
| "show_status_value Unknown = ''unknown''"
| "show_status_value Stale = ''stale''"

fun show_padded :: "nat \<Rightarrow> status_value \<Rightarrow> string" where
  "show_padded n (Known s) = pad_right n s"
| "show_padded n v = show_status_value v"

definition in_columns :: "string list \<Rightarrow> string" where
  "in_columns cs = concat (case cs of [] \<Rightarrow> [] | c # ds \<Rightarrow> c # map (\<lambda>d. CHR '' '' # d) ds)"

section \<open>The table of the pipelines\<close>

definition older_than_5_minutes :: "int \<Rightarrow> int option \<Rightarrow> bool" where
  "older_than_5_minutes now at_time = (case at_time of None \<Rightarrow> False | Some t \<Rightarrow> minutes 5 < now - t)"

definition retry_value :: "int \<Rightarrow> status_view_row \<Rightarrow> status_value" where
  "retry_value now r =
     (case sv_retry_attempt r of
        None \<Rightarrow> Unknown
      | Some n \<Rightarrow> if older_than_5_minutes now (sv_state_update_at r) then Stale else Known (show_int n))"

definition success_value :: "(int \<Rightarrow> string) \<Rightarrow> int \<Rightarrow> status_view_row \<Rightarrow> status_value" where
  "success_value rfc3339 now r =
     (case sv_checkpoint_success_at r of
        None \<Rightarrow> Unknown
      | Some t \<Rightarrow> if older_than_5_minutes now (Some t) then Stale else Known (rfc3339 t))"

definition row_lines :: "(int \<Rightarrow> string) \<Rightarrow> int \<Rightarrow> status_view_row \<Rightarrow> string list" where
  "row_lines rfc3339 now r =
     [in_columns
        [pad_right 30 (sv_pipeline_id r), pad_right 10 (sv_direction r),
         pad_right 8 (if sv_enabled r then ''yes'' else ''no''),
         show_padded 14 (status_value_of show_int (sv_last_offset r)),
         show_padded 14 (if sv_direction r = ''forward'' then status_value_of show_int (sv_consumer_lag r) else Unknown)],
      ''  ownership='' @ sv_ownership r @ '' health='' @ sv_health r
        @ '' success='' @ show_status_value (success_value rfc3339 now r)
        @ '' error='' @ unwrap_or (sv_error_code r) ''none'' @ '' class='' @ unwrap_or (sv_error_class r) ''unknown''
        @ '' error_at='' @ show_status_value (status_value_of rfc3339 (sv_error_at r))
        @ '' retry='' @ show_status_value (retry_value now r) @ '' dlq='' @ show_int (sv_dlq_depth r)]"

definition render_rows :: "(int \<Rightarrow> string) \<Rightarrow> int \<Rightarrow> status_view_row list \<Rightarrow> string list" where
  "render_rows rfc3339 now rows =
     (if rows = [] then [''No pipelines configured.'']
      else [in_columns [pad_right 30 ''PIPELINE'', pad_right 10 ''DIRECTION'', pad_right 8 ''ENABLED'',
                        pad_right 14 ''OFFSET'', pad_right 14 ''LAG''],
            replicate 80 (CHR ''-'')]
        @ concat (map (row_lines rfc3339 now) rows)
        @ [CHR 0x0A # show_nat (length rows) @ '' pipeline(s) configured.''])"

section \<open>The summary of the inboxes\<close>

text \<open>
  A result row by column names.  A column that is absent, of another type or NULL is read as its
  default.
\<close>

datatype sql_column = ColText string | ColInt int | ColTime "int option" | ColJson json

type_synonym sql_row = "(string \<times> sql_column) list"

definition text_column :: "sql_row \<Rightarrow> string \<Rightarrow> string" where
  "text_column r k = (case map_of r k of Some (ColText s) \<Rightarrow> s | _ \<Rightarrow> [])"

definition int_column :: "sql_row \<Rightarrow> string \<Rightarrow> int" where
  "int_column r k = (case map_of r k of Some (ColInt i) \<Rightarrow> i | _ \<Rightarrow> 0)"

definition time_column :: "sql_row \<Rightarrow> string \<Rightarrow> int option" where
  "time_column r k = (case map_of r k of Some (ColTime t) \<Rightarrow> t | _ \<Rightarrow> None)"

text \<open>
  \<open>SELECT * FROM tide.inbox_status(NULL)\<close>: a function that returns one JSONB value gives one row, whose
  only column is named like the function.  \<open>Inl\<close> is the text of the driver's error.
\<close>

definition inbox_status_rows :: "(pg_error \<Rightarrow> string) \<Rightarrow> pg_tide_error + json \<Rightarrow> string + sql_row list" where
  "inbox_status_rows driver_text answer =
     (case answer of
        Inl e \<Rightarrow> Inl (driver_text (raised e))
      | Inr j \<Rightarrow> Inr [[(''inbox_status'', ColJson j)]])"

definition fleet_line :: "(int \<Rightarrow> string) \<Rightarrow> sql_row \<Rightarrow> string" where
  "fleet_line show_utc r =
     in_columns
       [pad_right 30 (text_column r ''inbox_name''), pad_right 12 (show_int (int_column r ''total_messages'')),
        pad_right 12 (show_int (int_column r ''pending_messages'')),
        pad_right 28 (case time_column r ''last_processed_at'' of Some t \<Rightarrow> show_utc t | None \<Rightarrow> [CHR 0xE2, CHR 0x80, CHR 0x94])]"

definition fleet_heading :: "string list" where
  "fleet_heading =
     [CHR 0x0A # in_columns [pad_right 30 ''INBOX'', pad_right 12 ''TOTAL'', pad_right 12 ''PENDING'', pad_right 28 ''LAST_PROCESSED''],
      replicate 86 (CHR ''-'')]"

text \<open>\<open>has_function\<close>: the answer of the first query, a failing one as \<open>False\<close>.\<close>

definition inbox_fleet_summary :: "(int \<Rightarrow> string) \<Rightarrow> bool \<Rightarrow> string + sql_row list \<Rightarrow> string list" where
  "inbox_fleet_summary show_utc has_function rows =
     (if \<not> has_function then [CHR 0x0A # ''[inbox fleet] tide.inbox_status() not available (requires v0.14.0+)'']
      else case rows of
             Inl e \<Rightarrow> [CHR 0x0A # ''[inbox fleet] Error: '' @ e]
           | Inr [] \<Rightarrow> [CHR 0x0A # ''No inboxes configured.'']
           | Inr rs \<Rightarrow> fleet_heading @ map (fleet_line show_utc) rs
               @ [CHR 0x0A # show_nat (length rs) @ '' inbox(es) in fleet summary.''])"

section \<open>The command\<close>

text \<open>The lines printed or the JSON envelope; the summary is printed in text mode only.\<close>

definition run_status ::
    "status_env \<Rightarrow> string \<Rightarrow> string \<Rightarrow> bool \<Rightarrow> bool \<Rightarrow> string list \<Rightarrow> tide_db \<Rightarrow> status_row list \<Rightarrow> string + (string list + json)" where
  "run_status env relay_version observed_at json_output inbox_summary fleet db st =
     and_then (map_err (\<lambda>e. ''connection failed: '' @ e) (se_connect env)) (\<lambda>_.
     and_then (map_err show_relay_error (check_client (se_version env) relay_version)) (\<lambda>d.
     and_then (query_rows env db st) (\<lambda>rows.
       Inr (if json_output
            then Inr (output_envelope ''status'' observed_at (Inr (status_data (se_rfc3339 env) (se_now env) d rows)))
            else Inl ([''Compatibility: relay='' @ cd_relay_version d @ '' extension='' @ cd_extension_version d
                         @ '' policy='' @ cd_policy_version d @ '' class='' @ cd_compatibility_class d]
                      @ render_rows (se_rfc3339 env) (se_now env) rows @ (if inbox_summary then fleet else []))))))"

section \<open>What the text says\<close>

lemma text_and_json_agree:
  "(\<exists>ls. run_status env rv at_time False summary fleet db st = Inr (Inl ls)) \<longleftrightarrow> is_ok (collect_status env rv db st)"
  by (cases "se_connect env"; cases "check_client (se_version env) rv"; cases "query_rows env db st")
    (simp_all add: run_status_def collect_status_def)

lemma table_has_two_lines_per_row:
  "rows \<noteq> [] \<Longrightarrow> length (render_rows f now rows) = 2 * length rows + 3"
  by (induction rows rule: list_nonempty_induct)
    (simp_all add: render_rows_def row_lines_def)

text \<open>
  Whatever inboxes there are and whatever waits in them, a successful summary is one line without a
  name and with zero messages: the columns it reads are not those of the answer.
\<close>

lemma fleet_summary_is_blank:
  assumes "inbox_fleet_status f missing d = Inr j"
  shows "inbox_fleet_summary show_utc True (inbox_status_rows driver_text (inbox_fleet_status f missing d))
    = fleet_heading
      @ [in_columns [pad_right 30 [], pad_right 12 ''0'', pad_right 12 ''0'', pad_right 28 [CHR 0xE2, CHR 0x80, CHR 0x94]]]
      @ [CHR 0x0A # ''1 inbox(es) in fleet summary.'']"
proof -
  have "show_nat 1 = ''1''" "show_int 0 = ''0''" by code_simp+
  with assms show ?thesis
    by (simp add: inbox_fleet_summary_def inbox_status_rows_def fleet_line_def text_column_def int_column_def time_column_def)
qed

end
