(* ===== verification/Templates.thy ===== *)
theory Templates
  imports Tide_Db
begin

text \<open>
  \<open>pg-tide-ext/src/template.rs\<close>: the list of the pipeline templates and one template by its name.
  The table \<open>tide.relay_pipeline_templates\<close> is keyed by the name; times are microseconds and their
  text is an argument.
\<close>

record template_row =
  tp_config :: json
  tp_description :: string
  tp_required_keys :: json
  tp_created_at :: int
  tp_updated_at :: int

definition template_summary :: "(int \<Rightarrow> string) \<Rightarrow> string \<times> template_row \<Rightarrow> json" where
  "template_summary show_time nt =
     (case nt of (name, t) \<Rightarrow>
        JObj [(''description'', JStr (tp_description t)), (''name'', JStr name),
              (''required_keys'', tp_required_keys t), (''updated_at'', JStr (show_time (tp_updated_at t)))])"

definition relay_template_list :: "spi_fate \<Rightarrow> (int \<Rightarrow> string) \<Rightarrow> (string \<times> template_row) list \<Rightarrow> pg_tide_error + json" where
  "relay_template_list fate show_time ts =
     and_then (spi fate 0 ''relay_template_list SPI error: '') (\<lambda>_.
       Inr (JArr (map (template_summary show_time) (sort_key fst ts))))"

definition relay_template_get ::
    "spi_fate \<Rightarrow> (int \<Rightarrow> string) \<Rightarrow> string \<Rightarrow> (string \<times> template_row) list \<Rightarrow> pg_tide_error + json option" where
  "relay_template_get fate show_time name ts =
     and_then (spi fate 0 ''relay_template_get SPI error: '') (\<lambda>_.
       Inr (map_option (\<lambda>t.
         JObj [(''config'', tp_config t), (''created_at'', JStr (show_time (tp_created_at t))),
               (''description'', JStr (tp_description t)), (''name'', JStr name), (''required_keys'', tp_required_keys t),
               (''updated_at'', JStr (show_time (tp_updated_at t)))]) (map_of ts name)))"

text \<open>Every listed name can be fetched, with the fields of its entry, and no other name.\<close>

lemma list_and_get_agree:
  assumes "distinct (map fst ts)" and "fate 0 = None"
    and "relay_template_list fate show_time ts = Inr (JArr es)"
    and "relay_template_get fate show_time name ts = Inr r"
  shows "r \<noteq> None \<longleftrightarrow> (\<exists>e \<in> set es. json_get e ''name'' = Some (JStr name))"
    and "r = Some v \<Longrightarrow> \<exists>e \<in> set es. json_get e ''name'' = Some (JStr name)
      \<and> json_get e ''required_keys'' = json_get v ''required_keys'' \<and> json_get e ''description'' = json_get v ''description''"
proof -
  have es: "set es = template_summary show_time ` set ts" using assms(2,3) by (auto simp: relay_template_list_def)
  have some: "(name, t) \<in> set ts \<longleftrightarrow> map_of ts name = Some t" for t
    using assms(1) by (auto intro: map_of_is_SomeI dest: map_of_SomeD)
  have r: "r = None \<longleftrightarrow> map_of ts name = None" using assms(2,4) by (auto simp: relay_template_get_def)
  have "(\<exists>e \<in> set es. json_get e ''name'' = Some (JStr name)) \<longleftrightarrow> (\<exists>t. (name, t) \<in> set ts)"
    by (auto simp: es template_summary_def split: prod.splits)
  then show "r \<noteq> None \<longleftrightarrow> (\<exists>e \<in> set es. json_get e ''name'' = Some (JStr name))" using r some by auto
  assume "r = Some v"
  then obtain t where t: "map_of ts name = Some t" "json_get v ''required_keys'' = Some (tp_required_keys t)"
    "json_get v ''description'' = Some (JStr (tp_description t))"
    using assms(2,4) by (auto simp: relay_template_get_def)
  with some have "template_summary show_time (name, t) \<in> set es" by (simp add: es)
  with t show "\<exists>e \<in> set es. json_get e ''name'' = Some (JStr name)
      \<and> json_get e ''required_keys'' = json_get v ''required_keys'' \<and> json_get e ''description'' = json_get v ''description''"
    by (intro bexI [of _ "template_summary show_time (name, t)"]) (simp_all add: template_summary_def)
qed

end
