(* ===== verification/Spec2Isabelle.thy ===== *)
theory Spec2Isabelle
  imports Demo_Run Delivery_Integrity Worker_Liveness Relay_Catalog Inbox Secrets
    Relay_Cluster Runtime_Status Replay Poison_Row Compatibility Support_Bundle Sweep_Command
    Admin_Commands Build_Sink Encryption Lifecycle Pg_Tls Process_Config Replay_Command Status_Text Templates
begin

text \<open>
  pg_tide is a transactional outbox for PostgreSQL.  An extension (\<open>pg-tide-ext/src\<close>) keeps
  outboxes, inboxes and the catalog of pipelines in tables of the schema \<open>tide\<close>; applications
  publish rows inside their own transactions.  A relay (\<open>pg-tide-relay/src\<close>) runs one worker per
  enabled pipeline, which polls an outbox, publishes each batch to a sink, records dead letters and
  moves the durable offset; several relays share the pipelines through advisory locks.  The
  retention sweep of the extension deletes rows that every participant has passed.  This library
  models both programs and proves what they promise together.

  \<^bold>\<open>Conventions.\<close>  A fallible operation is a sum (\<open>Inl\<close> the error, \<open>Inr\<close> the value) chained with
  \<open>and_then\<close>, which is the question-mark operator.  Strings are lists of bytes, so \<open>length\<close> is the
  byte length the sources compare.  Integers are \<open>int\<close> with the bounds of their width where a parser or
  a cast checks them, words where they wrap.  Tables are lists of rows or association lists.  A
  statement that may fail takes its failure as an argument, so every theorem over such an argument
  holds for every pattern of failures.  Third-party code (the PostgreSQL server and driver, brokers,
  the HTTP client, TLS, clap, the TOML and URL parsers, \<open>governor\<close>) is an argument of the definition that
  calls it; where a theorem needs its documented behaviour, that is a named hypothesis.

  \<^bold>\<open>Foundations.\<close>  \<open>Tide_Prelude\<close> (results, strings, parsing, shared lemmas), \<open>Json_Value\<close>
  (\<open>serde_json::Value\<close>), \<open>Relay_Error\<close> (\<open>error.rs\<close>), \<open>Ext_Base\<close> (errors and identifier checks of the
  extension), \<open>Envelope\<close> (\<open>envelope.rs\<close>), \<open>Tide_Db\<close> (the tables both programs share and the upsert of
  an offset), \<open>Dlq\<close> (\<open>dlq.rs\<close>).

  \<^bold>\<open>Extension.\<close>  \<open>Outbox\<close> (\<open>outbox.rs\<close>: publishing and its authorisation, consumer groups, leases, the
  sweep), \<open>Inbox\<close> (\<open>inbox.rs\<close>), \<open>Relay_Catalog\<close> (\<open>relay.rs\<close>), \<open>Templates\<close> (\<open>template.rs\<close>), \<open>Lifecycle\<close>
  (\<open>lifecycle.rs\<close> and the coordinator's automatic resume).  Each SQL function is one definition over the tables.

  \<^bold>\<open>Configuration.\<close>  \<open>Descriptors\<close>, \<open>Pipeline_Config\<close> and \<open>Pipeline_Document\<close> (the connector registry and
  the strict pipeline document of \<open>config/schema_support.rs\<close> and \<open>config/preflight.rs\<close>), \<open>Nats_Subject\<close>,
  \<open>Secrets\<close> (\<open>secret.rs\<close> and the masking and resolution of \<open>config/mod.rs\<close>), \<open>Process_Config\<close> (the settings
  of the process), \<open>Pg_Tls\<close> (\<open>pg_tls.rs\<close>), \<open>Encryption\<close> (\<open>encryption.rs\<close>), \<open>Compatibility\<close>
  (\<open>compatibility.rs\<close>).

  \<^bold>\<open>Delivery.\<close>  \<open>Outbox_Source\<close> (the poller) and \<open>Fence\<close> (its fence against transactions that commit out
  of order), \<open>Wire_Format\<close>, \<open>Sinks\<close>, \<open>Http_Guard\<close>, \<open>Webhook\<close> and \<open>Build_Sink\<close> (the destinations and how a
  configuration makes them), \<open>Circuit_Breaker\<close>, \<open>Rate_Limiter\<close>, \<open>Delivery_Model\<close> (the program's own state
  machine of a batch) and \<open>Worker\<close> (the stages \<open>poll_and_decode\<close> to \<open>commit_checkpoint\<close> of
  \<open>coordinator.rs\<close>, their composition \<open>process_batch\<close>, \<open>iteration\<close> and \<open>worker_loop\<close>).  \<open>Replay\<close> runs the
  same worker over a bounded range.

  \<^bold>\<open>Coordination.\<close>  \<open>Coordinator\<close> (loading, ownership, reconciliation, drain), \<open>Health_State\<close>,
  \<open>Runtime_Status\<close> (the task around a worker and its status row), \<open>Relay_Cluster\<close> (several relays).

  \<^bold>\<open>Commands.\<close>  \<open>Operator_Errors\<close> (catalog and diagnostics), \<open>Status_Report\<close>, \<open>Status_Text\<close>, \<open>Doctor\<close>,
  \<open>Support_Bundle\<close>, \<open>Sweep_Command\<close>, \<open>Replay_Command\<close>, \<open>Admin_Commands\<close> (\<open>cmd/\<close>).

  \<^bold>\<open>Interfaces.\<close>  \<open>sink_contract\<close> (what a worker relies on: a successful publish
  leaves the key of every message at the destination, and no publish removes a key or adds one that
  is not of its batch) is interpreted for the inbox, NATS, Kafka, webhook,
  stdout and file sinks; \<open>faithful_sink\<close> extends it to where the items of a destination come from,
  \<open>stable_sink\<close> states an invariant of the destination that publishing keeps; both are interpreted for
  the inbox.  \<open>session_locks\<close> states the laws of session advisory locks for the coordinator,
  \<open>xact_fence\<close> those of transaction locks for the fence; each is interpreted on the model of the server's
  lock table.

  \<^bold>\<open>What the lemmas show.\<close>  \<open>Worker_Safety\<close>: what one iteration may do to the durable state, for any sink
  of the contract.  \<open>Tide_System\<close>: publishing, sweeping, polling, processing, crashing and restarting as
  interleaved steps, and the invariant that a published row is in the table or settled.
  \<open>Delivery_Integrity\<close>: nothing at the destination is made up.  \<open>Worker_Liveness\<close>: without failures
  iterations drain the outbox.  \<open>Poison_Row\<close>: a row that stops its pipeline for good.  This theory holds
  the properties that span components and their witnesses, which evaluate the deployment of
  \<open>Demo_Run\<close>; the other properties stand in the theory of their component.

  \<^bold>\<open>Bounds and termination.\<close>  The loop of a worker runs over a list of environments, one per iteration,
  each with the answers and failures of that iteration; safety holds for every list.  Liveness and
  termination give the length that is enough: one iteration per batch of pending rows, and for a replay
  of a range one per id and one more.  Every other recursion is structural or ends by a measure on its
  input.  Interleavings are inductive step relations without any bound.

  \<^bold>\<open>Not modelled.\<close>  The metrics registry and its exposition (counters of a library); the start of
  the process, tracing, signals and tasks of \<open>main.rs\<close>; the query of the status command for catalogs
  before 0.45; the pgrx entry points of the extension; failpoints (a crash at any point is a step of the system), transforms and
  generators.  \<open>tide.poll_outbox\<close>, which no file of the repository defines, is an argument of the
  consumer-group poll.
\<close>

section \<open>No row is lost\<close>

text \<open>
  C1: In every interleaving of publishing, sweeping, polling, delivering, crashing and restarting, a
  row once published to the outbox of a live pipeline is in the inbox, or is a dead letter of the
  pipeline, or is still in the outbox above the durable offset and above the cursor of the
  running worker, so that it will be polled.
\<close>

theorem outbox_to_inbox_loses_no_row:
  assumes "native_pipeline cfg ob" and "sys_start cfg ob s0" and "sys_reach publish_inbox cfg ob s0 s"
    and "h \<in> set (sy_history s)"
  shows "row_key ob (row_id h) \<in> inbox_holds (w_sink (sy_world s))
    \<or> row_key ob (row_id h) \<in> dead_letters (pipeline_name cfg) (w_db (sy_world s))
    \<or> (h \<in> set (outbox_messages (w_db (sy_world s))) \<and> durable cfg ob (w_db (sy_world s)) < row_id h
       \<and> (sy_running s \<longrightarrow> s_last_offset (w_source (sy_world s)) < row_id h))"
  using inv_no_loss [OF inbox.inv_reach [OF assms(3,1) inv_start [OF assms(2)]] assms(4)] by blast

lemma demo_reach:
  "sys_reach publish_inbox demo_cfg ''orders'' demo_start
     \<lparr> sy_world = demo_done, sy_running = True, sy_flight = None, sy_history = [demo_row] \<rparr>"
proof -
  let ?s1 = "(with_db demo_published demo_start)\<lparr>sy_history := [demo_row]\<rparr>"
  let ?s2 = "\<lparr> sy_world = demo_world, sy_running = True, sy_flight = None, sy_history = [demo_row] \<rparr>"
  have pub: "outbox_publish (\<lambda>_. None) demo_auth 5 ''orders'' (JInt 42) (JObj []) (w_db (sy_world demo_start)) = Inr demo_published"
    using demo_publish by (simp add: demo_start_def start_world_def)
  have "sys_step publish_inbox demo_cfg ''orders'' demo_start ?s1"
    using sys_step.publish_row [OF pub, of publish_inbox demo_cfg "''orders''"]
    by (simp add: demo_start_def demo_published_def)
  moreover have "sys_step publish_inbox demo_cfg ''orders'' ?s1 ?s2"
    using sys_step.restart [of ?s1 "''w1''" demo_cfg demo_source publish_inbox "''orders''"] demo_build_source
    by (simp add: demo_start_def with_db_def demo_world_def start_world_def)
  moreover have "sys_step publish_inbox demo_cfg ''orders'' ?s2
      \<lparr> sy_world = demo_done, sy_running = True, sy_flight = None, sy_history = [demo_row] \<rparr>"
    using sys_step.iterate [of ?s2 publish_inbox demo_cfg demo_env demo_done _ "LoopAgain 0" "''orders''"] demo_iteration
    by (simp add: goes_on_def)
  ultimately show ?thesis by (meson reach_refl reach_step)
qed

lemma demo_starts: "sys_start demo_cfg ''orders'' demo_start"
proof -
  have "names_outbox ''orders'' \<lparr> rc_enabled = True, rc_config = demo_document, rc_tenant = ''default'' \<rparr>"
    by code_simp
  then show ?thesis
    by (auto simp: sys_start_def demo_start_def start_world_def demo_db_def empty_db_def pipeline_name_def)
qed

theorem outbox_to_inbox_loses_no_row_witness:
  "\<exists>s. sys_reach publish_inbox demo_cfg ''orders'' demo_start s \<and> demo_row \<in> set (sy_history s)
     \<and> row_key ''orders'' 1 \<in> inbox_holds (w_sink (sy_world s))"
proof -
  let ?s = "\<lparr> sy_world = demo_done, sy_running = True, sy_flight = None, sy_history = [demo_row] \<rparr>"
  have "row_id demo_row = 1" by (simp add: demo_row_def)
  moreover have "s_last_offset (w_source demo_done) = 1" "dlq_table (w_db demo_done) = []"
    by (simp_all add: demo_done_def demo_published_def demo_db_def empty_db_def)
  ultimately have "row_key ''orders'' 1 \<in> inbox_holds (w_sink demo_done)"
    using outbox_to_inbox_loses_no_row [OF demo_native demo_starts demo_reach, of demo_row]
    by (simp add: dead_letters_def)
  with demo_reach show ?thesis by (intro exI [of _ ?s]) simp
qed

text \<open>
  C3: A retention sweep in a reachable state of a webhook pipeline deletes a row of its outbox only
  when the receiver has taken the row or it is a dead letter: cleanup never overtakes delivery.
\<close>

theorem sweep_spares_undelivered:
  assumes "native_pipeline cfg ob" and "sys_start cfg ob s0" and "sys_reach publish_webhook cfg ob s0 s"
    and "sweep_one f locked now name n dry (w_db (sy_world s)) = Inr (res, db')"
    and "h \<in> set (sy_history s)" and "h \<notin> set (outbox_messages db')"
  shows "row_key ob (row_id h) \<in> webhook_holds (w_sink (sy_world s))
    \<or> row_key ob (row_id h) \<in> dead_letters (pipeline_name cfg) (w_db (sy_world s))"
proof -
  have "sys_reach publish_webhook cfg ob s0 (with_db db' s)"
    using assms(3) sys_step.sweep [OF assms(4)] by (rule reach_step)
  from inv_no_loss(1) [OF webhook.inv_reach [OF this assms(1) inv_start [OF assms(2)]], of h] assms(5,6)
  show ?thesis using sweep_one_effect(2) [OF assms(4)] by (auto simp: dead_letters_def)
qed

lemma demo_sweep: "is_ok (sweep_one (\<lambda>_. None) (\<lambda>_. False) 0 ''orders'' 10 False demo_published)"
  by code_simp

theorem sweep_spares_undelivered_witness:
  "\<exists>db'. (\<exists>res. sweep_one (\<lambda>_. None) (\<lambda>_. False) 0 ''orders'' 10 False demo_published = Inr (res, db'))
     \<and> demo_row \<in> set (outbox_messages db')"
proof -
  define s0 :: "request list system" where "s0 = \<lparr> sy_world = start_world demo_cfg demo_source demo_db [],
     sy_running = False, sy_flight = None, sy_history = [] \<rparr>"
  define s where "s = (with_db demo_published s0)\<lparr>sy_history := [demo_row]\<rparr>"
  have start: "sys_start demo_cfg ''orders'' s0"
    using demo_starts by (simp add: sys_start_def demo_start_def start_world_def s0_def)
  have pub: "outbox_publish (\<lambda>_. None) demo_auth 5 ''orders'' (JInt 42) (JObj []) (w_db (sy_world s0)) = Inr demo_published"
    using demo_publish by (simp add: s0_def start_world_def)
  have "sys_step publish_webhook demo_cfg ''orders'' s0 s"
    using sys_step.publish_row [OF pub, of publish_webhook demo_cfg "''orders''"]
    by (simp add: s0_def s_def demo_published_def)
  then have reach: "sys_reach publish_webhook demo_cfg ''orders'' s0 s" by (rule reach_step [OF reach_refl])
  obtain res db' where sw: "sweep_one (\<lambda>_. None) (\<lambda>_. False) 0 ''orders'' 10 False demo_published = Inr (res, db')"
    using demo_sweep by (auto simp: is_ok_iff)
  have "demo_row \<in> set (outbox_messages db')"
  proof (rule ccontr)
    assume "demo_row \<notin> set (outbox_messages db')"
    with sweep_spares_undelivered [OF demo_native start reach, of "\<lambda>_. None" "\<lambda>_. False" 0 "''orders''" 10 False res db' demo_row] sw
    show False
      by (simp add: s_def s0_def with_db_def start_world_def webhook_holds_def dead_letters_def demo_published_def demo_db_def
          empty_db_def)
  qed
  with sw show ?thesis by blast
qed

section \<open>Nothing is made up, nothing is delivered twice\<close>

text \<open>
  C2: In every interleaving, crashes, retries and redeliveries included, each row of the inbox is a
  row that was published to the outbox, under the key of that row and with its payload (when the
  row is not a claim check), and no key is in the inbox twice: at-least-once polling becomes
  exactly-once at the inbox.
\<close>

theorem inbox_rows_are_genuine_and_unique:
  assumes "native_pipeline cfg ob" and "sys_start cfg ob s0" and "is_table (w_sink (sy_world s0)) = []"
    and "sys_reach publish_inbox cfg ob s0 s"
  shows "distinct (map ib_event_id (is_table (w_sink (sy_world s)))) \<and>
    (\<forall>x \<in> set (is_table (w_sink (sy_world s))). \<exists>h \<in> set (sy_history s).
       ib_event_id x = row_key ob (row_id h) \<and> (\<not> is_claim_check (row_payload h) \<longrightarrow> ib_payload x = row_payload h))"
proof
  show "distinct (map ib_event_id (is_table (w_sink (sy_world s))))"
    using inbox_distinct.stable_reach [OF assms(4,1)] assms(3) by simp
  have "integrity (\<lambda>s. set (is_table s)) (\<lambda>x m. x = inbox_row_of m) ob s0"
    using assms(2,3) by (simp add: integrity_def sys_start_def)
  from inbox_items.integrity_reach [OF assms(4,1) inv_start [OF assms(2)] this]
  show "\<forall>x \<in> set (is_table (w_sink (sy_world s))). \<exists>h \<in> set (sy_history s).
       ib_event_id x = row_key ob (row_id h) \<and> (\<not> is_claim_check (row_payload h) \<longrightarrow> ib_payload x = row_payload h)"
    by (fastforce simp: integrity_def from_history_def message_of_def row_key_def inbox_row_of_def)
qed

theorem inbox_rows_are_genuine_and_unique_witness:
  "\<exists>x \<in> set (is_table (w_sink demo_done)). ib_payload x = row_payload demo_row \<and> ib_event_id x = row_key ''orders'' 1"
proof -
  have row: "row_id demo_row = 1" "\<not> is_claim_check (row_payload demo_row)"
    by (simp_all add: demo_row_def is_claim_check_def)
  have "is_table (w_sink (sy_world demo_start)) = []"
    by (simp add: demo_start_def start_world_def demo_sink_def)
  from inbox_rows_are_genuine_and_unique [OF demo_native demo_starts this demo_reach]
  have "\<forall>x \<in> set (is_table (w_sink demo_done)). ib_event_id x = row_key ''orders'' 1 \<and> ib_payload x = row_payload demo_row"
    using row by simp
  moreover have "is_table (w_sink demo_done) = [inbox_row_of demo_message]" by (simp add: demo_done_def)
  ultimately show ?thesis by simp
qed

section \<open>Progress\<close>

text \<open>
  C5: When nothing fails, \<open>n\<close> iterations of a live worker with its breaker off deliver everything that is
  pending, for every \<open>n\<close> such that \<open>n\<close> batches are enough: nothing remains above the cursor and
  each pending row's key is in the inbox.
\<close>

theorem clean_worker_drains_outbox:
  assumes "deliverable cfg w" and "fault_free publish_inbox cfg env"
    and "length (pending w) \<le> n * nat (wc_batch_size cfg)"
  shows "\<exists>w'. worker_loop publish_inbox cfg (replicate n env) w = (w', LoopAgain 0) \<and> pending w' = []
    \<and> (\<forall>r \<in> set (pending w). row_key (s_outbox (w_source w)) (row_id r) \<in> inbox_holds (w_sink w'))"
  using inbox.clean_loop_drains [OF assms(1), of "replicate n env"] assms(2,3) by auto

lemma small_messages_fit:
  "2 \<le> limit \<Longrightarrow> \<exists>b. message_sizes (\<lambda>_. Inr ''{}'') t limit ms acc = Inr b \<and> b \<le> acc + 2 * length ms"
proof (induction ms arbitrary: acc)
  case (Cons m ms)
  from Cons.IH [OF Cons.prems, of "min (nat u64_max) (acc + 2)"] Cons.prems show ?case by auto
qed simp

lemma demo_fault_free: "fault_free publish_inbox demo_cfg demo_env"
proof -
  have "validate_publish_limits (\<lambda>_. Inr ''{}'') demo_pipeline ms = Inr ()" if "length ms \<le> 100" for ms
  proof -
    have "require_str demo_pipeline [''sink_type''] = Inr ''inbox''" by code_simp
    moreover obtain b where "message_sizes (\<lambda>_. Inr ''{}'') ''inbox'' (max_message_bytes (the (c_capabilities inbox_connector))) ms 0 = Inr b"
      "b \<le> 2 * length ms"
      using small_messages_fit [of "max_message_bytes (the (c_capabilities inbox_connector))" "''inbox''" ms 0]
      by (auto simp: inbox_connector_def)
    ultimately show ?thesis
      using that by (simp add: validate_publish_limits_def sink_descriptor_cases inbox_connector_def)
  qed
  moreover have "snd (publish_inbox None ms s) = Inr ()" for ms s by (simp add: publish_inbox_def case_prod_beta Let_def)
  ultimately show ?thesis
    by (simp add: fault_free_def clean_source_def demo_env_def demo_senv_def)
qed

theorem clean_worker_drains_outbox_witness:
  "\<exists>w'. worker_loop publish_inbox demo_cfg (replicate 1 demo_env) demo_world = (w', LoopAgain 0) \<and> pending w' = []
     \<and> row_key ''orders'' 1 \<in> inbox_holds (w_sink w')"
proof -
  have "\<not> cb_enabled (cb_config (w_breaker demo_world))" by code_simp
  then have d: "deliverable demo_cfg demo_world"
    by (simp add: deliverable_def live_def demo_source_def demo_published_def demo_row_def is_claim_check_def)
  have p: "pending demo_world = [demo_row]"
    by (simp add: pending_def rows_after_def demo_source_def demo_published_def demo_row_def)
  then have "length (pending demo_world) \<le> 1 * nat (wc_batch_size demo_cfg)" by simp
  from clean_worker_drains_outbox [OF d demo_fault_free this] p show ?thesis
    by (auto simp: demo_source_def demo_row_def)
qed

section \<open>Witnesses over the concrete deployment\<close>

theorem poll_returns_gap_free_prefix_witness:
  "\<exists>rows. list_all2 (message_of ''orders'') rows [demo_message] \<and> length rows \<le> 100
     \<and> (\<forall>r \<in> set rows. r \<in> set (outbox_messages demo_published))"
proof -
  have "poll demo_senv 100 demo_source demo_published = (demo_source, demo_published, Inr [demo_message])"
    using demo_poll by (auto simp: poll_and_decode_def split: prod.splits sum.splits if_splits)
  from poll_returns_gap_free_prefix [OF _ this] show ?thesis
    by (simp add: demo_source_def) blast
qed

theorem acknowledge_never_moves_back_witness:
  "\<exists>db'. (\<exists>s'. acknowledge demo_senv demo_message demo_source demo_published = (s', db', Inr []))
     \<and> 1 \<le> unwrap_or (find_offset (source_key demo_source) (relay_offsets db')) 0"
  using acknowledge_never_moves_back [OF _ _ _ demo_acknowledge, of 1] demo_acknowledge demo_key
  by (intro exI [of _ "w_db demo_done"]) (simp add: demo_source_def)

lemma replay_writes_nothing_example:
  "\<exists>s1. configure_replay 1 demo_source = Inr s1
     \<and> fst (snd (acknowledge demo_senv demo_message s1 demo_published)) = demo_published"
proof -
  let ?s1 = "demo_source\<lparr>s_replay := True, s_last_offset := 0\<rparr>"
  have c: "configure_replay 1 demo_source = Inr ?s1" by (simp add: configure_replay_def demo_source_def i64_min_def)
  obtain s2 db' r where a: "acknowledge demo_senv demo_message ?s1 demo_published = (s2, db', r)" by (rule prod_cases3)
  from replay_writes_nothing [OF c a] c a show ?thesis by simp
qed

theorem worker_refines_delivery_model_witness:
  "\<exists>f. model_run 7 [StPolled, StEncoded, StPublishStarted, StSinkAcknowledged, StCheckpointCommitted] = Inr f
     \<and> df_state f = CheckpointCommitted"
proof -
  have "\<exists>w. process_batch publish_inbox demo_cfg demo_env [demo_message] (Some demo_message) w =
      (demo_done, [StPolled, StEncoded, StPublishStarted, StSinkAcknowledged, StCheckpointCommitted], LoopAgain 0)"
    using demo_iteration demo_poll by (auto simp: iteration_def)
  then obtain w where "process_batch publish_inbox demo_cfg demo_env [demo_message] (Some demo_message) w =
      (demo_done, [StPolled, StEncoded, StPublishStarted, StSinkAcknowledged, StCheckpointCommitted], LoopAgain 0)" by blast
  from worker_refines_delivery_model [OF this, of 7] show ?thesis by auto
qed

section \<open>Replays and poison rows on the concrete deployment\<close>

definition replay_cfg :: worker_config where
  "replay_cfg = demo_cfg\<lparr>wc_replay := Some (1, 3)\<rparr>"

definition replay_world :: "inbox_sink world" where
  "replay_world = start_world demo_cfg (demo_source\<lparr>s_replay := True\<rparr>) demo_published demo_sink"

lemma demo_source_cursor [simp]: "s_last_offset demo_source = 0" "s_consumer demo_source = None"
  by (simp_all add: demo_source_def)

lemma replay_world_simps:
  "w_source replay_world = demo_source\<lparr>s_replay := True\<rparr>" "w_db replay_world = demo_published"
  "s_last_offset (w_source replay_world) = 0" "s_consumer (w_source replay_world) = None"
  "wc_batch_size replay_cfg = 100" "wc_replay replay_cfg = Some (1, 3)"
  by (simp_all add: replay_world_def start_world_def demo_source_def replay_cfg_def)

lemma replay_fault_free: "fault_free publish_inbox replay_cfg demo_env"
  using demo_fault_free by (simp add: fault_free_def replay_cfg_def)

lemma replay_world_ready: "replay_ready replay_cfg replay_world"
proof -
  have "cb_state (w_breaker replay_world) = Closed" by code_simp
  then show ?thesis
    by (simp add: replay_ready_def replaying_def replay_world_simps demo_published_def demo_row_def is_claim_check_def)
qed

theorem replay_terminates_witness:
  "\<exists>w'. worker_loop publish_inbox replay_cfg (replicate 4 demo_env) replay_world = (w', LoopBreak)
     \<and> letters_only (w_db replay_world) (w_db w')"
  using replay_terminates [OF replay_world_ready replay_world_simps(6), of "replicate 4 demo_env" publish_inbox] replay_fault_free
  by (simp add: replay_world_simps)

lemma replay_commits_at_most_range_example:
  "replay_commits publish_inbox replay_cfg (replicate 9 demo_env) replay_world \<le> 3"
  using replay_commits_at_most_range [of replay_world replay_cfg 1 3 publish_inbox "replicate 9 demo_env"]
  by (simp add: replaying_def replay_world_simps)

definition calm_replay :: replay_fate where
  "calm_replay = \<lparr> rf_connection = None, rf_row_query = None, rf_before = None, rf_source = None, rf_metrics = None, rf_after = None \<rparr>"


definition marker_db :: tide_db where
  "marker_db = demo_db\<lparr>outbox_messages := [\<lparr> row_id = 1, row_outbox = ''orders'', row_payload = claim_marker,
       row_headers = JObj [], row_created_at = 5 \<rparr>], next_id := 2, notifications := [(''tide_outbox_new'', ''orders'')]\<rparr>"

lemma marker_publish:
  "outbox_publish (\<lambda>_. None) demo_auth 5 ''orders'' claim_marker (JObj []) demo_db = Inr marker_db"
  by code_simp

definition marker_world :: "inbox_sink world" where
  "marker_world = start_world demo_cfg demo_source marker_db demo_sink"

lemma marker_world_simps:
  "w_source marker_world = demo_source" "w_db marker_world = marker_db" "s_last_offset demo_source = 0"
  "s_outbox demo_source = ''orders''" "live demo_source" "w_sink marker_world = demo_sink"
  by (simp_all add: marker_world_def start_world_def demo_source_def live_def)

lemma marker_world_poisoned: "poisoned demo_cfg marker_world"
  using claim_marker_broken by (simp add: poisoned_def marker_world_simps rows_after_def marker_db_def)

lemma broken_claim_check_stalls_pipeline_example:
  "w_db (fst (worker_loop publish_inbox demo_cfg (replicate 7 demo_env) marker_world)) = marker_db"
proof -
  have "w_db (fst (worker_loop publish_inbox demo_cfg (replicate 7 demo_env) marker_world)) = w_db marker_world"
    by (rule broken_claim_check_stalls_pipeline [OF marker_world_poisoned surjective_pairing, THEN conjunct1])
  then show ?thesis by (simp add: marker_world_simps)
qed

theorem published_marker_stalls_pipeline_witness:
  "w_sink (fst (worker_loop publish_inbox demo_cfg (replicate 5 demo_env) marker_world)) = demo_sink"
proof -
  have none: "rows_after ''orders'' 0 demo_db = []" "next_id demo_db = 1"
    by (simp_all add: rows_after_def demo_db_def empty_db_def)
  have "w_db (fst (worker_loop publish_inbox demo_cfg (replicate 5 demo_env) marker_world)) = marker_db
      \<and> w_sink (fst (worker_loop publish_inbox demo_cfg (replicate 5 demo_env) marker_world)) = w_sink marker_world
      \<and> s_last_offset (w_source (fst (worker_loop publish_inbox demo_cfg (replicate 5 demo_env) marker_world))) = s_last_offset (w_source marker_world)"
    by (rule published_marker_stalls_pipeline [OF marker_publish _ _ _ _ _ _ surjective_pairing])
      (simp_all add: marker_world_simps none)
  then show ?thesis by (simp add: marker_world_simps)
qed

end
